(* ===== verification/Prelude.thy ===== *)
theory Prelude
  imports
    Complex_Main
    "HOL-Library.Word"
    "HOL-Library.AList"
    "HOL-Library.Sublist"
    "HOL-Library.Multiset"
begin

text \<open>
  What the components share: the part of the Go language and of its standard library
  that the sources use (strings, maps, 32-bit integers, time, buffered channels), with
  the lemmas the component theories rely on.

  \<^item> Go strings are byte strings, \<open>char list\<close> here. \<open>trim_space\<close>, \<open>to_lower\<close>,
    \<open>to_upper\<close> and \<open>equal_fold\<close> are the functions of package \<open>strings\<close> on ASCII
    text; the Unicode tables are not modelled.
  \<^item> A Go map is an association list with distinct keys. The list order stands for the
    iteration order, which Go leaves open, so no theorem may depend on it.
  \<^item> \<open>int32\<close> is \<open>32 word\<close>: arithmetic wraps, comparisons go through \<open>sint\<close>. Go's 64-bit
    \<open>int\<close> and \<open>int64\<close> are only used for lengths, ranks and version counters and are
    \<open>int\<close>.
  \<^item> \<open>time.Time\<close> and \<open>time.Duration\<close> are nanosecond counts (\<open>int\<close>).
  \<^item> A buffered channel is its capacity with the values it holds; the non-blocking send
    (\<open>select\<close> with a \<open>default\<close>) drops the value when the buffer is full.
\<close>

section \<open>Collections of proof rules\<close>

named_theorems go_simps \<open>rewrite rules for the Go library functions\<close>
named_theorems frame_simps \<open>what an operation leaves unchanged\<close>
named_theorems inv_intros \<open>operations that keep an invariant\<close>

section \<open>Results\<close>

type_synonym ('e, 'a) result = "'e + 'a"

abbreviation Err :: "'e \<Rightarrow> ('e, 'a) result" where
  "Err e \<equiv> Inl e"

abbreviation Ok :: "'a \<Rightarrow> ('e, 'a) result" where
  "Ok x \<equiv> Inr x"

definition is_ok :: "('e, 'a) result \<Rightarrow> bool" where
  "is_ok r = (case r of Inl _ \<Rightarrow> False | Inr _ \<Rightarrow> True)"

lemma is_ok_simps [simp]: "is_ok (Inr x)" "\<not> is_ok (Inl e)"
  by (simp_all add: is_ok_def)

section \<open>Strings\<close>

definition is_space :: "char \<Rightarrow> bool" where
  "is_space c = (c \<in> {CHR '' '', CHR 0x09, CHR 0x0A, CHR 0x0B, CHR 0x0C, CHR 0x0D})"

definition trim_space :: "string \<Rightarrow> string" where
  "trim_space s = rev (dropWhile is_space (rev (dropWhile is_space s)))"

definition lower_char :: "char \<Rightarrow> char" where
  "lower_char c = (let n = (of_char c :: nat) in
     if 65 \<le> n \<and> n \<le> 90 then char_of (n + 32) else c)"

definition upper_char :: "char \<Rightarrow> char" where
  "upper_char c = (let n = (of_char c :: nat) in
     if 97 \<le> n \<and> n \<le> 122 then char_of (n - 32) else c)"

definition to_lower :: "string \<Rightarrow> string" where
  "to_lower s = map lower_char s"

definition to_upper :: "string \<Rightarrow> string" where
  "to_upper s = map upper_char s"

definition equal_fold :: "string \<Rightarrow> string \<Rightarrow> bool" where
  "equal_fold s t = (to_lower s = to_lower t)"

fun contains_sub :: "string \<Rightarrow> string \<Rightarrow> bool" where
  "contains_sub [] t = (t = [])"
| "contains_sub (c # s) t = (prefix t (c # s) \<or> contains_sub s t)"

lemma dropWhile_all_space: "(\<forall>c \<in> set s. P c) \<Longrightarrow> dropWhile P s = []"
  by (simp add: dropWhile_eq_Nil_conv)

lemma trim_space_Nil [simp]: "trim_space [] = []"
  by (simp add: trim_space_def)

lemma trim_space_hd:
  assumes "trim_space s \<noteq> []"
  shows "\<not> is_space (hd (trim_space s))"
proof -
  let ?u = "dropWhile is_space s"
  have u: "?u \<noteq> []" using assms unfolding trim_space_def by force
  have h: "\<not> is_space (hd ?u)" using hd_dropWhile [OF u] .
  obtain v where v: "?u = trim_space s @ v"
  proof -
    have "?u = rev (takeWhile is_space (rev ?u) @ dropWhile is_space (rev ?u))"
      by (simp only: takeWhile_dropWhile_id rev_rev_ident)
    then have "?u = trim_space s @ rev (takeWhile is_space (rev ?u))"
      unfolding trim_space_def by (simp only: rev_append)
    then show ?thesis by (rule that)
  qed
  with h assms show ?thesis by (simp add: hd_append2)
qed

lemma trim_space_last:
  assumes "trim_space s \<noteq> []"
  shows "\<not> is_space (last (trim_space s))"
proof -
  let ?v = "dropWhile is_space (rev (dropWhile is_space s))"
  have "?v \<noteq> []" using assms by (simp add: trim_space_def)
  then have "\<not> is_space (hd ?v)" by (rule hd_dropWhile)
  then show ?thesis by (simp add: trim_space_def last_rev)
qed

lemma trim_space_id:
  assumes "s \<noteq> []" "\<not> is_space (hd s)" "\<not> is_space (last s)"
  shows "trim_space s = s"
proof -
  have "dropWhile is_space s = s" using assms by (cases s) auto
  moreover have "dropWhile is_space (rev s) = rev s"
  proof -
    have "rev s = last s # rev (butlast s)"
      using assms(1) append_butlast_last_id [of s] by (metis rev.simps(2) rev_rev_ident rev_swap)
    then show ?thesis using assms(3) by (metis dropWhile.simps(2))
  qed
  ultimately show ?thesis by (simp add: trim_space_def)
qed

lemma trim_space_idem [simp, go_simps]: "trim_space (trim_space s) = trim_space s"
proof (cases "trim_space s = []")
  case False
  then show ?thesis by (intro trim_space_id trim_space_hd trim_space_last)
qed simp

lemma trim_space_eq_Nil_iff: "trim_space s = [] \<longleftrightarrow> (\<forall>c \<in> set s. is_space c)"
proof
  assume "trim_space s = []"
  then have "dropWhile is_space (rev (dropWhile is_space s)) = []"
    by (simp add: trim_space_def)
  then have a: "\<forall>c \<in> set (dropWhile is_space s). is_space c"
    by (simp add: dropWhile_eq_Nil_conv)
  show "\<forall>c \<in> set s. is_space c"
    using a by (metis UnE set_append set_takeWhileD takeWhile_dropWhile_id)
next
  assume "\<forall>c \<in> set s. is_space c"
  then show "trim_space s = []" by (simp add: trim_space_def dropWhile_all_space)
qed

lemma of_char_lower_char:
  "of_char (lower_char c) =
     (if 65 \<le> (of_char c :: nat) \<and> (of_char c :: nat) \<le> 90 then of_char c + 32 else (of_char c :: nat))"
proof (cases "65 \<le> (of_char c :: nat) \<and> (of_char c :: nat) \<le> 90")
  case True
  then have "(of_char c + 32 :: nat) mod 256 = of_char c + 32" by simp
  with True show ?thesis by (simp add: lower_char_def Let_def)
next
  case False
  then have "lower_char c = c" by (auto simp: lower_char_def Let_def)
  with False show ?thesis by auto
qed

lemma lower_char_idem [simp]: "lower_char (lower_char c) = lower_char c"
proof -
  have "\<not> (65 \<le> (of_char (lower_char c) :: nat) \<and> (of_char (lower_char c) :: nat) \<le> 90)"
    by (simp add: of_char_lower_char)
  then show ?thesis by (subst lower_char_def) (auto simp: Let_def)
qed

lemma to_lower_idem [simp, go_simps]: "to_lower (to_lower s) = to_lower s"
  by (simp add: to_lower_def)

lemma to_lower_Nil [simp]: "to_lower [] = []"
  by (simp add: to_lower_def)

lemma to_lower_eq_Nil [simp]: "to_lower s = [] \<longleftrightarrow> s = []"
  by (simp add: to_lower_def)

lemma equal_fold_refl [simp]: "equal_fold s s"
  by (simp add: equal_fold_def)

lemma equal_fold_sym: "equal_fold s t = equal_fold t s"
  by (auto simp: equal_fold_def)

lemma equal_fold_trans: "equal_fold s t \<Longrightarrow> equal_fold t u \<Longrightarrow> equal_fold s u"
  by (simp add: equal_fold_def)

lemma of_char_space_cases:
  "is_space c \<longleftrightarrow> (of_char c :: nat) \<in> {32, 9, 10, 11, 12, 13}"
  by (auto simp: is_space_def of_char_eq_iff [symmetric, where 'a = nat])

lemma is_space_lower_char [simp]: "is_space (lower_char c) = is_space c"
  by (auto simp: of_char_space_cases of_char_lower_char)

lemma to_lower_dropWhile: "dropWhile is_space (to_lower s) = to_lower (dropWhile is_space s)"
  by (simp add: to_lower_def dropWhile_map comp_def)

lemma to_lower_rev: "to_lower (rev s) = rev (to_lower s)"
  by (simp add: to_lower_def rev_map)

lemma trim_space_to_lower: "trim_space (to_lower s) = to_lower (trim_space s)"
  by (simp add: trim_space_def to_lower_dropWhile to_lower_rev [symmetric])

lemma contains_sub_iff: "contains_sub s t \<longleftrightarrow> sublist t s"
  by (induction s) (auto simp: sublist_Cons_right)

section \<open>Maps\<close>

text \<open>
  \<open>gget m k\<close> is the comma-ok lookup \<open>v, ok := m[k]\<close>, \<open>sget m k\<close> the plain lookup
  \<open>m[k]\<close> of a string map, the empty string for a missing key; both work on a nil map
  (\<open>None\<close>) too.
\<close>

type_synonym ('k, 'v) gomap = "('k \<times> 'v) list"

type_synonym strmap = "(string, string) gomap option"

definition wf_map :: "('k, 'v) gomap \<Rightarrow> bool" where
  "wf_map m = distinct (map fst m)"

definition gget :: "('k, 'v) gomap option \<Rightarrow> 'k \<Rightarrow> 'v option" where
  "gget m k = (case m of None \<Rightarrow> None | Some al \<Rightarrow> map_of al k)"

definition sget :: "strmap \<Rightarrow> string \<Rightarrow> string" where
  "sget m k = (case gget m k of None \<Rightarrow> [] | Some v \<Rightarrow> v)"

definition copy_into :: "('k, 'v) gomap \<Rightarrow> ('k, 'v) gomap \<Rightarrow> ('k, 'v) gomap" where
  \<comment> \<open>\<open>for k, v := range src { dst[k] = v }\<close>\<close>
  "copy_into src dst = fold (\<lambda>(k, v). AList.update k v) src dst"

lemma gget_simps [simp, go_simps]:
  "gget None k = None" "gget (Some al) k = map_of al k"
  by (simp_all add: gget_def)

lemma sget_None [simp]: "sget None k = []"
  by (simp add: sget_def)

lemma sget_update: "sget (Some (AList.update k v al)) k' = (if k' = k then v else sget (Some al) k')"
  by (simp add: sget_def update_conv')

lemma wf_map_Nil [simp]: "wf_map []"
  by (simp add: wf_map_def)

lemma wf_map_update [simp, inv_intros]: "wf_map m \<Longrightarrow> wf_map (AList.update k v m)"
  unfolding wf_map_def by (rule distinct_update)

lemma wf_map_delete [simp, inv_intros]: "wf_map m \<Longrightarrow> wf_map (AList.delete k m)"
  unfolding wf_map_def by (rule distinct_delete)

lemma wf_map_map_of: "wf_map m \<Longrightarrow> map_of m k = Some v \<longleftrightarrow> (k, v) \<in> set m"
  unfolding wf_map_def by (rule map_of_eq_Some_iff)

definition keys :: "('k \<times> 'v) list \<Rightarrow> 'k set" where
  "keys m = fst ` set m"

lemma keys_Nil [simp]: "keys [] = {}"
  by (simp add: keys_def)

lemma keys_Cons [simp]: "keys (kv # m) = insert (fst kv) (keys m)"
  by (simp add: keys_def)

lemma keys_update [simp]: "keys (AList.update k v m) = insert k (keys m)"
  by (simp add: keys_def dom_update)

lemma keys_delete [simp]: "keys (AList.delete k m) = keys m - {k}"
  by (auto simp: keys_def AList.delete_eq)

lemma finite_keys [simp]: "finite (keys m)"
  by (simp add: keys_def)

lemma map_of_None_keys: "map_of m k = None \<longleftrightarrow> k \<notin> keys m"
  by (simp add: keys_def map_of_eq_None_iff)

lemma card_keys: "wf_map m \<Longrightarrow> card (keys m) = length m"
  using distinct_card [of "map fst m"] by (simp add: keys_def wf_map_def)

lemma map_of_copy_into:
  "wf_map src \<Longrightarrow> map_of (copy_into src dst) = map_of dst ++ map_of src"
proof (induction src arbitrary: dst)
  case Nil
  then show ?case by (simp add: copy_into_def)
next
  case (Cons kv src)
  obtain k v where kv: "kv = (k, v)" by (cases kv)
  have n: "map_of src k = None" and w: "wf_map src"
    using Cons.prems by (auto simp: kv wf_map_def map_of_eq_None_iff)
  have "map_of (copy_into (kv # src) dst) = map_of (copy_into src (AList.update k v dst))"
    by (simp add: copy_into_def kv)
  also have "\<dots> = (map_of dst)(k \<mapsto> v) ++ map_of src"
    using Cons.IH [OF w, of "AList.update k v dst"] by (simp only: update_conv')
  also have "\<dots> = map_of dst ++ map_of (kv # src)"
    using n by (auto simp: kv map_add_def fun_eq_iff split: option.splits)
  finally show ?case .
qed

lemma wf_map_copy_into [simp, inv_intros]: "wf_map dst \<Longrightarrow> wf_map (copy_into src dst)"
  by (induction src arbitrary: dst) (auto simp: copy_into_def)

section \<open>32-bit integers\<close>

type_synonym int32 = "32 word"

lemma sint32_bounds: "- (2 ^ 31) \<le> sint (a :: int32)" "sint (a :: int32) < 2 ^ 31"
  using sint_ge [of a] sint_lt [of a] by simp_all

lemma sint32_add:
  assumes "- (2 ^ 31) \<le> sint a + sint b" "sint a + sint b < 2 ^ 31"
  shows "sint (a + b :: int32) = sint a + sint b"
proof -
  have "sint (a + b) = signed_take_bit 31 (sint a + sint b)"
    by (simp add: sint_word_ariths)
  also have "\<dots> = sint a + sint b"
    by (rule signed_take_bit_int_eq_self) (use assms in simp_all)
  finally show ?thesis .
qed

lemma sint32_sub:
  assumes "- (2 ^ 31) \<le> sint a - sint b" "sint a - sint b < 2 ^ 31"
  shows "sint (a - b :: int32) = sint a - sint b"
proof -
  have "sint (a - b) = signed_take_bit 31 (sint a - sint b)"
    by (simp add: sint_word_ariths)
  also have "\<dots> = sint a - sint b"
    by (rule signed_take_bit_int_eq_self) (use assms in simp_all)
  finally show ?thesis .
qed

lemma sint32_mult:
  assumes "- (2 ^ 31) \<le> sint a * sint b" "sint a * sint b < 2 ^ 31"
  shows "sint (a * b :: int32) = sint a * sint b"
proof -
  have "sint (a * b) = signed_take_bit 31 (sint a * sint b)"
    by (simp add: sint_word_ariths)
  also have "\<dots> = sint a * sint b"
    by (rule signed_take_bit_int_eq_self) (use assms in simp_all)
  finally show ?thesis .
qed

lemma sint32_inc: "sint a < 2 ^ 31 - 1 \<Longrightarrow> sint (a + 1 :: int32) = sint a + 1"
  using sint32_add [of a 1] sint32_bounds(1) [of a] by simp

section \<open>Decimal numbers\<close>

text \<open>\<open>itoa\<close> is the decimal text of an integer, as \<open>strconv.Itoa\<close> and \<open>%d\<close> write it.\<close>

fun digits :: "nat \<Rightarrow> string" where
  "digits n = (if n < 10 then [char_of (48 + n)] else digits (n div 10) @ [char_of (48 + n mod 10)])"

declare digits.simps [simp del]

definition itoa :: "int \<Rightarrow> string" where
  "itoa i = (if i < 0 then ''-'' @ digits (nat (- i)) else digits (nat i))"

definition undigits :: "string \<Rightarrow> nat" where
  "undigits s = foldl (\<lambda>n c. 10 * n + (of_char c - 48)) 0 s"

lemma of_char_digit: "d < 10 \<Longrightarrow> of_char (char_of (48 + d) :: char) = (48 + d :: nat)"
  by simp

lemma undigits_digits [simp]: "undigits (digits n) = n"
proof (induction n rule: digits.induct)
  case (1 n)
  show ?case
  proof (cases "n < 10")
    case True
    then show ?thesis by (subst digits.simps) (simp add: undigits_def)
  next
    case False
    then have "undigits (digits n) = 10 * undigits (digits (n div 10)) + (of_char (char_of (48 + n mod 10) :: char) - 48)"
      by (subst digits.simps) (simp add: undigits_def)
    also have "\<dots> = n" using 1 False by simp
    finally show ?thesis .
  qed
qed

lemma digits_range: "c \<in> set (digits n) \<Longrightarrow> 48 \<le> (of_char c :: nat) \<and> (of_char c :: nat) \<le> 57"
proof (induction n rule: digits.induct)
  case (1 n)
  then show ?case by (cases "n < 10") (subst (asm) (2) digits.simps, auto)+
qed

lemma digits_not_Nil [simp]: "digits n \<noteq> []"
  by (subst digits.simps) simp

lemma digits_no_minus: "hd (digits n) \<noteq> CHR ''-''"
  using digits_range [of "hd (digits n)" n] hd_in_set [of "digits n"] by auto

lemma itoa_inject [simp]: "itoa i = itoa j \<longleftrightarrow> i = j"
proof
  assume eq: "itoa i = itoa j"
  have m: "digits n \<noteq> CHR ''-'' # xs" for n xs using digits_no_minus [of n] by auto
  have d: "digits m = digits n \<Longrightarrow> m = n" for m n using undigits_digits by metis
  show "i = j"
    using eq m m [symmetric] by (auto simp: itoa_def dest!: d split: if_splits)
qed simp

lemma itoa_not_Nil [simp]: "itoa i \<noteq> []"
  by (simp add: itoa_def)

lemma itoa_no_space: "c \<in> set (itoa i) \<Longrightarrow> \<not> is_space c"
  using digits_range [of c] by (auto simp: itoa_def of_char_space_cases split: if_splits)

lemma trim_space_itoa [simp]: "trim_space (itoa i) = itoa i"
  by (rule trim_space_id [OF itoa_not_Nil]) (rule itoa_no_space [of _ i], simp)+

section \<open>Time\<close>

type_synonym gotime = int

definition zero_time :: gotime where
  \<comment> \<open>\<open>time.Time{}\<close>, January 1 of year 1, in nanoseconds before the Unix epoch\<close>
  "zero_time = - 62135596800 * 10 ^ 9"

definition second :: int where
  "second = 10 ^ 9"

section \<open>Buffered channels\<close>

record 'a chan =
  ch_id :: nat
  ch_cap :: nat
  ch_buf :: "'a list"

definition make_chan :: "nat \<Rightarrow> nat \<Rightarrow> 'a chan" where
  "make_chan i n = \<lparr>ch_id = i, ch_cap = n, ch_buf = []\<rparr>"

definition has_room :: "'a chan \<Rightarrow> bool" where
  "has_room c = (length (ch_buf c) < ch_cap c)"

definition try_send :: "'a \<Rightarrow> 'a chan \<Rightarrow> 'a chan" where
  \<comment> \<open>\<open>select { case ch <- x: default: }\<close>\<close>
  "try_send x c = (if has_room c then c\<lparr>ch_buf := ch_buf c @ [x]\<rparr> else c)"

definition chan_ok :: "'a chan \<Rightarrow> bool" where
  "chan_ok c = (length (ch_buf c) \<le> ch_cap c)"

lemma try_send_frame [simp, frame_simps]:
  "ch_id (try_send x c) = ch_id c" "ch_cap (try_send x c) = ch_cap c"
  by (simp_all add: try_send_def)

lemma try_send_buf:
  "ch_buf (try_send x c) = (if has_room c then ch_buf c @ [x] else ch_buf c)"
  by (simp add: try_send_def)

text \<open>
  The interface of a non-blocking mailbox: what a publisher relies on. A send keeps the
  mailbox within its bound and in order, and delivers whenever there is room.
\<close>

locale mailbox =
  fixes send :: "'a \<Rightarrow> 'm \<Rightarrow> 'm"
    and contents :: "'m \<Rightarrow> 'a list"
    and bound :: "'m \<Rightarrow> nat"
  assumes send_room: "length (contents m) < bound m \<Longrightarrow> contents (send x m) = contents m @ [x]"
    and send_full: "\<not> length (contents m) < bound m \<Longrightarrow> contents (send x m) = contents m"
    and send_bound: "bound (send x m) = bound m"
begin

lemma send_within: "length (contents m) \<le> bound m \<Longrightarrow> length (contents (send x m)) \<le> bound (send x m)"
  by (cases "length (contents m) < bound m") (simp_all add: send_room send_full send_bound)

lemma send_prefix: "prefix (contents m) (contents (send x m))"
  by (cases "length (contents m) < bound m") (simp_all add: send_room send_full)

lemma bound_sends [simp]: "bound (fold send xs m) = bound m"
  by (induction xs arbitrary: m) (simp_all add: send_bound)

lemma contents_sends:
  "contents (fold send xs m) = contents m @ take (bound m - length (contents m)) xs"
proof (induction xs arbitrary: m)
  case (Cons x xs)
  show ?case
  proof (cases "length (contents m) < bound m")
    case True
    then have s: "contents (send x m) = contents m @ [x]" by (rule send_room)
    have "contents (fold send (x # xs) m)
      = contents (send x m) @ take (bound (send x m) - length (contents (send x m))) xs"
      using Cons.IH by simp
    also have "\<dots> = (contents m @ [x]) @ take (bound m - Suc (length (contents m))) xs"
      by (simp add: s send_bound)
    also have "\<dots> = contents m @ take (bound m - length (contents m)) (x # xs)"
      using True by (simp add: Suc_diff_Suc [symmetric])
    finally show ?thesis .
  next
    case False
    then have s: "contents (send x m) = contents m" by (rule send_full)
    have "contents (fold send (x # xs) m)
      = contents (send x m) @ take (bound (send x m) - length (contents (send x m))) xs"
      using Cons.IH by simp
    also have "\<dots> = contents m" using False by (simp add: s send_bound)
    also have "\<dots> = contents m @ take (bound m - length (contents m)) (x # xs)"
      using False by simp
    finally show ?thesis .
  qed
qed simp

end

interpretation chan_mb: mailbox try_send ch_buf ch_cap
  by unfold_locales (simp_all add: try_send_def has_room_def)

lemma try_send_ok [simp, inv_intros]: "chan_ok c \<Longrightarrow> chan_ok (try_send x c)"
  unfolding chan_ok_def by (rule chan_mb.send_within)

lemma make_chan_ok [simp]: "chan_ok (make_chan i n)"
  by (simp add: chan_ok_def make_chan_def)

end
