(* ===== verification/Types.thy ===== *)
theory Types
  imports Prelude
begin

text \<open>
  The domain types of \<open>pkg/types\<close>: every struct a component reads or writes is a record
  with the struct's fields in their order (prefixed, since record fields are global
  names), a pointer field is an option, a string enumeration is the string itself with
  an abbreviation per constant, and \<open>EventType\<close>, whose values are only ever the declared
  constants, is a datatype. Text built by \<open>fmt.Sprintf\<close> and \<open>fmt.Errorf\<close> keeps its format
  string and arguments (types \<open>gotext\<close> and \<open>error\<close>), so each error return of the source is
  a distinct value.

  Pointers nested in a workload (\<open>Spec.Scheduling\<close>, \<open>Status.CircuitBreaker\<close>, \<open>Tags\<close>, \<dots>) are
  values, so a struct copy of a workload is independent here. The code writes through a
  nested pointer that two workloads share in one place only, when placement pins a struct
  copy to a node; theories \<open>Rollout\<close> and \<open>Reconciler\<close> write that change back explicitly.

  A \<open>*types.Workload\<close> that is shared between the store, its clients and published
  events is an address \<open>addr\<close> into a heap (theory \<open>World\<close>).
\<close>

section \<open>Scalars, errors\<close>

type_synonym addr = nat

datatype scalar = SNil | SStr string | SInt int | SI32 int32

datatype float64 = NaN | NegInf | Fin rat | PosInf

fun f64_lt :: "float64 \<Rightarrow> float64 \<Rightarrow> bool" where
  "f64_lt NaN _ = False"
| "f64_lt _ NaN = False"
| "f64_lt NegInf NegInf = False"
| "f64_lt NegInf _ = True"
| "f64_lt (Fin a) (Fin b) = (a < b)"
| "f64_lt (Fin a) PosInf = True"
| "f64_lt (Fin a) NegInf = False"
| "f64_lt PosInf _ = False"

datatype gotext =
    Str string
  | Num int
  | Sprintf string "gotext list"
  | ErrText error
and error =
    StoreError string
  | Errorf string "gotext list"
  | Wrapf string "gotext list" error

section \<open>Tags, resources, rollout strategy\<close>

record WorkloadTags =
  wt_Team :: string
  wt_Environment :: string
  wt_CostCenter :: string
  wt_Custom :: strmap

abbreviation LabelKeyTeam :: string where
  "LabelKeyTeam \<equiv> ''kranix.io/team''"

abbreviation LabelKeyEnvironment :: string where
  "LabelKeyEnvironment \<equiv> ''kranix.io/environment''"

abbreviation LabelKeyCostCenter :: string where
  "LabelKeyCostCenter \<equiv> ''kranix.io/cost-center''"

record ResourceRequirements =
  rr_CPURequest :: string
  rr_CPULimit :: string
  rr_MemoryRequest :: string
  rr_MemoryLimit :: string

record VerificationStep =
  vs_Name :: string
  vs_Type :: string
  vs_Config :: strmap
  vs_Timeout :: string
  vs_RetryCount :: int32

record BlueGreenConfig =
  bg_PreviewReplicas :: int32
  bg_AutoSwitch :: bool
  bg_VerificationDuration :: string
  bg_VerificationSteps :: "VerificationStep list"
  bg_RollbackOnFailure :: bool

record RollbackTrigger =
  rt_Type :: string
  rt_Threshold :: float64
  rt_Operator :: string
  rt_Duration :: string
  rt_MetricName :: string

record AutoRollbackConfig =
  ar_Enabled :: bool
  ar_Triggers :: "RollbackTrigger list"
  ar_Cooldown :: string
  ar_MaxRollbacks :: int32

record CanaryConfig =
  cc_Replicas :: int32
  cc_Percentage :: int32
  cc_AnalysisDuration :: string
  cc_SuccessThreshold :: int32
  cc_Metrics :: "string list"
  cc_AutoPromote :: bool

record ABTestConfig =
  ab_VariantA :: string
  ab_VariantB :: string
  ab_TrafficSplit :: int32
  ab_AnalysisDuration :: string
  ab_Metrics :: "string list"
  ab_AutoSelectWinner :: bool

record RolloutStrategy =
  rs_Type :: string
  rs_MaxUnavailable :: int32
  rs_MaxSurge :: int32
  rs_CanaryConfig :: "CanaryConfig option"
  rs_ABTestConfig :: "ABTestConfig option"
  rs_BlueGreenConfig :: "BlueGreenConfig option"
  rs_AutoRollback :: "AutoRollbackConfig option"

section \<open>Scheduling and scaling\<close>

record MetricTarget =
  mt_Type :: string
  mt_AverageValue :: string
  mt_Value :: string

record CustomMetric =
  cm_Name :: string
  cm_Type :: string
  cm_MetricName :: string
  cm_Target :: MetricTarget

record AutoScalingConfig =
  as_Enabled :: bool
  as_MinReplicas :: int32
  as_MaxReplicas :: int32
  as_TargetCPUUtilization :: int32
  as_TargetMemoryUtilization :: int32
  as_CustomMetrics :: "CustomMetric list"
  as_ScaleDownCooldownSeconds :: int32
  as_ScaleUpCooldownSeconds :: int32

record NodeSelectorRequirement =
  nr_Key :: string
  nr_Operator :: string
  nr_Values :: "string list"

record NodeSelectorTerm =
  nt_MatchExpressions :: "NodeSelectorRequirement list"
  nt_MatchFields :: "NodeSelectorRequirement list"

record PreferredSchedulingTerm =
  pt_Weight :: int32
  pt_Preference :: NodeSelectorTerm

record NodeAffinity =
  na_RequiredDuringScheduling :: "NodeSelectorTerm list"
  na_PreferredDuringScheduling :: "PreferredSchedulingTerm list"

record PodAffinityTerm =
  pa_LabelSelector :: strmap
  pa_Namespaces :: "string list"
  pa_TopologyKey :: string

record WeightedPodAffinityTerm =
  wp_Weight :: int32
  wp_PodAffinityTerm :: PodAffinityTerm

record PodAffinity =
  po_RequiredDuringScheduling :: "PodAffinityTerm list"
  po_PreferredDuringScheduling :: "WeightedPodAffinityTerm list"

record AffinityConfig =
  af_NodeAffinity :: "NodeAffinity option"
  af_PodAffinity :: "PodAffinity option"
  af_PodAntiAffinity :: "PodAffinity option"

record Toleration =
  to_Key :: string
  to_Operator :: string
  to_Value :: string
  to_Effect :: string
  to_TolerationSeconds :: "int option"

record SpotWorkloadConfig =
  so_Enabled :: bool
  so_RescheduleOnNodeTermination :: bool

record SchedulingConfig =
  sc_CostAware :: bool
  sc_PreferredRegions :: "string list"
  sc_PreferredZones :: "string list"
  sc_NodeSelectors :: strmap
  sc_Affinity :: "AffinityConfig option"
  sc_Tolerations :: "Toleration list"
  sc_MaxCostPerHour :: string
  sc_WorkloadPriority :: string
  sc_PreemptionEnabled :: bool
  sc_PriorityClassName :: string
  sc_Spot :: "SpotWorkloadConfig option"
  sc_Architecture :: string
  sc_AvoidDrainingNodes :: bool

abbreviation WorkloadPriorityCritical :: string where
  "WorkloadPriorityCritical \<equiv> ''critical''"

abbreviation WorkloadPriorityHigh :: string where
  "WorkloadPriorityHigh \<equiv> ''high''"

abbreviation WorkloadPriorityNormal :: string where
  "WorkloadPriorityNormal \<equiv> ''normal''"

abbreviation WorkloadPriorityLow :: string where
  "WorkloadPriorityLow \<equiv> ''low''"

record CrossNamespaceTrafficPolicy =
  cn_Enabled :: bool
  cn_AllowedIngressNamespaces :: "string list"
  cn_AllowedEgressNamespaces :: "string list"
  cn_AllowSameNamespace :: "bool option"
  cn_BlockClusterDNS :: bool
  cn_AllowEgressInternet :: bool

section \<open>Dependencies, prediction, tenancy, drift, health\<close>

record Dependency =
  dp_WorkloadID :: string
  dp_Type :: string
  dp_Condition :: string
  dp_Timeout :: string

record FailurePrediction =
  fp_Enabled :: bool
  fp_ModelType :: string
  fp_PredictionWindow :: string
  fp_Threshold :: float64
  fp_Features :: "string list"
  fp_MitigationActions :: "string list"

record TenantQuota =
  tq_MaxCPU :: string
  tq_MaxMemory :: string
  tq_MaxWorkloads :: int32
  tq_MaxReplicas :: int32
  tq_MaxStorage :: string
  tq_MaxCustomMetrics :: int32

record TenantIsolation =
  ti_NetworkPolicy :: bool
  ti_ResourceQuota :: bool
  ti_LimitRange :: bool
  ti_PodSecurityPolicy :: bool
  ti_StorageClass :: string

record TenantInfo =
  tn_ID :: string
  tn_Name :: string
  tn_Namespace :: string
  tn_Labels :: strmap
  tn_Quota :: "TenantQuota option"
  tn_Isolation :: "TenantIsolation option"

record DriftTolerance =
  dt_ReplicaVariance :: int32
  dt_ResourceVariancePct :: float64
  dt_EnvVarDriftAllowed :: bool
  dt_LabelDriftAllowed :: bool
  dt_AnnotationDriftAllowed :: bool

record NotificationHook =
  nh_Type :: string
  nh_URL :: string
  nh_Headers :: strmap
  nh_Payload :: string
  nh_Secret :: string

record DriftDetectionConfig =
  dd_Enabled :: bool
  dd_CheckInterval :: string
  dd_AlertOnDrift :: bool
  dd_AutoReconcile :: bool
  dd_MonitoredFields :: "string list option"
  dd_Tolerance :: "DriftTolerance option"
  dd_NotificationHooks :: "NotificationHook list"

record DriftedField =
  df_FieldPath :: string
  df_Desired :: scalar
  df_Actual :: scalar
  df_DiffType :: string

abbreviation DriftSeverityLow :: string where
  "DriftSeverityLow \<equiv> ''low''"

abbreviation DriftSeverityMedium :: string where
  "DriftSeverityMedium \<equiv> ''medium''"

abbreviation DriftSeverityHigh :: string where
  "DriftSeverityHigh \<equiv> ''high''"

abbreviation DriftSeverityCritical :: string where
  "DriftSeverityCritical \<equiv> ''critical''"

record DriftReport =
  dr_WorkloadID :: string
  dr_WorkloadName :: string
  dr_Namespace :: string
  dr_Timestamp :: gotime
  dr_DetectedAt :: gotime
  dr_DriftedFields :: "DriftedField list"
  dr_Severity :: string
  dr_AutoReconciled :: bool
  dr_Message :: gotext

record HealthCheck =
  hc_Name :: string
  hc_Type :: string
  hc_Config :: strmap
  hc_Interval :: string
  hc_Threshold :: int32

record HealthGateConfig =
  hg_Enabled :: bool
  hg_Checks :: "HealthCheck list"
  hg_Timeout :: string
  hg_FailureMode :: string

record CircuitBreakerSpec =
  cb_Enabled :: bool
  cb_FailureThreshold :: int32
  cb_SuccessThreshold :: int32
  cb_OpenDurationSeconds :: int32
  cb_HalfOpenMaxRequests :: int32
  cb_TripOnDegraded :: "bool option"

record WarmStandbySpec =
  ws_Enabled :: bool
  ws_Replicas :: int32
  ws_AutoPromote :: bool
  ws_StandbyWorkloadID :: string

record SecretRef =
  sr_Name :: string
  sr_Namespace :: string
  sr_EnvKey :: string

record SecretRotationSpec =
  ss_Enabled :: bool
  ss_SecretRefs :: "SecretRef list"

record CronScheduleSpec =
  cr_Schedule :: string
  cr_Suspended :: bool
  cr_TimeZone :: string
  cr_ConcurrencyPolicy :: string

section \<open>The workload\<close>

record WorkloadSpec =
  sp_Image :: string
  sp_Replicas :: int32
  sp_Env :: strmap
  sp_Resources :: ResourceRequirements
  sp_Backend :: string
  sp_RolloutStrategy :: RolloutStrategy
  sp_AutoScaling :: "AutoScalingConfig option"
  sp_Scheduling :: "SchedulingConfig option"
  sp_Dependencies :: "Dependency list"
  sp_FailurePrediction :: "FailurePrediction option"
  sp_DriftDetection :: "DriftDetectionConfig option"
  sp_HealthGate :: "HealthGateConfig option"
  sp_CrossNamespaceTraffic :: "CrossNamespaceTrafficPolicy option"
  sp_CronSchedule :: "CronScheduleSpec option"
  sp_CircuitBreaker :: "CircuitBreakerSpec option"
  sp_WarmStandby :: "WarmStandbySpec option"
  sp_SecretRotation :: "SecretRotationSpec option"

type_synonym WorkloadPhase = string

abbreviation WorkloadPhasePending :: WorkloadPhase where
  "WorkloadPhasePending \<equiv> ''Pending''"

abbreviation WorkloadPhaseRunning :: WorkloadPhase where
  "WorkloadPhaseRunning \<equiv> ''Running''"

abbreviation WorkloadPhaseDegraded :: WorkloadPhase where
  "WorkloadPhaseDegraded \<equiv> ''Degraded''"

abbreviation WorkloadPhaseFailed :: WorkloadPhase where
  "WorkloadPhaseFailed \<equiv> ''Failed''"

abbreviation WorkloadPhaseSucceeded :: WorkloadPhase where
  "WorkloadPhaseSucceeded \<equiv> ''Succeeded''"

record CronScheduleStatus =
  cs_LastScheduleTime :: "gotime option"

record RollbackHistoryStatus =
  rh_MaxVersions :: int
  rh_Count :: int
  rh_ActiveID :: string

abbreviation CircuitStateClosed :: string where
  "CircuitStateClosed \<equiv> ''closed''"

abbreviation CircuitStateOpen :: string where
  "CircuitStateOpen \<equiv> ''open''"

abbreviation CircuitStateHalfOpen :: string where
  "CircuitStateHalfOpen \<equiv> ''half-open''"

record CircuitBreakerStatus =
  cbs_State :: string
  cbs_ConsecutiveFails :: int32
  cbs_ConsecutiveOK :: int32
  cbs_HalfOpenAttempts :: int32
  cbs_LastTransition :: gotime
  cbs_OpenUntil :: "gotime option"
  cbs_Message :: string

abbreviation WarmStandbyPhaseCold :: string where
  "WarmStandbyPhaseCold \<equiv> ''Cold''"

abbreviation WarmStandbyPhaseWarming :: string where
  "WarmStandbyPhaseWarming \<equiv> ''Warming''"

abbreviation WarmStandbyPhasePromoted :: string where
  "WarmStandbyPhasePromoted \<equiv> ''Promoted''"

record WarmStandbyStatus =
  wss_StandbyWorkloadID :: string
  wss_Phase :: string
  wss_ReadyReplicas :: int32
  wss_LastFailover :: "gotime option"
  wss_Message :: string

record SecretRotationStatus =
  srs_PendingRestart :: bool
  srs_LastRotation :: "gotime option"
  srs_SecretName :: string
  srs_SecretVersion :: string
  srs_RestartCount :: int32
  srs_Message :: string

record WorkloadStatus =
  st_Phase :: WorkloadPhase
  st_Replicas :: int32
  st_AvailableReplicas :: int32
  st_ReadyReplicas :: int32
  st_Message :: string
  st_LastTransition :: gotime
  st_Cron :: "CronScheduleStatus option"
  st_Rollback :: "RollbackHistoryStatus option"
  st_CircuitBreaker :: "CircuitBreakerStatus option"
  st_WarmStandby :: "WarmStandbyStatus option"
  st_SecretRotation :: "SecretRotationStatus option"
  st_RestartGeneration :: int32

record WorkloadRevision =
  rv_ID :: string
  rv_RecordedAt :: gotime
  rv_Spec :: WorkloadSpec
  rv_Tags :: "WorkloadTags option"
  rv_Labels :: strmap
  rv_ChangeReason :: string

record WorkloadStateTransition =
  tr_FromPhase :: WorkloadPhase
  tr_ToPhase :: WorkloadPhase
  tr_Timestamp :: gotime
  tr_Reason :: string
  tr_Message :: gotext

record Workload =
  wl_ID :: string
  wl_Name :: string
  wl_Namespace :: string
  wl_Labels :: strmap
  wl_Tags :: "WorkloadTags option"
  wl_CreatedAt :: gotime
  wl_UpdatedAt :: gotime
  wl_Spec :: WorkloadSpec
  wl_Status :: WorkloadStatus
  wl_RollbackVersions :: "WorkloadRevision list"
  wl_History :: "WorkloadStateTransition list"
  wl_Tenant :: "TenantInfo option"

abbreviation phase :: "Workload \<Rightarrow> WorkloadPhase" where
  "phase w \<equiv> st_Phase (wl_Status w)"

section \<open>Zero values\<close>

text \<open>The zero values that composite literals such as \<open>&types.WorkloadTags{}\<close> start from.\<close>

definition zero_tags :: WorkloadTags where
  "zero_tags = \<lparr>wt_Team = [], wt_Environment = [], wt_CostCenter = [], wt_Custom = None\<rparr>"

definition zero_resources :: ResourceRequirements where
  "zero_resources = \<lparr>rr_CPURequest = [], rr_CPULimit = [], rr_MemoryRequest = [], rr_MemoryLimit = []\<rparr>"

definition zero_strategy :: RolloutStrategy where
  "zero_strategy = \<lparr>rs_Type = [], rs_MaxUnavailable = 0, rs_MaxSurge = 0, rs_CanaryConfig = None,
     rs_ABTestConfig = None, rs_BlueGreenConfig = None, rs_AutoRollback = None\<rparr>"

definition zero_spec :: WorkloadSpec where
  "zero_spec = \<lparr>sp_Image = [], sp_Replicas = 0, sp_Env = None, sp_Resources = zero_resources,
     sp_Backend = [], sp_RolloutStrategy = zero_strategy, sp_AutoScaling = None,
     sp_Scheduling = None, sp_Dependencies = [], sp_FailurePrediction = None,
     sp_DriftDetection = None, sp_HealthGate = None, sp_CrossNamespaceTraffic = None,
     sp_CronSchedule = None, sp_CircuitBreaker = None, sp_WarmStandby = None,
     sp_SecretRotation = None\<rparr>"

definition zero_status :: WorkloadStatus where
  "zero_status = \<lparr>st_Phase = [], st_Replicas = 0, st_AvailableReplicas = 0, st_ReadyReplicas = 0,
     st_Message = [], st_LastTransition = zero_time, st_Cron = None, st_Rollback = None,
     st_CircuitBreaker = None, st_WarmStandby = None, st_SecretRotation = None,
     st_RestartGeneration = 0\<rparr>"

definition zero_workload :: Workload where
  "zero_workload = \<lparr>wl_ID = [], wl_Name = [], wl_Namespace = [], wl_Labels = None, wl_Tags = None,
     wl_CreatedAt = zero_time, wl_UpdatedAt = zero_time, wl_Spec = zero_spec,
     wl_Status = zero_status, wl_RollbackVersions = [], wl_History = [], wl_Tenant = None\<rparr>"

definition zero_rollback_status :: RollbackHistoryStatus where
  "zero_rollback_status = \<lparr>rh_MaxVersions = 0, rh_Count = 0, rh_ActiveID = []\<rparr>"

definition zero_standby_status :: WarmStandbyStatus where
  "zero_standby_status = \<lparr>wss_StandbyWorkloadID = [], wss_Phase = [], wss_ReadyReplicas = 0,
     wss_LastFailover = None, wss_Message = []\<rparr>"

definition zero_secret_status :: SecretRotationStatus where
  "zero_secret_status = \<lparr>srs_PendingRestart = False, srs_LastRotation = None, srs_SecretName = [],
     srs_SecretVersion = [], srs_RestartCount = 0, srs_Message = []\<rparr>"

section \<open>Quotas\<close>

record HardResourceQuota =
  hq_Namespace :: string
  hq_TeamID :: string
  hq_MaxCPURequests :: string
  hq_MaxMemoryRequests :: string
  hq_MaxWorkloads :: int32
  hq_MaxReplicasTotal :: int32

section \<open>Health results\<close>

record HealthCheckResult =
  hr_CheckName :: string
  hr_Status :: string
  hr_Message :: gotext
  hr_LastChecked :: gotime
  hr_Duration :: int
  hr_Metadata :: strmap

record HealthGateStatus =
  hs_WorkloadID :: string
  hs_OverallStatus :: string
  hs_Results :: "HealthCheckResult list"
  hs_LastEvaluated :: gotime
  hs_Blocked :: bool
  hs_BlockReason :: gotext

section \<open>Events\<close>

datatype EventType =
    WorkloadDeployRequested | WorkloadScheduled | WorkloadCronTriggered | WorkloadRunning
  | WorkloadFailed | WorkloadUpdated | WorkloadRolledBack | WorkloadCircuitOpen
  | WorkloadCircuitClosed | WorkloadStandbyPromoted | WorkloadSecretRotated
  | WorkloadRestartRequested | WorkloadDeleted | WorkloadScaled | WorkloadRolloutStarted
  | WorkloadRolloutCompleted | WorkloadRolloutFailed | WorkloadDriftDetected
  | WorkloadDriftReconciled | EventStored | EventReplayed | HealthCheckPassed
  | HealthCheckFailed | HealthGateBlocked | HealthGatePassed

text \<open>
  The values the code puts into \<open>map[string]any\<close>. \<open>ASpecPtr a\<close> is the pointer
  \<open>&w.Spec\<close> into the workload at address \<open>a\<close>, not a copy; \<open>AReportPtr n\<close> is the pointer
  to the \<open>n\<close>-th drift report (theory \<open>Drift\<close>).
\<close>

datatype any =
    AStr string
  | AInt int
  | AI32 int32
  | AErr error
  | AText gotext
  | ASpec WorkloadSpec
  | ASpecPtr addr
  | ALabels strmap
  | AFields "DriftedField list"
  | AReportPtr nat
  | AHealth HealthGateStatus
  | ACheck HealthCheckResult

type_synonym metadata = "(string \<times> any) list"

record Event =
  ev_Type :: EventType
  ev_Workload :: "addr option"
  ev_Timestamp :: int
  ev_Metadata :: metadata

record DomainEvent =
  de_ID :: string
  de_Aggregate :: string
  de_AggregateType :: string
  de_Type :: string
  de_Version :: int
  de_Timestamp :: gotime
  de_Data :: metadata
  de_Metadata :: "(string \<times> string) list"

lemmas zero_defs = zero_tags_def zero_resources_def zero_strategy_def zero_spec_def
  zero_status_def zero_workload_def zero_rollback_status_def zero_standby_status_def
  zero_secret_status_def

end
