(* ===== verification/CircuitBreaker.thy ===== *)
theory CircuitBreaker
  imports Types
begin

text \<open>
  \<open>internal/circuitbreaker/engine.go\<close>: the per-workload circuit breaker. The engine's
  state lives on the workload (\<open>Status.CircuitBreaker\<close>), so every method is a function
  on the workload; \<open>SyncFromWorkload\<close> mutates it through the pointer and returns the
  old and the new circuit state, here a triple.

  The abstract view is the three-state machine of \<open>circuit_step\<close>. The lemmas show that
  the engine only ever takes its transitions, how many observations each one needs, that
  an open circuit blocks routing until its deadline, and how the half-open probe budget
  behaves.
\<close>

section \<open>Engine\<close>

record CircuitConfig =
  ccf_Enabled :: bool
  ccf_DefaultFailureThreshold :: int32
  ccf_DefaultSuccessThreshold :: int32
  ccf_DefaultOpenDurationSeconds :: int32
  ccf_DefaultHalfOpenMaxRequests :: int32

definition positive_or :: "int32 \<Rightarrow> int32 \<Rightarrow> int32" where
  "positive_or x d = (if sint x \<le> 0 then d else x)"

definition circuit_New :: "CircuitConfig \<Rightarrow> CircuitConfig" where
  "circuit_New cfg = cfg\<lparr>
     ccf_DefaultFailureThreshold := positive_or (ccf_DefaultFailureThreshold cfg) 3,
     ccf_DefaultSuccessThreshold := positive_or (ccf_DefaultSuccessThreshold cfg) 2,
     ccf_DefaultOpenDurationSeconds := positive_or (ccf_DefaultOpenDurationSeconds cfg) 60,
     ccf_DefaultHalfOpenMaxRequests := positive_or (ccf_DefaultHalfOpenMaxRequests cfg) 1\<rparr>"

definition circuit_EnabledFor :: "CircuitConfig \<Rightarrow> Workload option \<Rightarrow> bool" where
  "circuit_EnabledFor e wo = (case wo of
     None \<Rightarrow> False
   | Some w \<Rightarrow>
       (case sp_CircuitBreaker (wl_Spec w) of
          Some s \<Rightarrow> if cb_Enabled s then True else ccf_Enabled e
        | None \<Rightarrow> ccf_Enabled e))"

record effectiveCircuitSpec =
  es_FailureThreshold :: int32
  es_SuccessThreshold :: int32
  es_OpenDurationSeconds :: int32
  es_HalfOpenMaxRequests :: int32
  es_TripOnDegraded :: "bool option"

definition effectiveSpec :: "Workload \<Rightarrow> CircuitConfig \<Rightarrow> effectiveCircuitSpec" where
  "effectiveSpec w cfg =
     (let es = \<lparr>es_FailureThreshold = ccf_DefaultFailureThreshold cfg,
                es_SuccessThreshold = ccf_DefaultSuccessThreshold cfg,
                es_OpenDurationSeconds = ccf_DefaultOpenDurationSeconds cfg,
                es_HalfOpenMaxRequests = ccf_DefaultHalfOpenMaxRequests cfg,
                es_TripOnDegraded = None\<rparr>
      in case sp_CircuitBreaker (wl_Spec w) of
           None \<Rightarrow> es
         | Some s \<Rightarrow> es\<lparr>
             es_FailureThreshold := positive_or (cb_FailureThreshold s) (es_FailureThreshold es),
             es_SuccessThreshold := positive_or (cb_SuccessThreshold s) (es_SuccessThreshold es),
             es_OpenDurationSeconds := positive_or (cb_OpenDurationSeconds s) (es_OpenDurationSeconds es),
             es_HalfOpenMaxRequests := positive_or (cb_HalfOpenMaxRequests s) (es_HalfOpenMaxRequests es),
             es_TripOnDegraded := cb_TripOnDegraded s\<rparr>)"

definition transition :: "CircuitBreakerStatus \<Rightarrow> string \<Rightarrow> gotime \<Rightarrow> string \<Rightarrow> CircuitBreakerStatus" where
  "transition st state now msg =
     st\<lparr>cbs_State := state, cbs_LastTransition := now, cbs_Message := msg\<rparr>"

definition new_circuit_status :: "gotime \<Rightarrow> CircuitBreakerStatus" where
  "new_circuit_status now = \<lparr>cbs_State = CircuitStateClosed, cbs_ConsecutiveFails = 0,
     cbs_ConsecutiveOK = 0, cbs_HalfOpenAttempts = 0, cbs_LastTransition = now,
     cbs_OpenUntil = None, cbs_Message = []\<rparr>"

definition set_circuit :: "CircuitBreakerStatus \<Rightarrow> Workload \<Rightarrow> Workload" where
  "set_circuit st w = w\<lparr>wl_Status := (wl_Status w)\<lparr>st_CircuitBreaker := Some st\<rparr>\<rparr>"

definition trip_degraded :: "effectiveCircuitSpec \<Rightarrow> bool" where
  "trip_degraded spec = (case es_TripOnDegraded spec of None \<Rightarrow> True | Some b \<Rightarrow> b)"

definition circuit_unhealthy :: "effectiveCircuitSpec \<Rightarrow> WorkloadPhase \<Rightarrow> bool" where
  "circuit_unhealthy spec ph =
     (ph = WorkloadPhaseFailed \<or> (trip_degraded spec \<and> ph = WorkloadPhaseDegraded))"

definition open_until :: "effectiveCircuitSpec \<Rightarrow> gotime \<Rightarrow> gotime" where
  "open_until spec now = now + sint (es_OpenDurationSeconds spec) * second"

definition sync_cooldown :: "gotime \<Rightarrow> CircuitBreakerStatus \<Rightarrow> CircuitBreakerStatus" where
  "sync_cooldown now st =
     (if cbs_State st = CircuitStateOpen \<and>
         (case cbs_OpenUntil st of None \<Rightarrow> False | Some u \<Rightarrow> \<not> now < u)
      then transition st CircuitStateHalfOpen now ''cooldown elapsed, probing'' else st)"

definition sync_switch ::
  "effectiveCircuitSpec \<Rightarrow> WorkloadStatus \<Rightarrow> gotime \<Rightarrow> CircuitBreakerStatus \<Rightarrow> CircuitBreakerStatus" where
  "sync_switch spec ws now st =
     (if cbs_State st = CircuitStateClosed then
        if circuit_unhealthy spec (st_Phase ws) then
          let st1 = st\<lparr>cbs_ConsecutiveFails := cbs_ConsecutiveFails st + 1, cbs_ConsecutiveOK := 0\<rparr>
          in if sint (cbs_ConsecutiveFails st1) \<ge> sint (es_FailureThreshold spec)
             then transition (st1\<lparr>cbs_OpenUntil := Some (open_until spec now)\<rparr>)
                    CircuitStateOpen now ''failure threshold exceeded''
             else st1
        else if st_Phase ws = WorkloadPhaseRunning then st\<lparr>cbs_ConsecutiveFails := 0\<rparr>
        else st
      else if cbs_State st = CircuitStateOpen then st
      else if cbs_State st = CircuitStateHalfOpen then
        if circuit_unhealthy spec (st_Phase ws) then
          transition (st\<lparr>cbs_ConsecutiveFails := cbs_ConsecutiveFails st + 1, cbs_ConsecutiveOK := 0,
                         cbs_OpenUntil := Some (open_until spec now)\<rparr>)
            CircuitStateOpen now ''probe failed''
        else if st_Phase ws = WorkloadPhaseRunning \<and> sint (st_ReadyReplicas ws) > 0 then
          let st1 = st\<lparr>cbs_ConsecutiveOK := cbs_ConsecutiveOK st + 1\<rparr>
          in if sint (cbs_ConsecutiveOK st1) \<ge> sint (es_SuccessThreshold spec)
             then transition (st1\<lparr>cbs_ConsecutiveFails := 0, cbs_HalfOpenAttempts := 0, cbs_OpenUntil := None\<rparr>)
                    CircuitStateClosed now ''recovered''
             else st1
        else st
      else st)"

definition circuit_of :: "gotime \<Rightarrow> Workload \<Rightarrow> CircuitBreakerStatus" where
  "circuit_of now w = (case st_CircuitBreaker (wl_Status w) of
     None \<Rightarrow> new_circuit_status now | Some st \<Rightarrow> st)"

definition SyncFromWorkload :: "CircuitConfig \<Rightarrow> Workload \<Rightarrow> gotime \<Rightarrow> Workload \<times> string \<times> string" where
  "SyncFromWorkload e w now =
     (if \<not> circuit_EnabledFor e (Some w) then (w, [], [])
      else
        let spec = effectiveSpec w e;
            st = circuit_of now w;
            st' = sync_switch spec (wl_Status w) now (sync_cooldown now st)
        in (set_circuit st' w, cbs_State st, cbs_State st'))"

definition AllowRoute :: "CircuitConfig \<Rightarrow> Workload option \<Rightarrow> gotime \<Rightarrow> Workload option \<times> bool" where
  "AllowRoute e wo now = (case wo of
     None \<Rightarrow> (None, False)
   | Some w \<Rightarrow>
       if \<not> circuit_EnabledFor e (Some w) then (Some w, phase w \<noteq> WorkloadPhaseFailed)
       else
         let w' = fst (SyncFromWorkload e w now)
         in (Some w',
             case st_CircuitBreaker (wl_Status w') of
               None \<Rightarrow> True
             | Some st \<Rightarrow>
                 if cbs_State st = CircuitStateOpen then False
                 else if cbs_State st = CircuitStateHalfOpen then
                   sint (cbs_HalfOpenAttempts st) < sint (es_HalfOpenMaxRequests (effectiveSpec w' e))
                 else if phase w' = WorkloadPhaseFailed then False
                 else if phase w' = WorkloadPhaseDegraded \<and> trip_degraded (effectiveSpec w' e) then False
                 else True))"

definition RecordRouteAttempt :: "Workload \<Rightarrow> Workload" where
  "RecordRouteAttempt w = (case st_CircuitBreaker (wl_Status w) of
     None \<Rightarrow> w
   | Some st \<Rightarrow>
       if cbs_State st = CircuitStateHalfOpen
       then set_circuit (st\<lparr>cbs_HalfOpenAttempts := cbs_HalfOpenAttempts st + 1\<rparr>) w
       else w)"

lemmas circuit_defs = circuit_of_def sync_cooldown_def sync_switch_def transition_def Let_def

section \<open>Frame: only the circuit status changes\<close>

lemma set_circuit_frame [simp, frame_simps]:
  "wl_ID (set_circuit st w) = wl_ID w" "wl_Spec (set_circuit st w) = wl_Spec w"
  "wl_Name (set_circuit st w) = wl_Name w" "wl_Namespace (set_circuit st w) = wl_Namespace w"
  "wl_Labels (set_circuit st w) = wl_Labels w" "wl_Tags (set_circuit st w) = wl_Tags w"
  "wl_Tenant (set_circuit st w) = wl_Tenant w"
  "wl_RollbackVersions (set_circuit st w) = wl_RollbackVersions w"
  "phase (set_circuit st w) = phase w"
  "st_ReadyReplicas (wl_Status (set_circuit st w)) = st_ReadyReplicas (wl_Status w)"
  "st_SecretRotation (wl_Status (set_circuit st w)) = st_SecretRotation (wl_Status w)"
  "st_WarmStandby (wl_Status (set_circuit st w)) = st_WarmStandby (wl_Status w)"
  "st_CircuitBreaker (wl_Status (set_circuit st w)) = Some st"
  by (simp_all add: set_circuit_def)

lemma set_circuit_twice [simp]: "set_circuit s (set_circuit t w) = set_circuit s w"
  by (simp add: set_circuit_def)

lemma effectiveSpec_set_circuit [simp]: "effectiveSpec (set_circuit st w) e = effectiveSpec w e"
  by (simp add: effectiveSpec_def)

lemma EnabledFor_set_circuit [simp]:
  "circuit_EnabledFor e (Some (set_circuit st w)) = circuit_EnabledFor e (Some w)"
  by (simp add: circuit_EnabledFor_def)

lemma SyncFromWorkload_enabled:
  "circuit_EnabledFor e (Some w) \<Longrightarrow>
   fst (SyncFromWorkload e w now) =
     set_circuit (sync_switch (effectiveSpec w e) (wl_Status w) now (sync_cooldown now (circuit_of now w))) w"
  by (simp add: SyncFromWorkload_def Let_def)

lemma SyncFromWorkload_states:
  "circuit_EnabledFor e (Some w) \<Longrightarrow>
   snd (SyncFromWorkload e w now) =
     (cbs_State (circuit_of now w),
      cbs_State (sync_switch (effectiveSpec w e) (wl_Status w) now (sync_cooldown now (circuit_of now w))))"
  by (simp add: SyncFromWorkload_def Let_def)

lemma SyncFromWorkload_frame:
  "\<exists>c. fst (SyncFromWorkload e w now) = w\<lparr>wl_Status := (wl_Status w)\<lparr>st_CircuitBreaker := c\<rparr>\<rparr>"
proof (cases "circuit_EnabledFor e (Some w)")
  case True
  then show ?thesis unfolding SyncFromWorkload_enabled [OF True] set_circuit_def by blast
next
  case False
  then have "fst (SyncFromWorkload e w now) = w\<lparr>wl_Status := (wl_Status w)\<lparr>st_CircuitBreaker := st_CircuitBreaker (wl_Status w)\<rparr>\<rparr>"
    by (simp add: SyncFromWorkload_def)
  then show ?thesis by blast
qed

section \<open>Thresholds are positive\<close>

definition valid_config :: "CircuitConfig \<Rightarrow> bool" where
  "valid_config e = (0 < sint (ccf_DefaultFailureThreshold e) \<and> 0 < sint (ccf_DefaultSuccessThreshold e) \<and>
     0 < sint (ccf_DefaultOpenDurationSeconds e) \<and> 0 < sint (ccf_DefaultHalfOpenMaxRequests e))"

lemma circuit_New_valid [simp]: "valid_config (circuit_New cfg)"
  by (simp add: valid_config_def circuit_New_def positive_or_def)

lemma effectiveSpec_positive:
  assumes "valid_config e"
  shows "0 < sint (es_FailureThreshold (effectiveSpec w e))"
    and "0 < sint (es_SuccessThreshold (effectiveSpec w e))"
    and "0 < sint (es_OpenDurationSeconds (effectiveSpec w e))"
    and "0 < sint (es_HalfOpenMaxRequests (effectiveSpec w e))"
  using assms
  by (auto simp: valid_config_def effectiveSpec_def positive_or_def Let_def split: option.splits)

section \<open>The abstract machine\<close>

text \<open>
  What the breaker promises, on unbounded counters: \<open>Closed n\<close> has seen \<open>n\<close> unhealthy
  observations in a row, \<open>Open u\<close> blocks until \<open>u\<close>, \<open>HalfOpen n\<close> has seen \<open>n\<close>
  successful probes.
\<close>

datatype circuit = Closed int | Open gotime | HalfOpen int

datatype observation = Sick | Ready | Up | Other

definition observe :: "effectiveCircuitSpec \<Rightarrow> WorkloadStatus \<Rightarrow> observation" where
  "observe spec ws =
     (if circuit_unhealthy spec (st_Phase ws) then Sick
      else if st_Phase ws = WorkloadPhaseRunning \<and> sint (st_ReadyReplicas ws) > 0 then Ready
      else if st_Phase ws = WorkloadPhaseRunning then Up
      else Other)"

fun probe :: "int \<Rightarrow> int \<Rightarrow> gotime \<Rightarrow> observation \<Rightarrow> int \<Rightarrow> circuit" where
  "probe S d now Sick n = Open (now + d)"
| "probe S d now Ready n = (if S \<le> n + 1 then Closed 0 else HalfOpen (n + 1))"
| "probe S d now _ n = HalfOpen n"

fun machine :: "int \<Rightarrow> int \<Rightarrow> int \<Rightarrow> gotime \<Rightarrow> observation \<Rightarrow> circuit \<Rightarrow> circuit" where
  "machine F S d now Sick (Closed n) = (if F \<le> n + 1 then Open (now + d) else Closed (n + 1))"
| "machine F S d now Ready (Closed n) = Closed 0"
| "machine F S d now Up (Closed n) = Closed 0"
| "machine F S d now Other (Closed n) = Closed n"
| "machine F S d now ob (Open u) = (if now < u then Open u else probe S d now ob 0)"
| "machine F S d now ob (HalfOpen n) = probe S d now ob n"

definition circuit_abs :: "CircuitBreakerStatus \<Rightarrow> circuit" where
  "circuit_abs st =
     (if cbs_State st = CircuitStateOpen then Open (case cbs_OpenUntil st of None \<Rightarrow> 0 | Some u \<Rightarrow> u)
      else if cbs_State st = CircuitStateHalfOpen then HalfOpen (sint (cbs_ConsecutiveOK st))
      else Closed (sint (cbs_ConsecutiveFails st)))"

definition circuit_inv :: "CircuitBreakerStatus \<Rightarrow> bool" where
  "circuit_inv st =
     (cbs_State st \<in> {CircuitStateClosed, CircuitStateOpen, CircuitStateHalfOpen} \<and>
      (cbs_State st = CircuitStateClosed \<longrightarrow>
         0 \<le> sint (cbs_ConsecutiveFails st) \<and> sint (cbs_ConsecutiveFails st) < 2 ^ 31 - 1) \<and>
      (cbs_State st = CircuitStateOpen \<longrightarrow> cbs_OpenUntil st \<noteq> None \<and> cbs_ConsecutiveOK st = 0) \<and>
      (cbs_State st = CircuitStateHalfOpen \<longrightarrow>
         0 \<le> sint (cbs_ConsecutiveOK st) \<and> sint (cbs_ConsecutiveOK st) < 2 ^ 31 - 1))"

lemma circuit_inv_cases:
  assumes "circuit_inv st"
  obtains
    (closed) "cbs_State st = CircuitStateClosed" "0 \<le> sint (cbs_ConsecutiveFails st)"
      "sint (cbs_ConsecutiveFails st + 1) = sint (cbs_ConsecutiveFails st) + 1"
  | (opened) u where "cbs_State st = CircuitStateOpen" "cbs_OpenUntil st = Some u" "cbs_ConsecutiveOK st = 0"
  | (half) "cbs_State st = CircuitStateHalfOpen" "0 \<le> sint (cbs_ConsecutiveOK st)"
      "sint (cbs_ConsecutiveOK st + 1) = sint (cbs_ConsecutiveOK st) + 1"
proof -
  consider "cbs_State st = CircuitStateClosed" | "cbs_State st = CircuitStateOpen"
    | "cbs_State st = CircuitStateHalfOpen"
    using assms by (auto simp: circuit_inv_def)
  then show thesis
  proof cases
    case 1
    then show thesis using assms sint32_inc [of "cbs_ConsecutiveFails st"]
      by (intro closed) (auto simp: circuit_inv_def)
  next
    case 2
    then show thesis using assms by (auto simp: circuit_inv_def intro: opened)
  next
    case 3
    then show thesis using assms sint32_inc [of "cbs_ConsecutiveOK st"]
      by (intro half) (auto simp: circuit_inv_def)
  qed
qed

lemma new_circuit_inv [simp]: "circuit_inv (new_circuit_status now)"
  by (simp add: circuit_inv_def new_circuit_status_def)

lemma sync_cooldown_inv [inv_intros]: "circuit_inv st \<Longrightarrow> circuit_inv (sync_cooldown now st)"
  by (auto simp: circuit_inv_def sync_cooldown_def transition_def)

lemma sync_switch_inv [inv_intros]:
  assumes "circuit_inv st"
  shows "circuit_inv (sync_switch spec ws now st)"
  using assms
proof (cases rule: circuit_inv_cases)
  case closed
  then show ?thesis using assms sint32_bounds(2) [of "es_FailureThreshold spec"]
    by (auto simp: circuit_inv_def circuit_defs)
next
  case (opened u)
  then show ?thesis using assms by (simp add: sync_switch_def)
next
  case half
  then show ?thesis using assms sint32_bounds(2) [of "es_SuccessThreshold spec"]
    by (auto simp: circuit_inv_def circuit_defs)
qed

text \<open>The functional refinement: one synchronisation is one step of the machine.\<close>

lemma sync_refines_machine:
  assumes "circuit_inv st"
  shows "circuit_abs (sync_switch spec ws now (sync_cooldown now st)) =
    machine (sint (es_FailureThreshold spec)) (sint (es_SuccessThreshold spec))
      (sint (es_OpenDurationSeconds spec) * second) now (observe spec ws) (circuit_abs st)"
  using assms
proof (cases rule: circuit_inv_cases)
  case closed
  then show ?thesis
    by (auto simp: circuit_defs circuit_abs_def observe_def open_until_def)
next
  case (opened u)
  then show ?thesis
    by (auto simp: circuit_defs circuit_abs_def observe_def open_until_def)
next
  case half
  then show ?thesis
    by (auto simp: circuit_defs circuit_abs_def observe_def open_until_def)
qed

section \<open>Runs of observations\<close>

text \<open>
  Between two synchronisations the runtime reports a new phase and ready count; a run
  feeds the engine a list of such reports.
\<close>

definition report :: "WorkloadPhase \<Rightarrow> int32 \<Rightarrow> Workload \<Rightarrow> Workload" where
  "report ph rdy w = w\<lparr>wl_Status := (wl_Status w)\<lparr>st_Phase := ph, st_ReadyReplicas := rdy\<rparr>\<rparr>"

fun circuit_run :: "CircuitConfig \<Rightarrow> Workload \<Rightarrow> (WorkloadPhase \<times> int32 \<times> gotime) list \<Rightarrow> Workload" where
  "circuit_run e w [] = w"
| "circuit_run e w ((ph, rdy, t) # os) = circuit_run e (fst (SyncFromWorkload e (report ph rdy w) t)) os"

definition circuit_view :: "Workload \<Rightarrow> circuit" where
  "circuit_view w = circuit_abs (circuit_of 0 w)"

definition workload_circuit_inv :: "Workload \<Rightarrow> bool" where
  "workload_circuit_inv w = (case st_CircuitBreaker (wl_Status w) of None \<Rightarrow> True | Some st \<Rightarrow> circuit_inv st)"

lemma report_frame [simp, frame_simps]:
  "wl_ID (report ph rdy w) = wl_ID w" "wl_Spec (report ph rdy w) = wl_Spec w"
  "phase (report ph rdy w) = ph" "st_ReadyReplicas (wl_Status (report ph rdy w)) = rdy"
  "st_CircuitBreaker (wl_Status (report ph rdy w)) = st_CircuitBreaker (wl_Status w)"
  by (simp_all add: report_def)

lemma effectiveSpec_report [simp]: "effectiveSpec (report ph rdy w) e = effectiveSpec w e"
  by (simp add: effectiveSpec_def)

lemma EnabledFor_report [simp]:
  "circuit_EnabledFor e (Some (report ph rdy w)) = circuit_EnabledFor e (Some w)"
  by (simp add: circuit_EnabledFor_def)

lemma circuit_view_set [simp]: "circuit_view (set_circuit st w) = circuit_abs st"
  by (simp add: circuit_view_def circuit_of_def)

lemma circuit_abs_of: "circuit_abs (circuit_of now w) = circuit_view w"
  by (simp add: circuit_view_def circuit_of_def circuit_abs_def new_circuit_status_def split: option.splits)

lemma circuit_inv_of: "workload_circuit_inv w \<Longrightarrow> circuit_inv (circuit_of now w)"
  by (simp add: workload_circuit_inv_def circuit_of_def split: option.splits)

lemma SyncFromWorkload_inv [inv_intros]:
  assumes "workload_circuit_inv w"
  shows "workload_circuit_inv (fst (SyncFromWorkload e w now))"
proof (cases "circuit_EnabledFor e (Some w)")
  case True
  have "circuit_inv (sync_switch (effectiveSpec w e) (wl_Status w) now (sync_cooldown now (circuit_of now w)))"
    using assms by (intro inv_intros circuit_inv_of)
  then show ?thesis by (simp add: SyncFromWorkload_enabled [OF True] workload_circuit_inv_def)
next
  case False
  then show ?thesis using assms by (simp add: SyncFromWorkload_def)
qed

lemma circuit_run_frame [simp]:
  "wl_Spec (circuit_run e w os) = wl_Spec w"
proof (induction os arbitrary: w)
  case (Cons o1 os)
  obtain ph rdy t where [simp]: "o1 = (ph, rdy, t)" by (cases o1)
  obtain c where c: "fst (SyncFromWorkload e (report ph rdy w) t) =
      (report ph rdy w)\<lparr>wl_Status := (wl_Status (report ph rdy w))\<lparr>st_CircuitBreaker := c\<rparr>\<rparr>"
    using SyncFromWorkload_frame by blast
  show ?case using Cons.IH [of "fst (SyncFromWorkload e (report ph rdy w) t)"] by (simp add: c)
qed simp

lemma effectiveSpec_circuit_run [simp]: "effectiveSpec (circuit_run e w os) e' = effectiveSpec w e'"
  by (simp add: effectiveSpec_def)

lemma EnabledFor_circuit_run [simp]:
  "circuit_EnabledFor e' (Some (circuit_run e w os)) = circuit_EnabledFor e' (Some w)"
  by (simp add: circuit_EnabledFor_def)

lemma circuit_run_snoc:
  "circuit_run e w (os @ [(ph, rdy, t)]) =
   fst (SyncFromWorkload e (report ph rdy (circuit_run e w os)) t)"
  by (induction e w os rule: circuit_run.induct) auto

lemma circuit_run_inv: "workload_circuit_inv w \<Longrightarrow> workload_circuit_inv (circuit_run e w os)"
proof (induction os arbitrary: w)
  case (Cons o1 os)
  obtain ph rdy t where [simp]: "o1 = (ph, rdy, t)" by (cases o1)
  have "workload_circuit_inv (report ph rdy w)"
    using Cons.prems by (simp add: workload_circuit_inv_def)
  then show ?case by (simp add: Cons.IH SyncFromWorkload_inv)
qed simp

lemma sync_view:
  assumes "circuit_EnabledFor e (Some w)" "workload_circuit_inv w"
  shows "circuit_view (fst (SyncFromWorkload e w now)) =
    machine (sint (es_FailureThreshold (effectiveSpec w e))) (sint (es_SuccessThreshold (effectiveSpec w e)))
      (sint (es_OpenDurationSeconds (effectiveSpec w e)) * second) now
      (observe (effectiveSpec w e) (wl_Status w)) (circuit_view w)"
  using sync_refines_machine [OF circuit_inv_of [OF assms(2)]]
  by (simp add: SyncFromWorkload_enabled [OF assms(1)] circuit_abs_of)

section \<open>Properties\<close>

fun machine_run :: "CircuitConfig \<Rightarrow> Workload \<Rightarrow> circuit \<Rightarrow> (WorkloadPhase \<times> int32 \<times> gotime) list \<Rightarrow> circuit" where
  "machine_run e w c [] = c"
| "machine_run e w c ((ph, rdy, t) # os) = (let spec = effectiveSpec w e in
     machine_run e w
       (machine (sint (es_FailureThreshold spec)) (sint (es_SuccessThreshold spec))
          (sint (es_OpenDurationSeconds spec) * second) t (observe spec (wl_Status (report ph rdy w))) c) os)"

lemma observe_report: "observe spec (wl_Status (report ph rdy w)) = observe spec (wl_Status (report ph rdy w'))"
  by (simp add: observe_def)

lemma machine_run_cong:
  "wl_Spec w = wl_Spec w' \<Longrightarrow> machine_run e w c os = machine_run e w' c os"
proof (induction os arbitrary: c)
  case (Cons o1 os)
  obtain ph rdy t where [simp]: "o1 = (ph, rdy, t)" by (cases o1)
  have "effectiveSpec w e = effectiveSpec w' e"
    using Cons.prems by (simp add: effectiveSpec_def)
  then show ?case
    using Cons.IH [OF Cons.prems] observe_report [of _ ph rdy w w'] by (simp add: Let_def)
qed simp

lemma circuit_run_view:
  assumes "circuit_EnabledFor e (Some w)" "workload_circuit_inv w"
  shows "circuit_view (circuit_run e w os) = machine_run e w (circuit_view w) os"
  using assms
proof (induction os arbitrary: w)
  case (Cons o1 os)
  obtain ph rdy t where [simp]: "o1 = (ph, rdy, t)" by (cases o1)
  let ?r = "report ph rdy w"
  let ?w = "fst (SyncFromWorkload e ?r t)"
  have en: "circuit_EnabledFor e (Some ?r)" using Cons.prems(1) by simp
  have inv: "workload_circuit_inv ?r" using Cons.prems(2) by (simp add: workload_circuit_inv_def)
  have sp: "wl_Spec ?w = wl_Spec w" using SyncFromWorkload_enabled [OF en] by simp
  have "circuit_EnabledFor e (Some ?w)" using Cons.prems(1) sp by (simp add: circuit_EnabledFor_def)
  moreover have "workload_circuit_inv ?w" using inv by (rule SyncFromWorkload_inv)
  ultimately have "circuit_view (circuit_run e ?w os) = machine_run e ?w (circuit_view ?w) os"
    by (rule Cons.IH)
  also have "\<dots> = machine_run e w (circuit_view ?w) os" using sp by (rule machine_run_cong)
  also have "\<dots> = machine_run e w (circuit_view w) (o1 # os)"
    using sync_view [OF en inv, of t] by (simp add: Let_def circuit_view_def circuit_of_def)
  finally show ?case by simp
qed simp

lemma machine_run_sick:
  assumes "list_all (\<lambda>(ph, rdy, t). ph = WorkloadPhaseFailed) os"
    and "n + int (length os) < sint (es_FailureThreshold (effectiveSpec w e))"
  shows "machine_run e w (Closed n) os = Closed (n + int (length os))"
  using assms
proof (induction os arbitrary: n)
  case (Cons o1 os)
  obtain ph rdy t where [simp]: "o1 = (ph, rdy, t)" by (cases o1)
  have "observe (effectiveSpec w e) (wl_Status (report ph rdy w)) = Sick"
    using Cons.prems(1) by (simp add: observe_def circuit_unhealthy_def)
  moreover have "n + 1 < sint (es_FailureThreshold (effectiveSpec w e))"
    using Cons.prems(2) by simp
  ultimately show ?case using Cons.IH [of "n + 1"] Cons.prems by (simp add: Let_def algebra_simps)
qed simp

lemma machine_run_ready:
  assumes "list_all (\<lambda>(ph, rdy, t). ph = WorkloadPhaseRunning \<and> sint rdy > 0) os"
    and "n + int (length os) < sint (es_SuccessThreshold (effectiveSpec w e))"
  shows "machine_run e w (HalfOpen n) os = HalfOpen (n + int (length os))"
  using assms
proof (induction os arbitrary: n)
  case (Cons o1 os)
  obtain ph rdy t where [simp]: "o1 = (ph, rdy, t)" by (cases o1)
  have "observe (effectiveSpec w e) (wl_Status (report ph rdy w)) = Ready"
    using Cons.prems(1) by (simp add: observe_def circuit_unhealthy_def)
  moreover have "n + 1 < sint (es_SuccessThreshold (effectiveSpec w e))"
    using Cons.prems(2) by simp
  ultimately show ?case using Cons.IH [of "n + 1"] Cons.prems by (simp add: Let_def algebra_simps)
qed simp

lemma machine_run_append:
  "machine_run e w c (os @ os') = machine_run e w (machine_run e w c os) os'"
  by (induction e w c os rule: machine_run.induct) (simp_all add: Let_def)

text \<open>The circuit-breaker section of \<open>config/local.yaml\<close>, for the examples.\<close>

definition local_circuit_config :: CircuitConfig where
  "local_circuit_config = circuit_New \<lparr>ccf_Enabled = True, ccf_DefaultFailureThreshold = 3,
     ccf_DefaultSuccessThreshold = 2, ccf_DefaultOpenDurationSeconds = 60,
     ccf_DefaultHalfOpenMaxRequests = 1\<rparr>"

lemma local_circuit_config_enabled [simp]: "circuit_EnabledFor local_circuit_config (Some w)"
  by (simp add: circuit_EnabledFor_def local_circuit_config_def circuit_New_def split: option.splits)

lemma local_circuit_config_spec:
  "sp_CircuitBreaker (wl_Spec w) = None \<Longrightarrow>
   effectiveSpec w local_circuit_config = \<lparr>es_FailureThreshold = 3, es_SuccessThreshold = 2,
     es_OpenDurationSeconds = 60, es_HalfOpenMaxRequests = 1, es_TripOnDegraded = None\<rparr>"
  by (simp add: effectiveSpec_def local_circuit_config_def circuit_New_def positive_or_def)

lemma zero_workload_circuit [simp]:
  "st_CircuitBreaker (wl_Status zero_workload) = None" "sp_CircuitBreaker (wl_Spec zero_workload) = None"
  "workload_circuit_inv zero_workload"
  by (simp_all add: zero_defs workload_circuit_inv_def)

text \<open>
  C6. Every history of phase reports drives the engine exactly as the abstract
  closed / open / half-open machine on unbounded counters: from any well-formed circuit
  status the view of the run equals the machine's run (the 32-bit counters never wrap).
\<close>

theorem circuit_run_refines_machine:
  assumes "circuit_EnabledFor e (Some w)" "workload_circuit_inv w"
  shows "circuit_view (circuit_run e w os) = machine_run e w (circuit_view w) os
    \<and> workload_circuit_inv (circuit_run e w os)"
  using circuit_run_view [OF assms] circuit_run_inv [OF assms(2)] by blast

theorem circuit_run_refines_machine_witness:
  "circuit_EnabledFor local_circuit_config (Some zero_workload) \<and> workload_circuit_inv zero_workload \<and>
   circuit_view (circuit_run local_circuit_config zero_workload [(WorkloadPhaseFailed, 0, 10)]) =
     machine_run local_circuit_config zero_workload (circuit_view zero_workload) [(WorkloadPhaseFailed, 0, 10)]"
  using circuit_run_refines_machine [of local_circuit_config zero_workload "[(WorkloadPhaseFailed, 0, 10)]"]
  by simp

text \<open>
  A workload with no circuit status that is reported failed again and again trips
  exactly at its failure threshold: closed with the failures counted before it, open
  until the last report plus the open duration at it.
\<close>

theorem circuit_trips_exactly_at_threshold:
  assumes "circuit_EnabledFor e (Some w)" "st_CircuitBreaker (wl_Status w) = None"
    and "list_all (\<lambda>(ph, rdy, t). ph = WorkloadPhaseFailed) os"
    and "int (length os) + 1 = sint (es_FailureThreshold (effectiveSpec w e))"
  shows "circuit_view (circuit_run e w os) = Closed (int (length os)) \<and>
    circuit_view (circuit_run e w (os @ [(WorkloadPhaseFailed, rdy, t)])) =
      Open (t + sint (es_OpenDurationSeconds (effectiveSpec w e)) * second)"
proof -
  have v: "circuit_view w = Closed 0"
    using assms(2) by (simp add: circuit_view_def circuit_of_def circuit_abs_def new_circuit_status_def)
  have inv: "workload_circuit_inv w" using assms(2) by (simp add: workload_circuit_inv_def)
  note ref = circuit_run_view [OF assms(1) inv, unfolded v]
  have "machine_run e w (Closed 0) os = Closed (int (length os))"
    using machine_run_sick [OF assms(3), of 0] assms(4) by simp
  then show ?thesis
    using assms(4) by (simp add: ref machine_run_append Let_def observe_def circuit_unhealthy_def)
qed

theorem circuit_trips_exactly_at_threshold_witness:
  "circuit_view (circuit_run local_circuit_config zero_workload
     [(WorkloadPhaseFailed, 0, 10), (WorkloadPhaseFailed, 0, 20), (WorkloadPhaseFailed, 0, 30)])
   = Open (30 + 60 * second)"
  using circuit_trips_exactly_at_threshold
    [of local_circuit_config zero_workload "[(WorkloadPhaseFailed, 0, 10), (WorkloadPhaseFailed, 0, 20)]" 0 30]
  by (simp add: local_circuit_config_spec)

text \<open>
  Recovery: a half-open circuit closes after exactly the configured number of
  successful probes (running with a ready replica), with the failure counter, the probe
  budget and the deadline reset.
\<close>

theorem circuit_recovers_after_success_threshold:
  assumes "circuit_EnabledFor e (Some w)" "st_CircuitBreaker (wl_Status w) = Some st" "circuit_inv st"
    and "cbs_State st = CircuitStateHalfOpen" "cbs_ConsecutiveOK st = 0"
    and "list_all (\<lambda>(ph, rdy, t). ph = WorkloadPhaseRunning \<and> sint rdy > 0) os" "sint rdy > 0"
    and "int (length os) + 1 = sint (es_SuccessThreshold (effectiveSpec w e))"
  shows "circuit_view (circuit_run e w os) = HalfOpen (int (length os)) \<and>
    (\<exists>st'. st_CircuitBreaker (wl_Status (circuit_run e w (os @ [(WorkloadPhaseRunning, rdy, t)]))) = Some st' \<and>
       cbs_State st' = CircuitStateClosed \<and> cbs_ConsecutiveFails st' = 0 \<and>
       cbs_HalfOpenAttempts st' = 0 \<and> cbs_OpenUntil st' = None)"
proof -
  have v: "circuit_view w = HalfOpen 0"
    using assms(2,4,5) by (simp add: circuit_view_def circuit_of_def circuit_abs_def)
  have inv: "workload_circuit_inv w" using assms(2,3) by (simp add: workload_circuit_inv_def)
  let ?v = "circuit_run e w os"
  have "machine_run e w (HalfOpen 0) os = HalfOpen (int (length os))"
    using machine_run_ready [OF assms(6), of 0] assms(8) by simp
  then have half: "circuit_view ?v = HalfOpen (int (length os))"
    using circuit_run_view [OF assms(1) inv, of os] v by simp
  then obtain s where s: "st_CircuitBreaker (wl_Status ?v) = Some s" "cbs_State s = CircuitStateHalfOpen"
      "sint (cbs_ConsecutiveOK s) = int (length os)"
    by (auto simp: circuit_view_def circuit_of_def circuit_abs_def new_circuit_status_def
        split: option.splits if_splits)
  have sinv: "circuit_inv s" using circuit_run_inv [OF inv, of e os] s(1) by (simp add: workload_circuit_inv_def)
  have ok: "sint (cbs_ConsecutiveOK s + 1) = int (length os) + 1"
    using sinv s by (cases rule: circuit_inv_cases) auto
  have en: "circuit_EnabledFor e (Some (report WorkloadPhaseRunning rdy ?v))"
    using assms(1) by simp
  have "st_CircuitBreaker (wl_Status (circuit_run e w (os @ [(WorkloadPhaseRunning, rdy, t)]))) =
      Some (sync_switch (effectiveSpec w e) (wl_Status (report WorkloadPhaseRunning rdy ?v)) t s)"
    using s by (simp add: circuit_run_snoc SyncFromWorkload_enabled [OF en] circuit_of_def sync_cooldown_def)
  then show ?thesis
    using half s(2) ok assms(7,8) by (simp add: sync_switch_def circuit_unhealthy_def transition_def)
qed

theorem circuit_recovers_after_success_threshold_witness:
  "let st = (new_circuit_status 0)\<lparr>cbs_State := CircuitStateHalfOpen, cbs_OpenUntil := Some 5\<rparr>;
       w = set_circuit st zero_workload
   in circuit_view (circuit_run local_circuit_config w [(WorkloadPhaseRunning, 1, 10)]) = HalfOpen 1"
proof -
  let ?st = "(new_circuit_status 0)\<lparr>cbs_State := CircuitStateHalfOpen, cbs_OpenUntil := Some 5\<rparr>"
  have "circuit_inv ?st" "cbs_ConsecutiveOK ?st = 0"
    by (simp_all add: circuit_inv_def new_circuit_status_def)
  then show ?thesis
    using circuit_recovers_after_success_threshold
      [of local_circuit_config "set_circuit ?st zero_workload" ?st "[(WorkloadPhaseRunning, 1, 10)]" 1 20]
    by (simp add: Let_def local_circuit_config_spec)
qed

lemma circuit_run_status:
  assumes "circuit_EnabledFor e (Some w)" "st_CircuitBreaker (wl_Status w) = Some st" "P st"
    and step: "\<And>ws t s. P s \<Longrightarrow> (st_Phase ws, st_ReadyReplicas ws, t) \<in> set os \<Longrightarrow>
                 P (sync_switch (effectiveSpec w e) ws t (sync_cooldown t s))"
  shows "\<exists>st'. st_CircuitBreaker (wl_Status (circuit_run e w os)) = Some st' \<and> P st'"
  using assms(4)
proof (induction os rule: rev_induct)
  case Nil
  then show ?case using assms(2,3) by simp
next
  case (snoc o1 os)
  obtain ph rdy t where o1: "o1 = (ph, rdy, t)" by (cases o1)
  have "\<exists>s. st_CircuitBreaker (wl_Status (circuit_run e w os)) = Some s \<and> P s"
    by (rule snoc.IH) (use snoc.prems in auto)
  then obtain s where s: "st_CircuitBreaker (wl_Status (circuit_run e w os)) = Some s" "P s" by blast
  let ?r = "report ph rdy (circuit_run e w os)"
  have en: "circuit_EnabledFor e (Some ?r)" using assms(1) by simp
  have "P (sync_switch (effectiveSpec w e) (wl_Status ?r) t (sync_cooldown t s))"
    using s(2) by (rule snoc.prems) (simp add: o1)
  then show ?case
    using s(1) by (simp add: o1 circuit_run_snoc SyncFromWorkload_enabled [OF en] circuit_of_def)
qed

lemma AllowRoute_enabled:
  fixes now :: gotime
  assumes "circuit_EnabledFor e (Some w)" "st_CircuitBreaker (wl_Status w) = Some st"
  defines "s \<equiv> sync_switch (effectiveSpec w e) (wl_Status w) now (sync_cooldown now st)"
  shows "AllowRoute e (Some w) now = (Some (set_circuit s w),
     if cbs_State s = CircuitStateOpen then False
     else if cbs_State s = CircuitStateHalfOpen then
       sint (cbs_HalfOpenAttempts s) < sint (es_HalfOpenMaxRequests (effectiveSpec w e))
     else phase w \<noteq> WorkloadPhaseFailed \<and>
          \<not> (phase w = WorkloadPhaseDegraded \<and> trip_degraded (effectiveSpec w e)))"
  using assms by (simp add: AllowRoute_def SyncFromWorkload_enabled circuit_of_def Let_def)

lemma sync_before_deadline:
  "cbs_State st = CircuitStateOpen \<Longrightarrow> cbs_OpenUntil st = Some u \<Longrightarrow> t < u \<Longrightarrow>
   sync_switch spec ws t (sync_cooldown t st) = st"
  by (simp add: sync_cooldown_def sync_switch_def)

text \<open>
  An open circuit blocks routing for its whole open window: whatever phases are
  reported before the deadline, no route is allowed and the circuit status is unchanged.
\<close>

theorem open_circuit_blocks_until_deadline:
  assumes "circuit_EnabledFor e (Some w)" "st_CircuitBreaker (wl_Status w) = Some st"
    and "cbs_State st = CircuitStateOpen" "cbs_OpenUntil st = Some u"
    and "list_all (\<lambda>(ph, rdy, t). t < u) os" "now < u"
  shows "st_CircuitBreaker (wl_Status (circuit_run e w os)) = Some st \<and>
    \<not> snd (AllowRoute e (Some (circuit_run e w os)) now)"
proof -
  have "\<exists>st'. st_CircuitBreaker (wl_Status (circuit_run e w os)) = Some st' \<and> st' = st"
  proof (rule circuit_run_status [OF assms(1,2)])
    fix ws :: WorkloadStatus and t s
    assume "s = st" "(st_Phase ws, st_ReadyReplicas ws, t) \<in> set os"
    moreover from this have "t < u" using assms(5) by (auto simp: list_all_iff)
    ultimately show "sync_switch (effectiveSpec w e) ws t (sync_cooldown t s) = st"
      using assms(3,4) by (simp add: sync_before_deadline)
  qed simp
  then have run: "st_CircuitBreaker (wl_Status (circuit_run e w os)) = Some st" by simp
  then show ?thesis
    using AllowRoute_enabled [OF _ run, of e now] assms
    by (simp add: sync_before_deadline)
qed

definition tripped_workload :: "gotime \<Rightarrow> Workload" where
  "tripped_workload u = set_circuit
     ((new_circuit_status 0)\<lparr>cbs_State := CircuitStateOpen, cbs_ConsecutiveFails := 3, cbs_OpenUntil := Some u\<rparr>)
     zero_workload"

theorem open_circuit_blocks_until_deadline_witness:
  "\<not> snd (AllowRoute local_circuit_config
       (Some (circuit_run local_circuit_config (tripped_workload 100) [(WorkloadPhaseRunning, 1, 50)])) 99)"
  using open_circuit_blocks_until_deadline
    [of local_circuit_config "tripped_workload 100"
        "(new_circuit_status 0)\<lparr>cbs_State := CircuitStateOpen, cbs_ConsecutiveFails := 3, cbs_OpenUntil := Some 100\<rparr>"
        100 "[(WorkloadPhaseRunning, 1, 50)]" 99]
  by (simp add: tripped_workload_def)

definition probing_spent :: "int32 \<Rightarrow> CircuitBreakerStatus \<Rightarrow> bool" where
  "probing_spent m st = (cbs_State st \<in> {CircuitStateOpen, CircuitStateHalfOpen} \<and>
     sint m \<le> sint (cbs_HalfOpenAttempts st))"

lemma sync_keeps_probing_spent:
  "probing_spent m st \<Longrightarrow> st_Phase ws \<noteq> WorkloadPhaseRunning \<Longrightarrow>
   probing_spent m (sync_switch spec ws t (sync_cooldown t st))"
  by (auto simp: probing_spent_def circuit_defs)

text \<open>
  The half-open probe budget is refilled by recovery only: once the attempts reach
  the limit, no route is allowed again at any time, through any number of re-openings
  and elapsed cooldowns, as long as the runtime never reports the workload running.
  (A workload that is pending and needs a route to start stays blocked for ever.)
\<close>

theorem spent_probe_budget_is_never_refilled:
  assumes "circuit_EnabledFor e (Some w)" "st_CircuitBreaker (wl_Status w) = Some st"
    and "probing_spent (es_HalfOpenMaxRequests (effectiveSpec w e)) st"
    and "list_all (\<lambda>(ph, rdy, t). ph \<noteq> WorkloadPhaseRunning) os" "ph \<noteq> WorkloadPhaseRunning"
  shows "\<not> snd (AllowRoute e (Some (report ph rdy (circuit_run e w os))) now)"
proof -
  let ?m = "es_HalfOpenMaxRequests (effectiveSpec w e)"
  let ?r = "report ph rdy (circuit_run e w os)"
  have "\<exists>s. st_CircuitBreaker (wl_Status (circuit_run e w os)) = Some s \<and> probing_spent ?m s"
    using assms(4)
    by (intro circuit_run_status [where P = "probing_spent ?m", OF assms(1-3)])
       (auto simp: list_all_iff intro: sync_keeps_probing_spent)
  then obtain s where s: "st_CircuitBreaker (wl_Status ?r) = Some s" "probing_spent ?m s" by auto
  have en: "circuit_EnabledFor e (Some ?r)" using assms(1) by simp
  have "probing_spent ?m (sync_switch (effectiveSpec ?r e) (wl_Status ?r) now (sync_cooldown now s))"
    using s(2) by (rule sync_keeps_probing_spent) (use assms(5) in simp)
  then show ?thesis
    using AllowRoute_enabled [OF en s(1), of now] by (auto simp: probing_spent_def)
qed

theorem spent_probe_budget_is_never_refilled_witness:
  "let st = (new_circuit_status 0)\<lparr>cbs_State := CircuitStateHalfOpen, cbs_HalfOpenAttempts := 1\<rparr>
   in \<not> snd (AllowRoute local_circuit_config (Some (report WorkloadPhasePending 0
        (circuit_run local_circuit_config (set_circuit st zero_workload)
           [(WorkloadPhaseFailed, 0, 10), (WorkloadPhasePending, 0, 10 ^ 18)]))) (10 ^ 19))"
  unfolding Let_def
  by (rule spent_probe_budget_is_never_refilled
        [where st = "(new_circuit_status 0)\<lparr>cbs_State := CircuitStateHalfOpen, cbs_HalfOpenAttempts := 1\<rparr>"])
     (simp_all add: probing_spent_def local_circuit_config_spec)

section \<open>The routing interface\<close>

text \<open>
  What the reconciler and the dependency resolver rely on when they ask whether traffic
  may go to a workload: a blocked workload is never routed to, and asking changes
  nothing but the bookkeeping.
\<close>

locale route_gate =
  fixes allow :: "'w option \<Rightarrow> 't \<Rightarrow> 'w option \<times> bool"
    and blocked :: "'w \<Rightarrow> 't \<Rightarrow> bool"
    and core :: "'w \<Rightarrow> 'c"
  assumes allow_nil: "allow None t = (None, False)"
    and allow_blocked: "blocked w t \<Longrightarrow> \<not> snd (allow (Some w) t)"
    and allow_core: "\<exists>w'. fst (allow (Some w) t) = Some w' \<and> core w' = core w"
begin

lemma routed_not_blocked: "snd (allow wo t) \<Longrightarrow> \<exists>w. wo = Some w \<and> \<not> blocked w t"
  by (cases wo) (auto simp: allow_nil dest: allow_blocked)

lemma allow_keeps_presence: "fst (allow wo t) = None \<longleftrightarrow> wo = None"
proof (cases wo)
  case (Some w)
  then show ?thesis using allow_core [of w t] by auto
qed (simp add: allow_nil)

end

definition circuit_blocked :: "CircuitConfig \<Rightarrow> Workload \<Rightarrow> gotime \<Rightarrow> bool" where
  "circuit_blocked e w now =
     (phase w = WorkloadPhaseFailed \<and> \<not> circuit_EnabledFor e (Some w) \<or>
      circuit_EnabledFor e (Some w) \<and>
      (\<exists>st u. st_CircuitBreaker (wl_Status w) = Some st \<and> cbs_State st = CircuitStateOpen \<and>
        cbs_OpenUntil st = Some u \<and> now < u))"

definition workload_core :: "Workload \<Rightarrow> string \<times> WorkloadSpec \<times> WorkloadPhase \<times> int32" where
  "workload_core w = (wl_ID w, wl_Spec w, phase w, st_ReadyReplicas (wl_Status w))"

lemma AllowRoute_core: "\<exists>w'. fst (AllowRoute e (Some w) t) = Some w' \<and> workload_core w' = workload_core w"
  by (cases "circuit_EnabledFor e (Some w)")
     (simp_all add: AllowRoute_def Let_def SyncFromWorkload_enabled workload_core_def)

interpretation circuit_gate: route_gate "AllowRoute e" "circuit_blocked e" workload_core for e
proof unfold_locales
  show "AllowRoute e None t = (None, False)" for t by (simp add: AllowRoute_def)
  show "\<not> snd (AllowRoute e (Some w) t)" if "circuit_blocked e w t" for w t
  proof (cases "circuit_EnabledFor e (Some w)")
    case True
    with that show ?thesis
      by (auto simp: circuit_blocked_def AllowRoute_enabled sync_before_deadline)
  qed (use that in \<open>simp add: circuit_blocked_def AllowRoute_def\<close>)
qed (rule AllowRoute_core)

end
