(* ===== verification/DependencyGraph.thy ===== *)
theory DependencyGraph
  imports Types
begin

text \<open>
  The graph part of \<open>internal/dependency/resolver.go\<close>: \<open>buildDependencyGraph\<close>,
  \<open>topologicalSort\<close> (Kahn's algorithm), \<open>ResolveDeploymentOrder\<close>, \<open>DetectCycles\<close>,
  \<open>findCycle\<close> and \<open>findCycleDFS\<close>. Checking one workload's dependencies against the store
  is in theory \<open>Dependency\<close>.

  The graph is the Go map from a workload id to the ids that depend on it. Where the code
  ranges over a map, the iteration order is the runtime's choice: it is the parameter
  \<open>ord\<close>, any permutation of the entries, and the theorems hold for every choice.

  The first half of the theorems says that the deployment order is correct and that it is
  refused exactly for cyclic dependencies; the second that \<open>DetectCycles\<close> returns a real
  cycle exactly when there is one. \<open>findCycleDFS\<close> carries fuel; \<open>length g\<close> (the number of
  nodes) is shown to be enough, so the theorems have no fuel assumption.
\<close>

section \<open>Building the graph\<close>

type_synonym graph = "(string, string list) gomap"

definition adj :: "graph \<Rightarrow> string \<Rightarrow> string list" where
  \<comment> \<open>\<open>graph[node]\<close>, nil for a missing key\<close>
  "adj g n = (case map_of g n of None \<Rightarrow> [] | Some ns \<Rightarrow> ns)"

definition add_edge :: "string \<Rightarrow> Dependency \<Rightarrow> graph \<Rightarrow> graph" where
  "add_edge wid dep g = AList.update (dp_WorkloadID dep) (adj g (dp_WorkloadID dep) @ [wid]) g"

definition buildDependencyGraph :: "Workload list \<Rightarrow> graph" where
  "buildDependencyGraph workloads =
     (let g0 = fold (\<lambda>w. AList.update (wl_ID w) []) workloads []
      in fold (\<lambda>w. fold (add_edge (wl_ID w)) (sp_Dependencies (wl_Spec w))) workloads g0)"

section \<open>Topological sort\<close>

type_synonym degrees = "(string, int) gomap"

definition deg :: "degrees \<Rightarrow> string \<Rightarrow> int" where
  "deg d n = (case map_of d n of None \<Rightarrow> 0 | Some k \<Rightarrow> k)"

definition inc_degree :: "string \<Rightarrow> degrees \<Rightarrow> degrees" where
  "inc_degree n d = AList.update n (deg d n + 1) d"

definition in_degrees :: "graph \<Rightarrow> degrees" where
  "in_degrees g =
     (let d0 = fold (\<lambda>(n, _). AList.update n 0) g []
      in fold (\<lambda>(_, edges). fold inc_degree edges) g d0)"

definition relax :: "string \<Rightarrow> degrees \<times> string list \<Rightarrow> degrees \<times> string list" where
  "relax n = (\<lambda>(d, q).
     let k = deg d n - 1 in (AList.update n k d, if k = 0 then q @ [n] else q))"

definition pending :: "degrees \<Rightarrow> nat" where
  "pending d = length (filter (\<lambda>(_, k). 0 < k) d)"

lemma pending_update:
  "pending (AList.update n (deg d n - 1) d) + (if deg d n = 1 then 1 else 0) \<le> pending d"
proof (induction d)
  case (Cons p d)
  obtain m k where p: "p = (m, k)" by (cases p)
  show ?case
  proof (cases "m = n")
    case True
    then show ?thesis by (simp add: p pending_def deg_def)
  next
    case False
    then have "deg (p # d) n = deg d n" by (simp add: p deg_def)
    then show ?thesis using False Cons.IH by (auto simp: p pending_def)
  qed
qed (simp add: pending_def deg_def)

lemma relax_measure:
  "pending (fst (relax n s)) + length (snd (relax n s)) \<le> pending (fst s) + length (snd s)"
  using pending_update [of n "fst s"]
  by (cases s) (auto simp: relax_def Let_def split: if_splits)

lemma fold_relax_measure:
  "pending (fst (fold relax ns s)) + length (snd (fold relax ns s)) \<le> pending (fst s) + length (snd s)"
proof (induction ns arbitrary: s)
  case (Cons n ns)
  show ?case using Cons.IH [of "relax n s"] relax_measure [of n s] by simp
qed simp

function kahn :: "graph \<Rightarrow> degrees \<Rightarrow> string list \<Rightarrow> string list \<Rightarrow> string list" where
  "kahn g d [] result = result"
| "kahn g d (node # queue) result =
     (let (d', queue') = fold relax (adj g node) (d, queue)
      in kahn g d' queue' (result @ [node]))"
  by pat_completeness auto
termination
proof (relation "measure (\<lambda>(g, d, q, r). pending d + length q)")
  fix g :: graph and d node queue result x d' queue'
  assume "x = fold relax (adj g node) (d, queue)" "(d', queue') = x"
  then have "fold relax (adj g node) (d, queue) = (d', queue')" by simp
  then have "pending d' + length queue' \<le> pending d + length queue"
    using fold_relax_measure [of "adj g node" "(d, queue)"] by simp
  then show "((g, d', queue', result @ [node]), g, d, node # queue, result)
      \<in> measure (\<lambda>(g, d, q, r). pending d + length q)"
    by simp
qed simp

type_synonym map_order = "degrees \<Rightarrow> degrees"

definition topologicalSort :: "map_order \<Rightarrow> graph \<Rightarrow> (error, string list) result" where
  "topologicalSort ord g =
     (let inDegree = in_degrees g;
          queue = map fst (filter (\<lambda>(_, degree). degree = 0) (ord inDegree));
          result = kahn g inDegree queue []
      in if length result \<noteq> length g then Err (Errorf ''circular dependency detected'' [])
         else Ok result)"

definition ResolveDeploymentOrder ::
  "map_order \<Rightarrow> Workload list \<Rightarrow> (error, Workload list) result" where
  "ResolveDeploymentOrder ord workloads =
     (case topologicalSort ord (buildDependencyGraph workloads) of
        Inl err \<Rightarrow> Err (Wrapf ''failed to resolve deployment order: %w'' [] err)
      | Inr ordered \<Rightarrow>
          let workloadMap = fold (\<lambda>w. AList.update (wl_ID w) w) workloads []
          in Ok (List.map_filter (map_of workloadMap) ordered))"

section \<open>Cycle search\<close>

record dfs_state =
  ds_visited :: "string list"
  ds_stack :: "string list"
  ds_path :: "string list"

text \<open>
  The two \<open>map[string]bool\<close> are the lists of the keys set to true: \<open>visited[n] = true\<close>
  adds \<open>n\<close>, \<open>recursionStack[n] = false\<close> removes it. A result \<open>Some (Some c)\<close> is the
  non-nil cycle \<open>c\<close>, \<open>Some None\<close> the nil slice, and \<open>None\<close> is running out of fuel.
\<close>

type_synonym dfs_result = "(dfs_state \<times> string list option) option"

definition cycle_from :: "string list \<Rightarrow> string \<Rightarrow> string list option" where
  \<comment> \<open>the scan for \<open>cycleStart\<close> and the slice from it\<close>
  "cycle_from path n = (if n \<in> set path then Some (dropWhile (\<lambda>m. m \<noteq> n) path @ [n]) else None)"

fun dfs_neighbors ::
  "(string \<Rightarrow> dfs_state \<Rightarrow> dfs_result) \<Rightarrow> string list \<Rightarrow> dfs_state \<Rightarrow> dfs_result" where
  "dfs_neighbors visit [] s = Some (s, None)"
| "dfs_neighbors visit (n # ns) s =
     (if n \<notin> set (ds_visited s) then
        (case visit n s of
           None \<Rightarrow> None
         | Some (s', Some c) \<Rightarrow> Some (s', Some c)
         | Some (s', None) \<Rightarrow> dfs_neighbors visit ns s')
      else if n \<in> set (ds_stack s) then
        (case cycle_from (ds_path s) n of
           Some c \<Rightarrow> Some (s, Some c)
         | None \<Rightarrow> dfs_neighbors visit ns s)
      else dfs_neighbors visit ns s)"

definition enter_node :: "string \<Rightarrow> dfs_state \<Rightarrow> dfs_state" where
  "enter_node n s = s\<lparr>ds_visited := n # ds_visited s, ds_stack := n # ds_stack s, ds_path := ds_path s @ [n]\<rparr>"

definition leave_node :: "string \<Rightarrow> dfs_state \<Rightarrow> dfs_state" where
  "leave_node n s = s\<lparr>ds_stack := removeAll n (ds_stack s), ds_path := butlast (ds_path s)\<rparr>"

fun findCycleDFS :: "nat \<Rightarrow> graph \<Rightarrow> string \<Rightarrow> dfs_state \<Rightarrow> dfs_result" where
  "findCycleDFS 0 g node s = None"
| "findCycleDFS (Suc fuel) g node s =
     (case dfs_neighbors (findCycleDFS fuel g) (adj g node) (enter_node node s) of
        None \<Rightarrow> None
      | Some (s', Some c) \<Rightarrow> Some (s', Some c)
      | Some (s', None) \<Rightarrow> Some (leave_node node s', None))"

fun find_from :: "graph \<Rightarrow> string list \<Rightarrow> dfs_state \<Rightarrow> string list option option" where
  "find_from g [] s = Some None"
| "find_from g (n # ns) s =
     (if n \<notin> set (ds_visited s) then
        (case findCycleDFS (length g) g n s of
           None \<Rightarrow> None
         | Some (s', Some c) \<Rightarrow> Some (Some c)
         | Some (s', None) \<Rightarrow> find_from g ns s')
      else find_from g ns s)"

definition findCycle :: "(string list \<Rightarrow> string list) \<Rightarrow> graph \<Rightarrow> string list option option" where
  "findCycle ord g = find_from g (ord (map fst g)) \<lparr>ds_visited = [], ds_stack = [], ds_path = []\<rparr>"

definition DetectCycles ::
  "map_order \<Rightarrow> (string list \<Rightarrow> string list) \<Rightarrow> Workload list \<Rightarrow> string list option option" where
  "DetectCycles ord ord' workloads =
     (let g = buildDependencyGraph workloads
      in case topologicalSort ord g of
           Inl _ \<Rightarrow> findCycle ord' g
         | Inr _ \<Rightarrow> Some None)"

section \<open>Topological orders\<close>

definition topo :: "('a \<times> 'a) set \<Rightarrow> 'a list \<Rightarrow> bool" where
  \<comment> \<open>every predecessor of an element stands before it\<close>
  "topo E xs = (\<forall>i < length xs. \<forall>u. (u, xs ! i) \<in> E \<longrightarrow> u \<in> set (take i xs))"

lemma topo_Nil [simp]: "topo E []"
  by (simp add: topo_def)

lemma topo_snoc [simp]: "topo E (xs @ [x]) \<longleftrightarrow> topo E xs \<and> (\<forall>u. (u, x) \<in> E \<longrightarrow> u \<in> set xs)"
  by (auto simp: topo_def nth_append less_Suc_eq all_conj_distrib)

lemma topo_prefix_closed:
  assumes "topo E xs" "(u, v) \<in> E" "v \<in> set (take i xs)"
  shows "u \<in> set (take i xs)"
proof -
  obtain j where j: "j < i" "j < length xs" "xs ! j = v"
    using assms(3) by (auto simp: in_set_conv_nth)
  then have "u \<in> set (take j xs)" using assms(1,2) by (auto simp: topo_def)
  then show ?thesis using j(1) set_take_subset_set_take [of j i xs] by auto
qed

lemma topo_no_cycle:
  assumes "topo E xs" "distinct xs" "v \<in> set xs"
  shows "(v, v) \<notin> E\<^sup>+"
proof
  assume "(v, v) \<in> E\<^sup>+"
  then obtain u where u: "(v, u) \<in> E\<^sup>*" "(u, v) \<in> E" by (meson tranclD2)
  obtain i where i: "i < length xs" "xs ! i = v" using assms(3) by (auto simp: in_set_conv_nth)
  have "u \<in> set (take i xs)" using assms(1) u(2) i by (auto simp: topo_def)
  with u(1) have "v \<in> set (take i xs)"
    by (induction rule: converse_rtrancl_induct) (auto intro: topo_prefix_closed [OF assms(1)])
  then obtain j where "j < i" "xs ! j = v" using i by (auto simp: in_set_conv_nth)
  then show False using i assms(2) by (auto simp: nth_eq_iff_index_eq)
qed

text \<open>A finite set in which everything has a predecessor contains a cycle.\<close>

lemma predecessors_give_cycle:
  assumes "finite S" "S \<noteq> {}" "\<And>v. v \<in> S \<Longrightarrow> \<exists>u \<in> S. (u, v) \<in> E"
  shows "\<exists>v \<in> S. (v, v) \<in> E\<^sup>+"
proof (rule ccontr)
  assume none: "\<not> ?thesis"
  let ?R = "E \<inter> S \<times> S"
  have mono: "?R\<^sup>+ \<subseteq> E\<^sup>+" by (rule trancl_mono_subset) simp
  have "acyclic ?R"
    unfolding acyclic_def
  proof (intro allI notI)
    fix v
    assume c: "(v, v) \<in> ?R\<^sup>+"
    then have "v \<in> S" by (induction rule: converse_trancl_induct) auto
    with none c mono show False by blast
  qed
  moreover have "finite ?R" using assms(1) by simp
  ultimately have "wf ?R" by (rule finite_acyclic_wf [rotated])
  moreover obtain x where "x \<in> S" using assms(2) by blast
  ultimately have "\<exists>z \<in> S. \<forall>y. (y, z) \<in> ?R \<longrightarrow> y \<notin> S"
    by (rule wf_eq_minimal [THEN iffD1, rule_format])
  with assms(3) show False by blast
qed

section \<open>Closed graphs\<close>

text \<open>
  What the two searches rely on: the graph is a map and every edge ends in a node.
\<close>

abbreviation nodes :: "graph \<Rightarrow> string set" where
  "nodes g \<equiv> keys g"

definition edges :: "graph \<Rightarrow> (string \<times> string) set" where
  "edges g = {(u, v). v \<in> set (adj g u)}"

locale closed_graph =
  fixes g :: graph
  assumes wf: "wf_map g"
    and closed: "v \<in> set (adj g u) \<Longrightarrow> v \<in> nodes g"
begin

lemma source_is_node: "v \<in> set (adj g u) \<Longrightarrow> u \<in> nodes g"
  by (cases "map_of g u") (auto simp: adj_def keys_def dest: map_of_SomeD intro: rev_image_eqI)

lemma edge_nodes: "(u, v) \<in> edges g \<Longrightarrow> u \<in> nodes g \<and> v \<in> nodes g"
  by (auto simp: edges_def dest: closed source_is_node)

end

section \<open>Kahn's algorithm is correct\<close>

definition remaining :: "graph \<Rightarrow> string set \<Rightarrow> string \<Rightarrow> int" where
  \<comment> \<open>the edges into \<open>v\<close> from nodes that are not in \<open>R\<close>\<close>
  "remaining g R v = (\<Sum>u \<in> nodes g - R. int (count_list (adj g u) v))"

definition kahn_inv :: "graph \<Rightarrow> string list \<Rightarrow> degrees \<Rightarrow> string list \<Rightarrow> string list \<Rightarrow> bool" where
  "kahn_inv g ns d q r =
     (distinct (r @ q) \<and> set (r @ q) \<subseteq> nodes g \<and>
      (\<forall>v. deg d v = remaining g (set r) v + int (count_list ns v)) \<and>
      (\<forall>v \<in> nodes g. deg d v = 0 \<longleftrightarrow> v \<in> set (r @ q)) \<and>
      topo (edges g) r)"

lemma deg_update [simp]: "deg (AList.update n k d) m = (if m = n then k else deg d m)"
  by (simp add: deg_def update_conv')

lemma deg_fold_inc: "deg (fold inc_degree es d) v = deg d v + int (count_list es v)"
  by (induction es arbitrary: d) (auto simp: inc_degree_def)

lemma deg_fold_edges:
  "deg (fold (\<lambda>(_, es). fold inc_degree es) g d) v = deg d v + (\<Sum>(_, es) \<leftarrow> g. int (count_list es v))"
  by (induction g arbitrary: d) (auto simp: deg_fold_inc)

lemma keys_fold_inc: "keys (fold inc_degree es d) = set es \<union> keys d"
  by (induction es arbitrary: d) (auto simp: inc_degree_def)

lemma keys_fold_edges:
  "keys (fold (\<lambda>(_, es). fold inc_degree es) g d) = (\<Union>(_, es) \<in> set g. set es) \<union> keys d"
  by (induction g arbitrary: d) (auto simp: keys_fold_inc)

lemma zero_degrees:
  "keys (fold (\<lambda>(n, _). AList.update n 0) g d) = keys g \<union> keys d"
  "(\<And>v. deg d v = 0) \<Longrightarrow> deg (fold (\<lambda>(n, _). AList.update n 0) g d) v = 0"
  by (induction g arbitrary: d) auto

lemma wf_zero_degrees: "wf_map d \<Longrightarrow> wf_map (fold (\<lambda>(n, _). AList.update n 0) g d)"
  by (induction g arbitrary: d) auto

lemma wf_fold_inc: "wf_map d \<Longrightarrow> wf_map (fold inc_degree es d)"
  by (induction es arbitrary: d) (auto simp: inc_degree_def)

lemma wf_fold_edges: "wf_map d \<Longrightarrow> wf_map (fold (\<lambda>(_, es). fold inc_degree es) g d)"
  by (induction g arbitrary: d) (auto simp: wf_fold_inc)

lemma wf_in_degrees [simp]: "wf_map (in_degrees g)"
  by (simp add: in_degrees_def wf_fold_edges wf_zero_degrees)

lemma kahn_inv_relax:
  assumes inv: "kahn_inv g (n # ns) d q r" and n: "n \<in> nodes g"
  shows "kahn_inv g ns (fst (relax n (d, q))) (snd (relax n (d, q))) r"
proof -
  have nonneg: "0 \<le> remaining g (set r) v" for v by (simp add: remaining_def sum_nonneg)
  have pos: "0 < deg d n" using inv nonneg [of n] by (auto simp: kahn_inv_def)
  then have fresh: "n \<notin> set (r @ q)" using inv n by (auto simp: kahn_inv_def)
  show ?thesis
    using inv n pos fresh by (auto simp: kahn_inv_def relax_def Let_def)
qed

lemma kahn_inv_fold_relax:
  assumes "kahn_inv g ns d q r" "set ns \<subseteq> nodes g"
  shows "kahn_inv g [] (fst (fold relax ns (d, q))) (snd (fold relax ns (d, q))) r"
  using assms
proof (induction ns arbitrary: d q)
  case (Cons n ns)
  obtain d' q' where s: "relax n (d, q) = (d', q')" by fastforce
  have "kahn_inv g ns d' q' r" using kahn_inv_relax [OF Cons.prems(1)] Cons.prems(2) by (simp add: s)
  then show ?case using Cons.IH [of d' q'] Cons.prems(2) by (simp add: s)
qed simp

context closed_graph
begin

lemma adj_nodes: "set (adj g u) \<subseteq> nodes g"
  using closed by blast

lemma adj_entry: "(u, es) \<in> set g \<Longrightarrow> adj g u = es"
  using wf by (simp add: adj_def wf_map_def)

lemma remaining_pop:
  assumes "u \<in> nodes g" "u \<notin> R"
  shows "remaining g R v = remaining g (insert u R) v + int (count_list (adj g u) v)"
proof -
  have "nodes g - R = insert u (nodes g - insert u R)" using assms by blast
  then have "remaining g R v = (\<Sum>x \<in> insert u (nodes g - insert u R). int (count_list (adj g x) v))"
    by (simp only: remaining_def)
  also have "\<dots> = remaining g (insert u R) v + int (count_list (adj g u) v)"
    by (simp add: remaining_def)
  finally show ?thesis .
qed

lemma remaining_zero_iff: "remaining g R v = 0 \<longleftrightarrow> (\<forall>u. (u, v) \<in> edges g \<longrightarrow> u \<in> R)"
proof -
  have "remaining g R v = 0 \<longleftrightarrow> (\<forall>u \<in> nodes g - R. v \<notin> set (adj g u))"
    by (simp add: remaining_def sum_nonneg_eq_0_iff count_list_0_iff)
  also have "\<dots> \<longleftrightarrow> (\<forall>u. (u, v) \<in> edges g \<longrightarrow> u \<in> R)"
    using source_is_node by (auto simp: edges_def)
  finally show ?thesis .
qed

lemma deg_in_degrees: "deg (in_degrees g) v = remaining g {} v"
proof -
  have "deg (in_degrees g) v = (\<Sum>(_, es) \<leftarrow> g. int (count_list es v))"
    by (simp add: in_degrees_def deg_fold_edges zero_degrees(2) deg_def [of "[]"])
  also have "\<dots> = (\<Sum>u \<leftarrow> map fst g. int (count_list (adj g u) v))"
    unfolding map_map by (intro arg_cong [where f = sum_list] map_cong refl) (auto simp: adj_entry)
  also have "\<dots> = remaining g {} v"
    using wf sum_list_distinct_conv_sum_set [of "map fst g"]
    by (simp add: remaining_def keys_def wf_map_def)
  finally show ?thesis .
qed

lemma keys_in_degrees: "keys (in_degrees g) = nodes g"
proof -
  have "(\<Union>(_, es) \<in> set g. set es) \<subseteq> nodes g"
    using closed adj_entry by fastforce
  then show ?thesis
    by (auto simp: in_degrees_def keys_fold_edges zero_degrees(1))
qed

lemma kahn_inv_pop:
  assumes inv: "kahn_inv g [] d (node # q) r"
  shows "kahn_inv g (adj g node) d q (r @ [node])"
proof -
  have node: "node \<in> nodes g" "node \<notin> set r" "deg d node = 0"
    using inv by (auto simp: kahn_inv_def)
  then have "\<forall>u. (u, node) \<in> edges g \<longrightarrow> u \<in> set r"
    using inv remaining_zero_iff by (auto simp: kahn_inv_def)
  then show ?thesis
    using inv node remaining_pop [of node "set r"] by (auto simp: kahn_inv_def)
qed

lemma kahn_inv_result: "kahn_inv g [] d q r \<Longrightarrow> \<exists>d'. kahn_inv g [] d' [] (kahn g d q r)"
proof (induction "pending d + length q" arbitrary: d q r rule: less_induct)
  case less
  show ?case
  proof (cases q)
    case (Cons node q0)
    obtain d' q' where s: "fold relax (adj g node) (d, q0) = (d', q')" by fastforce
    have inv: "kahn_inv g [] d' q' (r @ [node])"
      using kahn_inv_fold_relax [OF kahn_inv_pop adj_nodes, of d node q0 r] less.prems by (simp add: Cons s)
    have "pending d' + length q' < pending d + length q"
      using fold_relax_measure [of "adj g node" "(d, q0)"] by (simp add: s Cons)
    from less.hyps [OF this inv] show ?thesis by (simp add: Cons s)
  qed (use less.prems in auto)
qed

lemma kahn_inv_initial:
  assumes "mset es = mset (in_degrees g)"
  shows "kahn_inv g [] (in_degrees g) (map fst (filter (\<lambda>(_, k). k = 0) es)) []"
proof -
  have same: "set es = set (in_degrees g)" using assms by (metis set_mset_mset)
  have "mset (map fst es) = mset (map fst (in_degrees g))" using assms by simp
  then have "distinct (map fst es)"
    using wf_in_degrees [of g] unfolding wf_map_def by (metis mset_eq_imp_distinct_iff)
  then have d: "distinct (map fst (filter (\<lambda>(_, k). k = 0) es))" by (rule distinct_map_filter)
  have m: "v \<in> set (map fst (filter (\<lambda>(_, k). k = 0) es)) \<longleftrightarrow> v \<in> nodes g \<and> deg (in_degrees g) v = 0" for v
  proof -
    have "v \<in> set (map fst (filter (\<lambda>(_, k). k = 0) es)) \<longleftrightarrow> (v, 0) \<in> set (in_degrees g)"
      by (auto simp: same intro: rev_image_eqI)
    also have "\<dots> \<longleftrightarrow> map_of (in_degrees g) v = Some 0"
      by (simp add: wf_map_map_of)
    also have "\<dots> \<longleftrightarrow> v \<in> nodes g \<and> deg (in_degrees g) v = 0"
      unfolding keys_in_degrees [symmetric]
      by (cases "map_of (in_degrees g) v") (auto simp: deg_def keys_def map_of_eq_None_iff dest: map_of_SomeD intro: rev_image_eqI)
    finally show ?thesis .
  qed
  show ?thesis using d m by (auto simp: kahn_inv_def deg_in_degrees)
qed

lemma topologicalSort_cases:
  assumes "mset (ord (in_degrees g)) = mset (in_degrees g)"
  obtains (sorted) xs where "topologicalSort ord g = Ok xs"
      "distinct xs" "set xs = nodes g" "topo (edges g) xs" "acyclic (edges g)"
    | (cyclic) "topologicalSort ord g = Err (Errorf ''circular dependency detected'' [])"
      "\<not> acyclic (edges g)"
proof -
  define r where "r = kahn g (in_degrees g) (map fst (filter (\<lambda>(_, k). k = 0) (ord (in_degrees g)))) []"
  obtain d where inv: "kahn_inv g [] d [] r"
    using kahn_inv_result [OF kahn_inv_initial [of "ord (in_degrees g)"]] assms by (auto simp: r_def)
  have r: "distinct r" "set r \<subseteq> nodes g" "topo (edges g) r" using inv by (auto simp: kahn_inv_def)
  have res: "topologicalSort ord g =
      (if length r \<noteq> length g then Err (Errorf ''circular dependency detected'' []) else Ok r)"
    by (simp add: topologicalSort_def r_def Let_def)
  have len: "length r = length g \<longleftrightarrow> set r = nodes g"
    using card_keys [OF wf] distinct_card [OF r(1)] card_subset_eq [OF finite_keys r(2)] by auto
  show thesis
  proof (cases "set r = nodes g")
    case True
    have "acyclic (edges g)"
      unfolding acyclic_def
    proof (intro allI notI)
      fix v assume c: "(v, v) \<in> (edges g)\<^sup>+"
      then have "v \<in> nodes g" by (induction rule: trancl_induct) (auto dest: edge_nodes)
      then show False using topo_no_cycle [OF r(3,1)] True c by blast
    qed
    then show thesis using True r by (intro sorted) (auto simp: res len)
  next
    case False
    have "\<exists>u \<in> nodes g - set r. (u, v) \<in> edges g" if "v \<in> nodes g - set r" for v
    proof -
      have "remaining g (set r) v \<noteq> 0" using inv that by (auto simp: kahn_inv_def)
      then show ?thesis using remaining_zero_iff [of "set r" v] edge_nodes by blast
    qed
    moreover have "nodes g - set r \<noteq> {}" using False r(2) by blast
    ultimately have "\<exists>v \<in> nodes g - set r. (v, v) \<in> (edges g)\<^sup>+"
      by (intro predecessors_give_cycle) auto
    then show thesis using False by (intro cyclic) (auto simp: res len acyclic_def)
  qed
qed

end

section \<open>The cycle search is correct\<close>

definition is_cycle :: "('a \<times> 'a) set \<Rightarrow> 'a list \<Rightarrow> bool" where
  "is_cycle E c = (2 \<le> length c \<and> hd c = last c \<and> successively (\<lambda>u v. (u, v) \<in> E) c)"

definition dfs_inv :: "graph \<Rightarrow> dfs_state \<Rightarrow> bool" where
  "dfs_inv g s =
     (set (ds_stack s) = set (ds_path s) \<and> distinct (ds_path s) \<and>
      set (ds_path s) \<subseteq> set (ds_visited s) \<and>
      successively (\<lambda>u v. (u, v) \<in> edges g) (ds_path s) \<and>
      (\<exists>F. distinct F \<and> set F = set (ds_visited s) - set (ds_path s) \<and> topo ((edges g)\<inverse>) F))"

text \<open>What a visit returns: a real cycle, or a state in which the required nodes are finished.\<close>

definition dfs_post :: "graph \<Rightarrow> dfs_state \<Rightarrow> string set \<Rightarrow> dfs_result \<Rightarrow> bool" where
  "dfs_post g s N r = (case r of
     None \<Rightarrow> False
   | Some (s', Some c) \<Rightarrow> is_cycle (edges g) c
   | Some (s', None) \<Rightarrow> dfs_inv g s' \<and> ds_path s' = ds_path s \<and> set (ds_visited s) \<subseteq> set (ds_visited s')
       \<and> N \<subseteq> set (ds_visited s') - set (ds_path s'))"

definition unvisited :: "graph \<Rightarrow> dfs_state \<Rightarrow> nat" where
  "unvisited g s = card (nodes g - set (ds_visited s))"

definition find_post :: "graph \<Rightarrow> string set \<Rightarrow> string list option \<Rightarrow> bool" where
  "find_post g N r = (case r of
     Some c \<Rightarrow> is_cycle (edges g) c
   | None \<Rightarrow> \<exists>F. distinct F \<and> topo ((edges g)\<inverse>) F \<and> N \<subseteq> set F)"

lemma find_post_mono: "find_post g N r \<Longrightarrow> N' \<subseteq> N \<Longrightarrow> find_post g N' r"
  by (cases r) (auto simp: find_post_def)

lemma cycle_from_is_cycle:
  assumes "successively (\<lambda>u v. (u, v) \<in> E) path" "path \<noteq> []" "(last path, n) \<in> E" "n \<in> set path"
  shows "\<exists>c. cycle_from path n = Some c \<and> is_cycle E c"
proof -
  obtain ys zs where p: "path = ys @ n # zs" "n \<notin> set ys"
    using assms(4) by (meson split_list_first)
  then have d: "dropWhile (\<lambda>m. m \<noteq> n) path = n # zs"
    by (simp add: dropWhile_append3 dropWhile_eq_Nil_conv)
       (metis (mono_tags, lifting) dropWhile_append2 dropWhile.simps(2))
  have "successively (\<lambda>u v. (u, v) \<in> E) (n # zs)" "(last (n # zs), n) \<in> E"
    using assms(1,3) p by (auto simp: successively_append_iff)
  then have "is_cycle E (n # zs @ [n])"
    using successively_append_iff [of "\<lambda>u v. (u, v) \<in> E" "n # zs" "[n]"] by (simp add: is_cycle_def)
  then show ?thesis using assms(4) by (simp add: cycle_from_def d)
qed

lemma unvisited_mono:
  "set (ds_visited s) \<subseteq> set (ds_visited s') \<Longrightarrow> unvisited g s' \<le> unvisited g s"
  unfolding unvisited_def by (rule card_mono) auto

lemma dfs_post_trans:
  assumes "dfs_inv g s'" "ds_path s' = ds_path s" "set (ds_visited s) \<subseteq> set (ds_visited s')"
    and "n \<in> set (ds_visited s') - set (ds_path s')" "dfs_post g s' N r"
  shows "dfs_post g s (insert n N) r"
  using assms by (fastforce simp: dfs_post_def split: option.splits prod.splits)

lemma dfs_neighbors_post:
  assumes "dfs_inv g s" "ds_path s \<noteq> []" "set ns \<subseteq> set (adj g (last (ds_path s)))" "unvisited g s \<le> k"
    and visit: "\<And>n s. dfs_inv g s \<Longrightarrow> n \<notin> set (ds_visited s) \<Longrightarrow> ds_path s \<noteq> [] \<Longrightarrow>
      (last (ds_path s), n) \<in> edges g \<Longrightarrow> unvisited g s \<le> k \<Longrightarrow> dfs_post g s {n} (visit n s)"
  shows "dfs_post g s (set ns) (dfs_neighbors visit ns s)"
  using assms(1-4)
proof (induction ns arbitrary: s)
  case Nil
  then show ?case by (simp add: dfs_post_def)
next
  case (Cons n ns)
  have edge: "(last (ds_path s), n) \<in> edges g" using Cons.prems(3) by (simp add: edges_def)
  show ?case
  proof (cases "n \<in> set (ds_visited s)")
    case False
    have post: "dfs_post g s {n} (visit n s)"
      using visit [OF Cons.prems(1) False Cons.prems(2) edge Cons.prems(4)] .
    then obtain s' r where v: "visit n s = Some (s', r)"
      by (auto simp: dfs_post_def split: option.splits)
    show ?thesis
    proof (cases r)
      case None
      then have s': "dfs_inv g s'" "ds_path s' = ds_path s" "set (ds_visited s) \<subseteq> set (ds_visited s')"
        "n \<in> set (ds_visited s') - set (ds_path s')"
        using post by (auto simp: v dfs_post_def)
      have "dfs_post g s' (set ns) (dfs_neighbors visit ns s')"
        using Cons.prems s' unvisited_mono [OF s'(3), of g] by (intro Cons.IH) auto
      from dfs_post_trans [OF s' this] show ?thesis using False by (simp add: v None)
    next
      case (Some c)
      then show ?thesis using post False by (simp add: v dfs_post_def)
    qed
  next
    case True
    have rest: "dfs_post g s (set ns) (dfs_neighbors visit ns s)" using Cons.prems by (intro Cons.IH) auto
    show ?thesis
    proof (cases "n \<in> set (ds_path s)")
      case on_path: True
      have "\<exists>c. cycle_from (ds_path s) n = Some c \<and> is_cycle (edges g) c"
        using Cons.prems(1,2) edge on_path by (intro cycle_from_is_cycle) (auto simp: dfs_inv_def)
      then show ?thesis using True on_path Cons.prems(1) by (auto simp: dfs_post_def dfs_inv_def)
    next
      case False
      then have "dfs_post g s (insert n (set ns)) (dfs_neighbors visit ns s)"
        using True rest by (intro dfs_post_trans [OF Cons.prems(1)]) auto
      then show ?thesis using True False Cons.prems(1) by (simp add: dfs_inv_def)
    qed
  qed
qed

lemma enter_node_fields [simp]:
  "ds_visited (enter_node n s) = n # ds_visited s" "ds_stack (enter_node n s) = n # ds_stack s"
  "ds_path (enter_node n s) = ds_path s @ [n]"
  by (simp_all add: enter_node_def)

lemma enter_node_inv:
  assumes "dfs_inv g s" "n \<notin> set (ds_visited s)" "ds_path s \<noteq> [] \<longrightarrow> (last (ds_path s), n) \<in> edges g"
  shows "dfs_inv g (enter_node n s)"
proof -
  have "insert n (set (ds_visited s)) - insert n (set (ds_path s)) = set (ds_visited s) - set (ds_path s)"
    using assms(2) by auto
  then show ?thesis
    using assms by (auto simp: dfs_inv_def successively_append_iff)
qed

lemma leave_node_inv:
  assumes inv: "dfs_inv g s" and path: "ds_path s = p @ [n]"
    and fin: "set (adj g n) \<subseteq> set (ds_visited s) - set (ds_path s)"
  shows "dfs_inv g (leave_node n s)"
proof -
  obtain F where F: "distinct F" "set F = set (ds_visited s) - set (ds_path s)" "topo ((edges g)\<inverse>) F"
    using inv by (auto simp: dfs_inv_def)
  have n: "n \<notin> set p" "n \<in> set (ds_visited s)" using inv path by (auto simp: dfs_inv_def)
  have "distinct (F @ [n])" "set (F @ [n]) = set (ds_visited s) - set p" using F n path by auto
  moreover have "topo ((edges g)\<inverse>) (F @ [n])" using F fin by (auto simp: edges_def)
  ultimately have "\<exists>F. distinct F \<and> set F = set (ds_visited s) - set p \<and> topo ((edges g)\<inverse>) F" by blast
  then show ?thesis
    using inv n path by (auto simp: dfs_inv_def leave_node_def successively_append_iff)
qed

context closed_graph
begin

lemma findCycleDFS_post:
  assumes "dfs_inv g s" "n \<in> nodes g" "n \<notin> set (ds_visited s)"
    and "ds_path s \<noteq> [] \<longrightarrow> (last (ds_path s), n) \<in> edges g" "unvisited g s \<le> k"
  shows "dfs_post g s {n} (findCycleDFS k g n s)"
  using assms
proof (induction k arbitrary: n s)
  case 0
  then have "nodes g - set (ds_visited s) = {}" by (simp add: unvisited_def)
  then show ?case using 0 by blast
next
  case (Suc k)
  let ?s = "enter_node n s"
  have inv: "dfs_inv g ?s" using Suc.prems by (intro enter_node_inv) auto
  have "nodes g - set (ds_visited ?s) \<subset> nodes g - set (ds_visited s)"
    using Suc.prems(2,3) by auto
  then have "unvisited g ?s < unvisited g s" unfolding unvisited_def by (intro psubset_card_mono) auto
  then have fuel: "unvisited g ?s \<le> k" using Suc.prems(5) by simp
  have path: "ds_path ?s = ds_path s @ [n]" by simp
  have post: "dfs_post g ?s (set (adj g n)) (dfs_neighbors (findCycleDFS k g) (adj g n) ?s)"
    using inv fuel path by (intro dfs_neighbors_post) (auto intro!: Suc.IH dest: edge_nodes)
  then obtain s' r where v: "dfs_neighbors (findCycleDFS k g) (adj g n) ?s = Some (s', r)"
    by (auto simp: dfs_post_def split: option.splits)
  show ?case
  proof (cases r)
    case None
    have s': "dfs_inv g s'" "ds_path s' = ds_path s @ [n]" "set (adj g n) \<subseteq> set (ds_visited s') - set (ds_path s')"
      "insert n (set (ds_visited s)) \<subseteq> set (ds_visited s')"
      using post path by (auto simp: v None dfs_post_def)
    moreover have "n \<notin> set (ds_path s)" using Suc.prems(1,3) by (auto simp: dfs_inv_def)
    ultimately show ?thesis
      using leave_node_inv [OF s'(1-3)] by (simp add: v None dfs_post_def leave_node_def)
  next
    case (Some c)
    then show ?thesis using post by (simp add: v dfs_post_def)
  qed
qed

lemma find_from_result:
  assumes "dfs_inv g s" "ds_path s = []" "set ns \<subseteq> nodes g"
  shows "\<exists>r. find_from g ns s = Some r \<and> find_post g (set ns \<union> set (ds_visited s)) r"
  using assms
proof (induction ns arbitrary: s)
  case Nil
  then show ?case by (auto simp: dfs_inv_def find_post_def)
next
  case (Cons n ns)
  show ?case
  proof (cases "n \<in> set (ds_visited s)")
    case True
    have "\<exists>r. find_from g ns s = Some r \<and> find_post g (set ns \<union> set (ds_visited s)) r"
      using Cons.prems by (intro Cons.IH) auto
    then show ?thesis using True by (auto elim!: find_post_mono)
  next
    case False
    have "unvisited g s \<le> length g"
      unfolding unvisited_def card_keys [OF wf, symmetric] by (rule card_mono) auto
    then have post: "dfs_post g s {n} (findCycleDFS (length g) g n s)"
      using Cons.prems False by (intro findCycleDFS_post) auto
    then obtain s' r where v: "findCycleDFS (length g) g n s = Some (s', r)"
      by (auto simp: dfs_post_def split: option.splits)
    show ?thesis
    proof (cases r)
      case None
      then have "dfs_inv g s'" "ds_path s' = []" and sub: "insert n (set (ds_visited s)) \<subseteq> set (ds_visited s')"
        using post Cons.prems(2) by (auto simp: v dfs_post_def)
      then obtain r' where "find_from g ns s' = Some r'" "find_post g (set ns \<union> set (ds_visited s')) r'"
        using Cons.IH [of s'] Cons.prems(3) by auto
      then show ?thesis using sub False by (auto simp: v None elim!: find_post_mono)
    next
      case (Some c)
      then show ?thesis using post False by (auto simp: v dfs_post_def find_post_def)
    qed
  qed
qed

lemma findCycle_result:
  assumes "mset (ord (map fst g)) = mset (map fst g)"
  obtains (cycle) c where "findCycle ord g = Some (Some c)" "is_cycle (edges g) c"
    | (none) "findCycle ord g = Some None" "acyclic (edges g)"
proof -
  let ?s = "\<lparr>ds_visited = [], ds_stack = [], ds_path = []\<rparr>"
  have ns: "set (ord (map fst g)) = nodes g" using mset_eq_setD [OF assms] by (simp add: keys_def)
  have inv: "dfs_inv g ?s" by (simp add: dfs_inv_def)
  obtain r where r: "findCycle ord g = Some r" "find_post g (nodes g) r"
    using find_from_result [OF inv, of "ord (map fst g)"] by (auto simp: ns findCycle_def)
  show thesis
  proof (cases r)
    case None
    then obtain F where F: "distinct F" "topo ((edges g)\<inverse>) F" "nodes g \<subseteq> set F"
      using r(2) by (auto simp: find_post_def)
    have "acyclic ((edges g)\<inverse>)"
      unfolding acyclic_def
    proof (intro allI notI)
      fix v assume c: "(v, v) \<in> ((edges g)\<inverse>)\<^sup>+"
      then have "v \<in> nodes g" by (induction rule: trancl_induct) (auto dest: edge_nodes)
      then show False using topo_no_cycle [OF F(2,1)] F(3) c by blast
    qed
    then show thesis using r None by (intro none) auto
  next
    case (Some c)
    then show thesis using r by (intro cycle) (auto simp: find_post_def)
  qed
qed

end

section \<open>The graph of a set of workloads\<close>

definition depends_on :: "Workload list \<Rightarrow> (string \<times> string) set" where
  \<comment> \<open>\<open>(d, w)\<close>: some workload with id \<open>w\<close> names \<open>d\<close> as a dependency\<close>
  "depends_on ws = {(d, w). \<exists>x \<in> set ws. wl_ID x = w \<and> d \<in> dp_WorkloadID ` set (sp_Dependencies (wl_Spec x))}"

definition named_ids :: "Workload list \<Rightarrow> string set" where
  "named_ids ws = wl_ID ` set ws \<union> fst ` depends_on ws"

lemma adj_add_edge:
  "adj (add_edge wid dep g) n = (if n = dp_WorkloadID dep then adj g n @ [wid] else adj g n)"
  by (simp add: add_edge_def adj_def update_conv')

lemma fold_add_edge:
  "set (adj (fold (add_edge wid) deps g) n)
     = set (adj g n) \<union> (if n \<in> dp_WorkloadID ` set deps then {wid} else {})"
  "keys (fold (add_edge wid) deps g) = keys g \<union> dp_WorkloadID ` set deps"
  "wf_map g \<Longrightarrow> wf_map (fold (add_edge wid) deps g)"
  by (induction deps arbitrary: g) (auto simp: adj_add_edge, auto simp: add_edge_def)

lemma depends_on_Nil [simp]: "depends_on [] = {}"
  by (simp add: depends_on_def)

lemma depends_on_snoc:
  "depends_on (ws @ [w]) = depends_on ws \<union>
     (\<lambda>dep. (dp_WorkloadID dep, wl_ID w)) ` set (sp_Dependencies (wl_Spec w))"
  by (auto simp: depends_on_def)

lemma fold_add_edges:
  fixes g :: graph
  defines "build \<equiv> \<lambda>ws. fold (\<lambda>w. fold (add_edge (wl_ID w)) (sp_Dependencies (wl_Spec w))) ws g"
  shows "set (adj (build ws) n) = set (adj g n) \<union> {w. (n, w) \<in> depends_on ws}"
    and "keys (build ws) = keys g \<union> fst ` depends_on ws"
    and "wf_map g \<Longrightarrow> wf_map (build ws)"
  unfolding build_def
  by (induction ws rule: rev_induct)
     (simp_all add: fold_add_edge depends_on_snoc image_Un image_image Un_assoc, auto)

lemma init_nodes:
  "keys (fold (\<lambda>w. AList.update (wl_ID w) []) ws g) = keys g \<union> wl_ID ` set ws"
  "wf_map g \<Longrightarrow> wf_map (fold (\<lambda>w. AList.update (wl_ID w) []) ws g)"
  "(\<And>n. adj g n = []) \<Longrightarrow> adj (fold (\<lambda>w. AList.update (wl_ID w) []) ws g) n = []"
  by (induction ws arbitrary: g) (auto simp: adj_def update_conv')

lemma buildDependencyGraph_graph:
  "edges (buildDependencyGraph ws) = depends_on ws"
  "nodes (buildDependencyGraph ws) = named_ids ws"
  "wf_map (buildDependencyGraph ws)"
  unfolding buildDependencyGraph_def Let_def
  by (auto simp: edges_def fold_add_edges init_nodes named_ids_def adj_def [of "[]"])

interpretation built: closed_graph "buildDependencyGraph ws" for ws
proof unfold_locales
  fix u v assume "v \<in> set (adj (buildDependencyGraph ws) u)"
  then have "(u, v) \<in> depends_on ws" using buildDependencyGraph_graph(1) by (auto simp: edges_def)
  then show "v \<in> nodes (buildDependencyGraph ws)"
    by (auto simp: buildDependencyGraph_graph named_ids_def depends_on_def)
qed (rule buildDependencyGraph_graph)

section \<open>Deployment order\<close>

lemma topo_filter: "topo E xs \<Longrightarrow> topo (E \<inter> {(u, v). P u}) (filter P xs)"
  by (induction xs rule: rev_induct) auto

lemma map_of_workloads:
  assumes "distinct (map wl_ID ws)"
  shows "map_of (fold (\<lambda>w. AList.update (wl_ID w) w) ws []) i = Some w \<longleftrightarrow> w \<in> set ws \<and> wl_ID w = i"
  using assms
  by (induction ws rule: rev_induct) (auto simp: update_conv', metis image_eqI)

lemma ResolveDeploymentOrder_ok:
  assumes "mset (ord (in_degrees (buildDependencyGraph ws))) = mset (in_degrees (buildDependencyGraph ws))"
    and "ResolveDeploymentOrder ord ws = Ok res" "distinct (map wl_ID ws)"
  shows "distinct (map wl_ID res) \<and> set res = set ws \<and>
    topo (depends_on ws \<inter> {(u, v). u \<in> wl_ID ` set ws}) (map wl_ID res)"
proof -
  let ?m = "map_of (fold (\<lambda>w. AList.update (wl_ID w) w) ws [])"
  obtain xs where xs: "topologicalSort ord (buildDependencyGraph ws) = Ok xs" "distinct xs"
      "set xs = named_ids ws" "topo (depends_on ws) xs"
    using assms(2)
    by (cases rule: built.topologicalSort_cases [where ord = ord and ws = ws, OF assms(1)])
       (auto simp: ResolveDeploymentOrder_def buildDependencyGraph_graph)
  have res: "res = List.map_filter ?m xs" using assms(2) by (simp add: ResolveDeploymentOrder_def xs)
  note m = map_of_workloads [OF assms(3)]
  have m_none: "?m i = None \<Longrightarrow> i \<notin> wl_ID ` set ws" for i
    using m [of i] by fastforce
  have ids: "map wl_ID res = filter (\<lambda>i. i \<in> wl_ID ` set ws) xs"
    unfolding res
  proof (induction xs)
    case (Cons i xs)
    show ?case
    proof (cases "?m i")
      case None
      then show ?thesis using Cons m_none [OF None] by (simp add: List.map_filter_simps)
    next
      case (Some w)
      then show ?thesis using Cons m [of i w] by (auto simp: List.map_filter_simps)
    qed
  qed (simp add: List.map_filter_simps)
  have "set res = {w. \<exists>i \<in> named_ids ws. ?m i = Some w}"
    by (auto simp: res List.map_filter_def xs(3) intro: rev_image_eqI)
  also have "\<dots> = set ws" by (auto simp: m named_ids_def)
  finally have "set res = set ws" .
  then show ?thesis
    using topo_filter [OF xs(4), of "\<lambda>i. i \<in> wl_ID ` set ws"] xs(2) by (simp add: ids)
qed

text \<open>
  C5. For every map iteration order, a deployment order that \<open>ResolveDeploymentOrder\<close>
  returns lists each given workload exactly once, and each of the given workloads that a
  workload depends on stands before it.
\<close>

theorem deployment_order_is_correct:
  assumes "\<And>es. mset (ord es) = mset es" "distinct (map wl_ID ws)"
    and "ResolveDeploymentOrder ord ws = Ok res"
  shows "mset res = mset ws \<and>
    (\<forall>i < length res. \<forall>dep \<in> set (sp_Dependencies (wl_Spec (res ! i))). \<forall>w \<in> set ws.
       wl_ID w = dp_WorkloadID dep \<longrightarrow> w \<in> set (take i res))"
proof -
  have r: "distinct (map wl_ID res)" "set res = set ws"
      "topo (depends_on ws \<inter> {(u, v). u \<in> wl_ID ` set ws}) (map wl_ID res)"
    using ResolveDeploymentOrder_ok [where ord = ord and ws = ws, OF assms(1,3,2)] by auto
  have "distinct res" "distinct ws" using r(1) assms(2) by (simp_all add: distinct_map)
  then have perm: "mset res = mset ws" using r(2) set_eq_iff_mset_eq_distinct by blast
  have "w \<in> set (take i res)"
    if "i < length res" "dep \<in> set (sp_Dependencies (wl_Spec (res ! i)))" "w \<in> set ws"
      "wl_ID w = dp_WorkloadID dep" for i dep w
  proof -
    have "(wl_ID w, map wl_ID res ! i) \<in> depends_on ws \<inter> {(u, v). u \<in> wl_ID ` set ws}"
      using that r(2) by (fastforce simp: depends_on_def)
    then have "wl_ID w \<in> set (take i (map wl_ID res))"
      using r(3) that(1) by (auto simp: topo_def)
    then obtain w' where w': "w' \<in> set (take i res)" "wl_ID w' = wl_ID w" by (auto simp: take_map)
    then have "w' \<in> set ws" using r(2) by (auto dest: in_set_takeD)
    then have "w' = w" using w'(2) that(3) assms(2) by (auto simp: distinct_map dest: inj_onD)
    then show ?thesis using w'(1) by simp
  qed
  then show ?thesis using perm by blast
qed

text \<open>
  C8. \<open>ResolveDeploymentOrder\<close> always returns, and refuses exactly the cyclic dependency
  sets, with the wrapped error of \<open>topologicalSort\<close>.
\<close>

theorem deployment_order_refused_iff_cyclic:
  assumes "\<And>es. mset (ord es) = mset es"
  shows "if acyclic (depends_on ws) then \<exists>res. ResolveDeploymentOrder ord ws = Ok res
    else ResolveDeploymentOrder ord ws =
      Err (Wrapf ''failed to resolve deployment order: %w'' [] (Errorf ''circular dependency detected'' []))"
  by (rule built.topologicalSort_cases [where ord = ord and ws = ws, OF assms])
     (simp_all add: ResolveDeploymentOrder_def buildDependencyGraph_graph)

text \<open>
  \<open>DetectCycles\<close> terminates and reports nil exactly when the dependencies are
  acyclic; otherwise what it reports is a closed path of dependency edges. This holds for
  every map iteration order of the sort and of the search.
\<close>

theorem detect_cycles_reports_a_real_cycle:
  assumes "\<And>es. mset (ord es) = mset es" "\<And>ns. mset (ord' ns) = mset ns"
  shows "\<exists>r. DetectCycles ord ord' ws = Some r \<and> (r = None \<longleftrightarrow> acyclic (depends_on ws)) \<and>
    (\<forall>c. r = Some c \<longrightarrow> is_cycle (depends_on ws) c)"
proof (rule built.topologicalSort_cases [where ord = ord and ws = ws, OF assms(1)])
  assume sort: "topologicalSort ord (buildDependencyGraph ws) = Err (Errorf ''circular dependency detected'' [])"
    and cyc: "\<not> acyclic (edges (buildDependencyGraph ws))"
  show ?thesis
    by (rule built.findCycle_result [where ord = ord' and ws = ws, OF assms(2)])
       (use sort cyc in \<open>simp_all add: DetectCycles_def buildDependencyGraph_graph\<close>)
qed (simp add: DetectCycles_def buildDependencyGraph_graph)

section \<open>Witnesses\<close>

definition dep_on :: "string \<Rightarrow> Dependency" where
  "dep_on i = \<lparr>dp_WorkloadID = i, dp_Type = [], dp_Condition = [], dp_Timeout = []\<rparr>"

definition with_deps :: "string \<Rightarrow> string list \<Rightarrow> Workload" where
  "with_deps i ds = zero_workload\<lparr>wl_ID := i, wl_Spec := zero_spec\<lparr>sp_Dependencies := map dep_on ds\<rparr>\<rparr>"

lemma deps_example_order:
  "ResolveDeploymentOrder rev [with_deps ''b'' [''a''], with_deps ''a'' []]
     = Ok [with_deps ''a'' [], with_deps ''b'' [''a'']]"
  by (simp add: ResolveDeploymentOrder_def topologicalSort_def buildDependencyGraph_def with_deps_def
        dep_on_def zero_defs add_edge_def adj_def in_degrees_def inc_degree_def deg_def relax_def
        List.map_filter_simps)

theorem deployment_order_is_correct_witness:
  "ResolveDeploymentOrder rev [with_deps ''b'' [''a''], with_deps ''a'' []]
     = Ok [with_deps ''a'' [], with_deps ''b'' [''a'']] \<and>
   mset [with_deps ''a'' [], with_deps ''b'' [''a'']] = mset [with_deps ''b'' [''a''], with_deps ''a'' []]"
  using deployment_order_is_correct [where ord = rev, OF _ _ deps_example_order] deps_example_order
  by (simp add: with_deps_def)

theorem deployment_order_refused_iff_cyclic_witness:
  "if acyclic (depends_on [with_deps ''a'' [''a'']])
   then \<exists>res. ResolveDeploymentOrder rev [with_deps ''a'' [''a'']] = Ok res
   else ResolveDeploymentOrder rev [with_deps ''a'' [''a'']] =
      Err (Wrapf ''failed to resolve deployment order: %w'' [] (Errorf ''circular dependency detected'' []))"
  by (rule deployment_order_refused_iff_cyclic) simp

theorem detect_cycles_reports_a_real_cycle_witness:
  "\<exists>r. DetectCycles rev id [with_deps ''a'' [''b''], with_deps ''b'' [''a'']] = Some r \<and>
     (r = None \<longleftrightarrow> acyclic (depends_on [with_deps ''a'' [''b''], with_deps ''b'' [''a'']])) \<and>
     (\<forall>c. r = Some c \<longrightarrow> is_cycle (depends_on [with_deps ''a'' [''b''], with_deps ''b'' [''a'']]) c)"
  by (rule detect_cycles_reports_a_real_cycle) simp_all

end
