(* ===== verification/EventBus.thy ===== *)
theory EventBus
  imports Types
begin

text \<open>
  \<open>internal/eventbus/eventbus.go\<close>: the typed publish/subscribe bus. A channel is
  identified by \<open>ch_id\<close>; \<open>eb_next\<close> supplies the identity that Go's \<open>make(chan \<dots>)\<close> gives.
  Each operation is one atomic step here (theory \<open>EventBusThreads\<close> models what happens between
  the release of the mutex and the sends); a channel that \<open>Unsubscribe\<close> closes leaves the bus. \<open>PublishAsync\<close> is the non-blocking send to every
  subscriber of the event's type. \<open>Publish\<close> blocks on a full channel until the context is
  done, so it is a relation: no rule applies while it is blocked.

  The lemmas say that publishing keeps every buffer within its capacity and delivers, to
  exactly the subscribers of the type, the longest prefix that fits, in order.
\<close>

record EventBus =
  eb_subscribers :: "(EventType, Event chan list) gomap"
  eb_bufferSize :: nat
  eb_next :: nat

definition eventbus_New :: "nat \<Rightarrow> EventBus" where
  "eventbus_New bufferSize = \<lparr>eb_subscribers = [], eb_bufferSize = bufferSize, eb_next = 0\<rparr>"

definition subs :: "EventBus \<Rightarrow> EventType \<Rightarrow> Event chan list" where
  "subs eb t = (case map_of (eb_subscribers eb) t of None \<Rightarrow> [] | Some cs \<Rightarrow> cs)"

definition set_subs :: "EventType \<Rightarrow> Event chan list \<Rightarrow> EventBus \<Rightarrow> EventBus" where
  "set_subs t cs eb = eb\<lparr>eb_subscribers := AList.update t cs (eb_subscribers eb)\<rparr>"

definition Subscribe :: "EventType \<Rightarrow> EventBus \<Rightarrow> nat \<times> EventBus" where
  "Subscribe t eb =
     (let ch = make_chan (eb_next eb) (eb_bufferSize eb)
      in (ch_id ch, (set_subs t (subs eb t @ [ch]) eb)\<lparr>eb_next := eb_next eb + 1\<rparr>))"

fun remove_chan :: "nat \<Rightarrow> 'a chan list \<Rightarrow> 'a chan list" where
  "remove_chan i [] = []"
| "remove_chan i (c # cs) = (if ch_id c = i then cs else c # remove_chan i cs)"

definition Unsubscribe :: "EventType \<Rightarrow> nat \<Rightarrow> EventBus \<Rightarrow> EventBus" where
  "Unsubscribe t i eb =
     (if i \<in> ch_id ` set (subs eb t) then set_subs t (remove_chan i (subs eb t)) eb else eb)"

inductive publish_loop :: "bool \<Rightarrow> Event \<Rightarrow> Event chan list \<Rightarrow> Event chan list \<Rightarrow> bool \<Rightarrow> bool"
  for cancelled :: bool and ev :: Event where
  all_sent: "publish_loop cancelled ev [] [] True"
| sent: "has_room c \<Longrightarrow> publish_loop cancelled ev cs cs' ok \<Longrightarrow>
    publish_loop cancelled ev (c # cs) (try_send ev c # cs') ok"
| ctx_done: "cancelled \<Longrightarrow> publish_loop cancelled ev (c # cs) (c # cs) False"

inductive_cases publish_loopE: "publish_loop cancelled ev cs cs' ok"

definition Publish :: "bool \<Rightarrow> Event \<Rightarrow> EventBus \<Rightarrow> EventBus \<Rightarrow> bool \<Rightarrow> bool" where
  \<comment> \<open>\<open>ok\<close> is false when \<open>ctx.Err()\<close> is returned\<close>
  "Publish cancelled ev eb eb' ok =
     (\<exists>cs'. publish_loop cancelled ev (subs eb (ev_Type ev)) cs' ok \<and>
        eb' = (if subs eb (ev_Type ev) = [] then eb else set_subs (ev_Type ev) cs' eb))"

definition PublishAsync :: "Event \<Rightarrow> EventBus \<Rightarrow> EventBus" where
  "PublishAsync ev eb =
     (if subs eb (ev_Type ev) = [] then eb
      else set_subs (ev_Type ev) (map (try_send ev) (subs eb (ev_Type ev))) eb)"

section \<open>Delivery\<close>

lemma subs_set_subs [simp]: "subs (set_subs t cs eb) t' = (if t' = t then cs else subs eb t')"
  by (simp add: subs_def set_subs_def update_conv')

lemma subs_next [simp]: "subs (eb\<lparr>eb_next := n\<rparr>) t = subs eb t"
  by (simp add: subs_def)

lemma set_subs_frame [simp, frame_simps]:
  "eb_bufferSize (set_subs t cs eb) = eb_bufferSize eb" "eb_next (set_subs t cs eb) = eb_next eb"
  by (simp_all add: set_subs_def)

lemma subs_PublishAsync:
  "subs (PublishAsync ev eb) t = (if t = ev_Type ev then map (try_send ev) (subs eb t) else subs eb t)"
  by (simp add: PublishAsync_def)

lemma subs_PublishAsync_fold:
  "subs (fold PublishAsync evs eb) t = map (fold try_send (filter (\<lambda>ev. ev_Type ev = t) evs)) (subs eb t)"
  by (induction evs arbitrary: eb) (auto simp: subs_PublishAsync)

definition bus_inv :: "EventBus \<Rightarrow> bool" where
  "bus_inv eb =
     (wf_map (eb_subscribers eb) \<and>
      (\<forall>t. \<forall>c \<in> set (subs eb t). chan_ok c \<and> ch_cap c = eb_bufferSize eb \<and> ch_id c < eb_next eb) \<and>
      (\<forall>t. distinct (map ch_id (subs eb t))))"

lemma remove_chan_subset: "set (remove_chan i cs) \<subseteq> set cs"
  by (induction cs) auto

lemma remove_chan_ids:
  "distinct (map ch_id cs) \<Longrightarrow> map ch_id (remove_chan i cs) = filter (\<lambda>j. j \<noteq> i) (map ch_id cs)"
  by (induction cs) (auto simp: filter_id_conv intro!: filter_True [symmetric])

lemma wf_set_subs [simp]: "wf_map (eb_subscribers eb) \<Longrightarrow> wf_map (eb_subscribers (set_subs t cs eb))"
  by (simp add: set_subs_def)

lemma eventbus_New_inv [inv_intros]: "bus_inv (eventbus_New n)"
  by (simp add: bus_inv_def eventbus_New_def subs_def)

lemma Subscribe_inv [inv_intros]: "bus_inv eb \<Longrightarrow> bus_inv (snd (Subscribe t eb))"
  by (fastforce simp: bus_inv_def Subscribe_def Let_def make_chan_def chan_ok_def)

lemma Unsubscribe_inv [inv_intros]:
  assumes "bus_inv eb"
  shows "bus_inv (Unsubscribe t i eb)"
  using assms remove_chan_subset [of i "subs eb t"]
  by (auto simp: bus_inv_def Unsubscribe_def remove_chan_ids)

lemma ch_ids_try_send [simp]: "map (ch_id \<circ> try_send ev) cs = map ch_id cs"
  by simp

lemma PublishAsync_inv [inv_intros]: "bus_inv eb \<Longrightarrow> bus_inv (PublishAsync ev eb)"
  by (auto simp: bus_inv_def PublishAsync_def comp_def)

lemma publish_loop_uncancelled:
  "publish_loop False ev cs cs' ok \<longleftrightarrow> ok \<and> list_all has_room cs \<and> cs' = map (try_send ev) cs"
proof (induction cs arbitrary: cs' ok)
  case Nil
  show ?case by (auto elim: publish_loopE intro: publish_loop.intros)
next
  case (Cons c cs)
  show ?case by (auto elim!: publish_loopE [of _ _ "c # cs"] simp: Cons.IH intro: publish_loop.intros)
qed

text \<open>
  The bus delivers in order and drops only at the capacity: after any sequence of
  \<open>PublishAsync\<close> calls, each subscription of type \<open>t\<close> holds what it held before, followed
  by the longest prefix of the published events of type \<open>t\<close> that fits in its buffer;
  events of other types never reach it.
\<close>

theorem publish_delivers_longest_prefix:
  assumes "i < length (subs eb t)"
  shows "ch_buf (subs (fold PublishAsync evs eb) t ! i) =
    ch_buf (subs eb t ! i) @
      take (ch_cap (subs eb t ! i) - length (ch_buf (subs eb t ! i))) (filter (\<lambda>ev. ev_Type ev = t) evs)"
  using assms by (simp add: subs_PublishAsync_fold chan_mb.contents_sends)

definition bus_event :: "EventType \<Rightarrow> int \<Rightarrow> Event" where
  "bus_event t n = \<lparr>ev_Type = t, ev_Workload = None, ev_Timestamp = n, ev_Metadata = []\<rparr>"

theorem publish_delivers_longest_prefix_witness:
  "ch_buf (subs (fold PublishAsync [bus_event WorkloadFailed 1, bus_event WorkloadScaled 2, bus_event WorkloadFailed 3]
       (snd (Subscribe WorkloadFailed (eventbus_New 1)))) WorkloadFailed ! 0) = [bus_event WorkloadFailed 1]"
  using publish_delivers_longest_prefix
    [of 0 "snd (Subscribe WorkloadFailed (eventbus_New 1))" WorkloadFailed
        "[bus_event WorkloadFailed 1, bus_event WorkloadScaled 2, bus_event WorkloadFailed 3]"]
  by (simp add: Subscribe_def eventbus_New_def subs_def set_subs_def make_chan_def bus_event_def)

end
