(* ===== verification/World.thy ===== *)
theory World
  imports EventBus
begin

text \<open>
  The shared mutable state of one \<open>kranix-core\<close> process, as \<open>cmd/core/main.go\<close> wires it:
  the Go heap of workload objects, the in-memory store, the event log, the event bus,
  the clock and the random source, and the trace of the calls made to runtime drivers.

  \<^item> \<open>*types.Workload\<close> is an address; \<open>deref\<close> and \<open>assign\<close> read and write the object.
    The store keeps addresses, so a caller that mutates what \<open>Get\<close> returned mutates the
    stored workload, as in the code.
  \<^item> \<open>time.Now()\<close> reads \<open>wd_clock\<close> at a position that only moves forward; \<open>uuid.New()\<close> and
    \<open>rand.Read\<close> draw from \<open>wd_ids\<close> in the same way. Both are arbitrary.
  \<^item> A runtime driver is code outside this repository. It is a parameter: the answers it
    gives are functions of the calls made to it so far and of the argument. The model
    passes the workload by value, so a driver that writes through the pointer is not
    covered.
\<close>

record EventStore =
  es_Enabled :: bool
  es_MaxEventAge :: int
  es_events :: "(string, DomainEvent list) gomap"
  es_watchers :: "(string, DomainEvent chan list) gomap"

record MemoryStore =
  ms_workloads :: "(string, addr) gomap"
  ms_watchers :: "Event chan list"
  ms_eventStore :: bool

datatype DriverCall =
    CallDeploy Workload
  | CallUpdate Workload
  | CallDelete string
  | CallGetStatus string
  | CallRestart Workload

type_synonym driver_trace = "(string \<times> DriverCall) list"

record world =
  wd_heap :: "addr \<Rightarrow> Workload"
  wd_fresh :: addr
  wd_clock :: "nat \<Rightarrow> gotime"
  wd_ticks :: nat
  wd_ids :: "nat \<Rightarrow> string"
  wd_drawn :: nat
  wd_bus :: EventBus
  wd_log :: EventStore
  wd_mem :: MemoryStore
  wd_chans :: nat
  wd_calls :: driver_trace

record RuntimeDriver =
  drv_Name :: string
  drv_Deploy :: "driver_trace \<Rightarrow> Workload \<Rightarrow> error option"
  drv_Update :: "driver_trace \<Rightarrow> Workload \<Rightarrow> error option"
  drv_Delete :: "driver_trace \<Rightarrow> string \<Rightarrow> error option"
  drv_GetStatus :: "driver_trace \<Rightarrow> string \<Rightarrow> (error, WorkloadStatus) result"
  drv_Restart :: "driver_trace \<Rightarrow> Workload \<Rightarrow> error option"

section \<open>Heap, clock, identifiers\<close>

abbreviation deref :: "world \<Rightarrow> addr \<Rightarrow> Workload" where
  "deref s a \<equiv> wd_heap s a"

definition assign :: "addr \<Rightarrow> Workload \<Rightarrow> world \<Rightarrow> world" where
  "assign a w s = s\<lparr>wd_heap := (wd_heap s)(a := w)\<rparr>"

definition modify :: "addr \<Rightarrow> (Workload \<Rightarrow> Workload) \<Rightarrow> world \<Rightarrow> world" where
  "modify a f s = assign a (f (deref s a)) s"

definition alloc :: "Workload \<Rightarrow> world \<Rightarrow> addr \<times> world" where
  "alloc w s = (wd_fresh s, (assign (wd_fresh s) w s)\<lparr>wd_fresh := Suc (wd_fresh s)\<rparr>)"

definition time_Now :: "world \<Rightarrow> gotime \<times> world" where
  "time_Now s = (wd_clock s (wd_ticks s), s\<lparr>wd_ticks := Suc (wd_ticks s)\<rparr>)"

definition new_ID :: "world \<Rightarrow> string \<times> world" where
  "new_ID s = (wd_ids s (wd_drawn s), s\<lparr>wd_drawn := Suc (wd_drawn s)\<rparr>)"

definition Unix :: "gotime \<Rightarrow> int" where
  "Unix t = t div second"

definition publish :: "Event \<Rightarrow> world \<Rightarrow> world" where
  "publish ev s = s\<lparr>wd_bus := PublishAsync ev (wd_bus s)\<rparr>"

definition workload_event :: "EventType \<Rightarrow> addr \<Rightarrow> Event" where
  \<comment> \<open>\<open>types.Event{Type: t, Workload: w}\<close>\<close>
  "workload_event t a = \<lparr>ev_Type = t, ev_Workload = Some a, ev_Timestamp = 0, ev_Metadata = []\<rparr>"

definition call_driver :: "RuntimeDriver \<Rightarrow> DriverCall \<Rightarrow> world \<Rightarrow> world" where
  "call_driver d c s = s\<lparr>wd_calls := wd_calls s @ [(drv_Name d, c)]\<rparr>"

definition driver_Deploy :: "RuntimeDriver \<Rightarrow> addr \<Rightarrow> world \<Rightarrow> error option \<times> world" where
  "driver_Deploy d a s =
     (drv_Deploy d (wd_calls s) (deref s a), call_driver d (CallDeploy (deref s a)) s)"

definition driver_Restart :: "RuntimeDriver \<Rightarrow> addr \<Rightarrow> world \<Rightarrow> error option \<times> world" where
  "driver_Restart d a s =
     (drv_Restart d (wd_calls s) (deref s a), call_driver d (CallRestart (deref s a)) s)"

lemma assign_frame [simp, frame_simps]:
  "wd_heap (assign a w s) = (wd_heap s)(a := w)"
  "wd_fresh (assign a w s) = wd_fresh s" "wd_clock (assign a w s) = wd_clock s"
  "wd_ticks (assign a w s) = wd_ticks s" "wd_ids (assign a w s) = wd_ids s"
  "wd_drawn (assign a w s) = wd_drawn s" "wd_bus (assign a w s) = wd_bus s"
  "wd_log (assign a w s) = wd_log s" "wd_mem (assign a w s) = wd_mem s"
  "wd_calls (assign a w s) = wd_calls s"
  by (simp_all add: assign_def)

lemma modify_frame [simp, frame_simps]:
  "wd_heap (modify a f s) = (wd_heap s)(a := f (deref s a))"
  "wd_fresh (modify a f s) = wd_fresh s" "wd_clock (modify a f s) = wd_clock s"
  "wd_ticks (modify a f s) = wd_ticks s" "wd_ids (modify a f s) = wd_ids s"
  "wd_drawn (modify a f s) = wd_drawn s" "wd_bus (modify a f s) = wd_bus s"
  "wd_log (modify a f s) = wd_log s" "wd_mem (modify a f s) = wd_mem s"
  "wd_calls (modify a f s) = wd_calls s"
  by (simp_all add: modify_def)

lemma alloc_frame [simp, frame_simps]:
  "fst (alloc w s) = wd_fresh s" "wd_heap (snd (alloc w s)) = (wd_heap s)(wd_fresh s := w)"
  "wd_mem (snd (alloc w s)) = wd_mem s" "wd_calls (snd (alloc w s)) = wd_calls s"
  "wd_fresh (snd (alloc w s)) = Suc (wd_fresh s)" "wd_bus (snd (alloc w s)) = wd_bus s"
  by (simp_all add: alloc_def)

lemma time_Now_frame [simp, frame_simps]:
  "fst (time_Now s) = wd_clock s (wd_ticks s)"
  "wd_heap (snd (time_Now s)) = wd_heap s" "wd_fresh (snd (time_Now s)) = wd_fresh s"
  "wd_clock (snd (time_Now s)) = wd_clock s" "wd_ticks (snd (time_Now s)) = Suc (wd_ticks s)"
  "wd_ids (snd (time_Now s)) = wd_ids s" "wd_drawn (snd (time_Now s)) = wd_drawn s"
  "wd_bus (snd (time_Now s)) = wd_bus s" "wd_log (snd (time_Now s)) = wd_log s"
  "wd_mem (snd (time_Now s)) = wd_mem s" "wd_calls (snd (time_Now s)) = wd_calls s"
  by (simp_all add: time_Now_def)

lemma new_ID_frame [simp, frame_simps]:
  "fst (new_ID s) = wd_ids s (wd_drawn s)"
  "wd_heap (snd (new_ID s)) = wd_heap s" "wd_fresh (snd (new_ID s)) = wd_fresh s"
  "wd_clock (snd (new_ID s)) = wd_clock s" "wd_ticks (snd (new_ID s)) = wd_ticks s"
  "wd_ids (snd (new_ID s)) = wd_ids s" "wd_drawn (snd (new_ID s)) = Suc (wd_drawn s)"
  "wd_bus (snd (new_ID s)) = wd_bus s" "wd_log (snd (new_ID s)) = wd_log s"
  "wd_mem (snd (new_ID s)) = wd_mem s" "wd_calls (snd (new_ID s)) = wd_calls s"
  by (simp_all add: new_ID_def)

lemma publish_frame [simp, frame_simps]:
  "wd_heap (publish ev s) = wd_heap s" "wd_fresh (publish ev s) = wd_fresh s"
  "wd_clock (publish ev s) = wd_clock s" "wd_ticks (publish ev s) = wd_ticks s"
  "wd_ids (publish ev s) = wd_ids s" "wd_drawn (publish ev s) = wd_drawn s"
  "wd_log (publish ev s) = wd_log s" "wd_mem (publish ev s) = wd_mem s"
  "wd_calls (publish ev s) = wd_calls s" "wd_bus (publish ev s) = PublishAsync ev (wd_bus s)"
  by (simp_all add: publish_def)

lemma call_driver_frame [simp, frame_simps]:
  "wd_heap (call_driver d c s) = wd_heap s" "wd_fresh (call_driver d c s) = wd_fresh s"
  "wd_clock (call_driver d c s) = wd_clock s" "wd_ticks (call_driver d c s) = wd_ticks s"
  "wd_log (call_driver d c s) = wd_log s" "wd_mem (call_driver d c s) = wd_mem s"
  "wd_bus (call_driver d c s) = wd_bus s"
  "wd_calls (call_driver d c s) = wd_calls s @ [(drv_Name d, c)]"
  by (simp_all add: call_driver_def)

end
