(* ===== verification/EventSourcing.thy ===== *)
theory EventSourcing
  imports World
begin

text \<open>
  \<open>internal/eventsourcing/store.go\<close>: the append-only log of domain events, one list per
  aggregate, with a version number per event. Every method is a definition on the world
  (\<open>Append\<close> draws an id, reads the clock and publishes on the bus). A stored event is only
  written by \<open>Append\<close>, so it is a value; the specs and labels in its data are copies of
  the workload's fields at that moment, except \<open>old_spec\<close>, which the code passes as a
  pointer into the old workload (\<open>ASpecPtr\<close>).

  The lemmas: versions of an aggregate increase strictly over every sequence of appends
  and cleanups and are \<open>1, 2, \<dots>\<close> as long as nothing is cleaned up; reading returns what
  was appended, from a version and up to a limit; a cleanup that empties an aggregate
  restarts its numbering.
\<close>

definition eventsourcing_New :: "bool \<Rightarrow> int \<Rightarrow> EventStore" where
  "eventsourcing_New enabled maxEventAge =
     \<lparr>es_Enabled = enabled, es_MaxEventAge = maxEventAge, es_events = [], es_watchers = []\<rparr>"

definition log_of :: "EventStore \<Rightarrow> string \<Rightarrow> DomainEvent list" where
  "log_of es agg = (case map_of (es_events es) agg of None \<Rightarrow> [] | Some evs \<Rightarrow> evs)"

definition next_version :: "DomainEvent list \<Rightarrow> int" where
  "next_version evs = (if evs \<noteq> [] then de_Version (last evs) + 1 else 1)"

definition set_log :: "string \<Rightarrow> DomainEvent list \<Rightarrow> EventStore \<Rightarrow> EventStore" where
  "set_log agg evs es = es\<lparr>es_events := AList.update agg evs (es_events es)\<rparr>"

definition notifyWatchers :: "DomainEvent \<Rightarrow> EventStore \<Rightarrow> EventStore" where
  "notifyWatchers ev es = (case map_of (es_watchers es) (de_Aggregate ev) of
     None \<Rightarrow> es
   | Some cs \<Rightarrow> es\<lparr>es_watchers := AList.update (de_Aggregate ev) (map (try_send ev) cs) (es_watchers es)\<rparr>)"

definition stored_event :: "gotime \<Rightarrow> DomainEvent \<Rightarrow> Event" where
  "stored_event now ev = \<lparr>ev_Type = EventStored, ev_Workload = None, ev_Timestamp = Unix now,
     ev_Metadata = [(''event_id'', AStr (de_ID ev)), (''aggregate_id'', AStr (de_Aggregate ev)),
                    (''event_type'', AStr (de_Type ev)), (''version'', AInt (de_Version ev))]\<rparr>"

definition Append :: "DomainEvent \<Rightarrow> world \<Rightarrow> world" where
  "Append ev0 s0 =
     (if \<not> es_Enabled (wd_log s0) then s0
      else
        let (ev1, s1) = (if de_ID ev0 = [] then let (i, s) = new_ID s0 in (ev0\<lparr>de_ID := i\<rparr>, s) else (ev0, s0));
            (ev2, s2) = (if de_Timestamp ev1 = zero_time
                         then let (t, s) = time_Now s1 in (ev1\<lparr>de_Timestamp := t\<rparr>, s) else (ev1, s1));
            aggregateEvents = log_of (wd_log s2) (de_Aggregate ev2);
            ev = ev2\<lparr>de_Version := next_version aggregateEvents\<rparr>;
            s3 = s2\<lparr>wd_log := set_log (de_Aggregate ev) (aggregateEvents @ [ev]) (wd_log s2)\<rparr>;
            (now, s4) = time_Now s3;
            s5 = publish (stored_event now ev) s4
        in s5\<lparr>wd_log := notifyWatchers ev (wd_log s5)\<rparr>)"

fun get_loop :: "int \<Rightarrow> int \<Rightarrow> DomainEvent list \<Rightarrow> DomainEvent list \<Rightarrow> DomainEvent list" where
  "get_loop fromVersion limit result [] = result"
| "get_loop fromVersion limit result (ev # evs) =
     (if de_Version ev \<ge> fromVersion then
        let result' = result @ [ev]
        in if limit > 0 \<and> int (length result') \<ge> limit then result'
           else get_loop fromVersion limit result' evs
      else get_loop fromVersion limit result evs)"

definition GetEvents :: "string \<Rightarrow> int \<Rightarrow> int \<Rightarrow> world \<Rightarrow> DomainEvent list" where
  "GetEvents agg fromVersion limit s = (case map_of (es_events (wd_log s)) agg of
     None \<Rightarrow> []
   | Some evs \<Rightarrow> get_loop fromVersion limit [] evs)"

definition GetEvent :: "string \<Rightarrow> world \<Rightarrow> (error, DomainEvent) result" where
  "GetEvent eventID s =
     (case List.find (\<lambda>ev. de_ID ev = eventID) (concat (map snd (es_events (wd_log s)))) of
        Some ev \<Rightarrow> Ok ev
      | None \<Rightarrow> Err (Errorf ''event not found: %s'' [Str eventID]))"

definition Replay :: "string \<Rightarrow> world \<Rightarrow> DomainEvent list \<times> world" where
  "Replay agg s =
     (let evs = GetEvents agg 0 0 s;
          (now, s1) = time_Now s
      in (evs, publish \<lparr>ev_Type = EventReplayed, ev_Workload = None, ev_Timestamp = Unix now,
                 ev_Metadata = [(''aggregate_id'', AStr agg), (''event_count'', AInt (int (length evs)))]\<rparr> s1))"

definition log_Subscribe :: "string \<Rightarrow> world \<Rightarrow> nat \<times> world" where
  "log_Subscribe agg s =
     (let ch = make_chan (wd_chans s) 100;
          cs = (case map_of (es_watchers (wd_log s)) agg of None \<Rightarrow> [] | Some cs \<Rightarrow> cs)
      in (ch_id ch, s\<lparr>wd_chans := Suc (wd_chans s),
            wd_log := (wd_log s)\<lparr>es_watchers := AList.update agg (cs @ [ch]) (es_watchers (wd_log s))\<rparr>\<rparr>))"

section \<open>Recording workload events\<close>

definition domain_event :: "string \<Rightarrow> string \<Rightarrow> metadata \<Rightarrow> (string \<times> string) list \<Rightarrow> DomainEvent" where
  "domain_event agg ty data meta = \<lparr>de_ID = [], de_Aggregate = agg, de_AggregateType = ''workload'',
     de_Type = ty, de_Version = 0, de_Timestamp = zero_time, de_Data = data, de_Metadata = meta\<rparr>"

definition RecordWorkloadCreated :: "addr \<Rightarrow> world \<Rightarrow> world" where
  "RecordWorkloadCreated a s =
     (let w = deref s a
      in Append (domain_event (wl_ID w) ''WorkloadCreated''
           [(''workload_id'', AStr (wl_ID w)), (''workload_name'', AStr (wl_Name w)),
            (''namespace'', AStr (wl_Namespace w)), (''spec'', ASpec (wl_Spec w)),
            (''labels'', ALabels (wl_Labels w))]
           [(''namespace'', wl_Namespace w)]) s)"

definition RecordWorkloadUpdated :: "addr \<Rightarrow> addr \<Rightarrow> world \<Rightarrow> world" where
  \<comment> \<open>the second address is that of the workload \<open>oldSpec\<close> points into\<close>
  "RecordWorkloadUpdated a old s =
     (let w = deref s a
      in Append (domain_event (wl_ID w) ''WorkloadUpdated''
           [(''workload_id'', AStr (wl_ID w)), (''workload_name'', AStr (wl_Name w)),
            (''namespace'', AStr (wl_Namespace w)), (''new_spec'', ASpec (wl_Spec w)),
            (''old_spec'', ASpecPtr old)]
           [(''namespace'', wl_Namespace w)]) s)"

definition RecordWorkloadDeleted :: "addr \<Rightarrow> world \<Rightarrow> world" where
  "RecordWorkloadDeleted a s =
     (let w = deref s a
      in Append (domain_event (wl_ID w) ''WorkloadDeleted''
           [(''workload_id'', AStr (wl_ID w)), (''workload_name'', AStr (wl_Name w)),
            (''namespace'', AStr (wl_Namespace w))]
           [(''namespace'', wl_Namespace w)]) s)"

definition RecordWorkloadPhaseTransition ::
  "addr \<Rightarrow> WorkloadPhase \<Rightarrow> WorkloadPhase \<Rightarrow> string \<Rightarrow> world \<Rightarrow> world" where
  "RecordWorkloadPhaseTransition a fromPhase toPhase reason s =
     (let w = deref s a
      in Append (domain_event (wl_ID w) ''WorkloadPhaseTransition''
           [(''workload_id'', AStr (wl_ID w)), (''workload_name'', AStr (wl_Name w)),
            (''namespace'', AStr (wl_Namespace w)), (''from_phase'', AStr fromPhase),
            (''to_phase'', AStr toPhase), (''reason'', AStr reason)]
           [(''namespace'', wl_Namespace w)]) s)"

definition RecordWorkloadDriftDetected :: "DriftReport \<Rightarrow> world \<Rightarrow> world" where
  "RecordWorkloadDriftDetected r s =
     Append (domain_event (dr_WorkloadID r) ''WorkloadDriftDetected''
       [(''workload_id'', AStr (dr_WorkloadID r)), (''workload_name'', AStr (dr_WorkloadName r)),
        (''namespace'', AStr (dr_Namespace r)), (''drifted_fields'', AFields (dr_DriftedFields r)),
        (''severity'', AStr (dr_Severity r)), (''message'', AText (dr_Message r))]
       [(''namespace'', dr_Namespace r), (''severity'', dr_Severity r)]) s"

definition RecordWorkloadDriftReconciled :: "DriftReport \<Rightarrow> world \<Rightarrow> world" where
  "RecordWorkloadDriftReconciled r s =
     Append (domain_event (dr_WorkloadID r) ''WorkloadDriftReconciled''
       [(''workload_id'', AStr (dr_WorkloadID r)), (''workload_name'', AStr (dr_WorkloadName r)),
        (''namespace'', AStr (dr_Namespace r)), (''drifted_fields'', AFields (dr_DriftedFields r))]
       [(''namespace'', dr_Namespace r)]) s"

definition RecordWorkloadScaled :: "addr \<Rightarrow> int32 \<Rightarrow> int32 \<Rightarrow> string \<Rightarrow> world \<Rightarrow> world" where
  "RecordWorkloadScaled a oldReplicas newReplicas reason s =
     (let w = deref s a
      in Append (domain_event (wl_ID w) ''WorkloadScaled''
           [(''workload_id'', AStr (wl_ID w)), (''workload_name'', AStr (wl_Name w)),
            (''namespace'', AStr (wl_Namespace w)), (''old_replicas'', AI32 oldReplicas),
            (''new_replicas'', AI32 newReplicas), (''reason'', AStr reason)]
           [(''namespace'', wl_Namespace w)]) s)"

definition GetWorkloadHistory :: "string \<Rightarrow> world \<Rightarrow> DomainEvent list" where
  "GetWorkloadHistory workloadID s = GetEvents workloadID 0 0 s"

definition RecordSecretRotated :: "addr \<Rightarrow> string \<Rightarrow> string \<Rightarrow> world \<Rightarrow> world" where
  "RecordSecretRotated a secretName version s =
     (let w = deref s a
      in Append (domain_event (wl_ID w) ''WorkloadSecretRotated''
           [(''workload_id'', AStr (wl_ID w)), (''secret_name'', AStr secretName),
            (''secret_version'', AStr version), (''namespace'', AStr (wl_Namespace w))]
           [(''namespace'', wl_Namespace w)]) s)"

definition RecordWorkloadRestarted :: "addr \<Rightarrow> string \<Rightarrow> world \<Rightarrow> world" where
  "RecordWorkloadRestarted a reason s =
     (let w = deref s a
      in Append (domain_event (wl_ID w) ''WorkloadRestarted''
           [(''workload_id'', AStr (wl_ID w)), (''reason'', AStr reason),
            (''restart_generation'', AI32 (st_RestartGeneration (wl_Status w))),
            (''namespace'', AStr (wl_Namespace w))]
           [(''namespace'', wl_Namespace w)]) s)"

fun list_type_loop :: "string \<Rightarrow> int \<Rightarrow> DomainEvent list \<Rightarrow> DomainEvent list \<Rightarrow> DomainEvent list" where
  "list_type_loop ty limit out [] = out"
| "list_type_loop ty limit out (ev # evs) =
     (if de_AggregateType ev = ty then
        let out' = out @ [ev]
        in if limit > 0 \<and> int (length out') \<ge> limit then out' else list_type_loop ty limit out' evs
      else list_type_loop ty limit out evs)"

definition ListByResourceType :: "string \<Rightarrow> int \<Rightarrow> world \<Rightarrow> DomainEvent list" where
  "ListByResourceType ty limit s = list_type_loop ty limit [] (concat (map snd (es_events (wd_log s))))"

definition CleanupOldEvents :: "world \<Rightarrow> world" where
  "CleanupOldEvents s =
     (if es_MaxEventAge (wd_log s) \<le> 0 then s
      else
        let (now, s1) = time_Now s;
            cutoff = now - es_MaxEventAge (wd_log s)
        in s1\<lparr>wd_log := (wd_log s1)\<lparr>es_events :=
             map (\<lambda>(agg, evs). (agg, filter (\<lambda>ev. de_Timestamp ev > cutoff) evs)) (es_events (wd_log s1))\<rparr>\<rparr>)"

section \<open>Effect of an append\<close>

definition stamped :: "world \<Rightarrow> DomainEvent \<Rightarrow> DomainEvent" where
  \<comment> \<open>the event as \<open>Append\<close> stores it\<close>
  "stamped s ev = ev\<lparr>
     de_ID := (if de_ID ev = [] then wd_ids s (wd_drawn s) else de_ID ev),
     de_Timestamp := (if de_Timestamp ev = zero_time then wd_clock s (wd_ticks s) else de_Timestamp ev),
     de_Version := next_version (log_of (wd_log s) (de_Aggregate ev))\<rparr>"

lemma stamped_fields [simp]:
  "de_Aggregate (stamped s ev) = de_Aggregate ev" "de_AggregateType (stamped s ev) = de_AggregateType ev"
  "de_Type (stamped s ev) = de_Type ev" "de_Data (stamped s ev) = de_Data ev"
  "de_Metadata (stamped s ev) = de_Metadata ev"
  "de_Version (stamped s ev) = next_version (log_of (wd_log s) (de_Aggregate ev))"
  by (simp_all add: stamped_def)

lemma log_of_set_log [simp]: "log_of (set_log agg evs es) a = (if a = agg then evs else log_of es a)"
  by (simp add: log_of_def set_log_def update_conv')

lemma notifyWatchers_frame [simp, frame_simps]:
  "es_events (notifyWatchers ev es) = es_events es" "es_Enabled (notifyWatchers ev es) = es_Enabled es"
  "es_MaxEventAge (notifyWatchers ev es) = es_MaxEventAge es"
  "log_of (notifyWatchers ev es) a = log_of es a"
  by (simp_all add: notifyWatchers_def log_of_def split: option.splits)

lemma set_log_frame [simp, frame_simps]:
  "es_Enabled (set_log a evs es) = es_Enabled es" "es_MaxEventAge (set_log a evs es) = es_MaxEventAge es"
  "es_watchers (set_log a evs es) = es_watchers es"
  by (simp_all add: set_log_def)

lemma log_of_watchers [simp]: "log_of (es\<lparr>es_watchers := ws\<rparr>) a = log_of es a"
  by (simp add: log_of_def)

lemma Append_log:
  "es_events (wd_log (Append ev s)) =
     (if es_Enabled (wd_log s)
      then AList.update (de_Aggregate ev) (log_of (wd_log s) (de_Aggregate ev) @ [stamped s ev]) (es_events (wd_log s))
      else es_events (wd_log s))"
  by (simp add: Append_def Let_def split_beta stamped_def set_log_def)

lemma Append_log_of:
  "log_of (wd_log (Append ev s)) a =
     (if es_Enabled (wd_log s) \<and> a = de_Aggregate ev then log_of (wd_log s) a @ [stamped s ev]
      else log_of (wd_log s) a)"
  unfolding log_of_def Append_log by (simp add: update_conv' log_of_def)

lemma Append_frame [simp, frame_simps]:
  "wd_heap (Append ev s) = wd_heap s" "wd_fresh (Append ev s) = wd_fresh s"
  "wd_mem (Append ev s) = wd_mem s" "wd_calls (Append ev s) = wd_calls s"
  "wd_clock (Append ev s) = wd_clock s" "wd_ids (Append ev s) = wd_ids s"
  "es_Enabled (wd_log (Append ev s)) = es_Enabled (wd_log s)"
  "es_MaxEventAge (wd_log (Append ev s)) = es_MaxEventAge (wd_log s)"
  by (simp_all add: Append_def Let_def split_beta)

lemmas record_defs = RecordWorkloadCreated_def RecordWorkloadUpdated_def RecordWorkloadDeleted_def
  RecordSecretRotated_def RecordWorkloadRestarted_def RecordWorkloadScaled_def
  RecordWorkloadDriftDetected_def RecordWorkloadDriftReconciled_def RecordWorkloadPhaseTransition_def

section \<open>Version numbers\<close>

definition log_inv :: "EventStore \<Rightarrow> bool" where
  "log_inv es =
     (wf_map (es_events es) \<and>
      (\<forall>agg. sorted_wrt (<) (map de_Version (log_of es agg)) \<and>
         (\<forall>ev \<in> set (log_of es agg). de_Aggregate ev = agg \<and> 1 \<le> de_Version ev)))"

lemma next_version_above:
  assumes "sorted_wrt (<) (map de_Version evs)" "ev \<in> set evs"
  shows "de_Version ev < next_version evs"
proof -
  obtain ys y where evs: "evs = ys @ [y]" using assms(2) by (cases evs rule: rev_cases) auto
  show ?thesis using assms by (auto simp: evs next_version_def sorted_wrt_append)
qed

lemma next_version_positive:
  "(\<And>ev. ev \<in> set evs \<Longrightarrow> 1 \<le> de_Version ev) \<Longrightarrow> 1 \<le> next_version evs"
  by (cases evs rule: rev_cases) (force simp: next_version_def)+

lemma eventsourcing_New_inv [inv_intros]: "log_inv (eventsourcing_New enabled age)"
  by (simp add: log_inv_def eventsourcing_New_def log_of_def)

lemma Append_inv [inv_intros]:
  assumes "log_inv (wd_log s)"
  shows "log_inv (wd_log (Append ev s))"
  using assms next_version_above next_version_positive
  by (auto simp: log_inv_def Append_log_of Append_log sorted_wrt_append)

lemma log_of_Cleanup:
  assumes "wf_map (es_events (wd_log s))" "0 < es_MaxEventAge (wd_log s)"
  shows "log_of (wd_log (CleanupOldEvents s)) a =
    filter (\<lambda>ev. de_Timestamp ev > wd_clock s (wd_ticks s) - es_MaxEventAge (wd_log s)) (log_of (wd_log s) a)"
proof -
  have "map_of (map (\<lambda>(agg, evs). (agg, filter P evs)) m) a = map_option (filter P) (map_of m a)"
    for P :: "DomainEvent \<Rightarrow> bool" and m :: "(string, DomainEvent list) gomap"
    by (induction m) auto
  then show ?thesis
    using assms by (simp add: CleanupOldEvents_def Let_def split_beta log_of_def split: option.splits)
qed

lemma Cleanup_inv [inv_intros]:
  assumes "log_inv (wd_log s)"
  shows "log_inv (wd_log (CleanupOldEvents s))"
proof (cases "0 < es_MaxEventAge (wd_log s)")
  case True
  have "wf_map (es_events (wd_log (CleanupOldEvents s)))"
    using assms True
    by (simp add: CleanupOldEvents_def Let_def split_beta log_inv_def wf_map_def comp_def)
  moreover have "log_of (wd_log (CleanupOldEvents s)) a =
      filter (\<lambda>ev. de_Timestamp ev > wd_clock s (wd_ticks s) - es_MaxEventAge (wd_log s)) (log_of (wd_log s) a)" for a
    using assms True by (intro log_of_Cleanup) (auto simp: log_inv_def)
  ultimately show ?thesis
    using assms by (auto simp: log_inv_def sorted_wrt_map intro!: sorted_wrt_filter)
next
  case False
  then show ?thesis using assms by (simp add: CleanupOldEvents_def)
qed

datatype log_op = OpAppend DomainEvent | OpCleanup | OpReplay string | OpSubscribe string

fun log_run :: "log_op \<Rightarrow> world \<Rightarrow> world" where
  "log_run (OpAppend ev) s = Append ev s"
| "log_run OpCleanup s = CleanupOldEvents s"
| "log_run (OpReplay agg) s = snd (Replay agg s)"
| "log_run (OpSubscribe agg) s = snd (log_Subscribe agg s)"

lemma log_run_inv [inv_intros]: "log_inv (wd_log s) \<Longrightarrow> log_inv (wd_log (log_run op s))"
  by (cases op) (auto simp: Replay_def log_Subscribe_def Let_def split_beta log_inv_def [of "_\<lparr>es_watchers := _\<rparr>"]
      log_inv_def [of "wd_log s"] intro: Append_inv Cleanup_inv)

lemma log_runs_inv: "log_inv (wd_log s) \<Longrightarrow> log_inv (wd_log (fold log_run ops s))"
  by (induction ops arbitrary: s) (auto intro: log_run_inv)

text \<open>
  C10. The event log never reorders or duplicates history: after any sequence of appends,
  cleanups, replays and subscriptions, starting from an empty store, each aggregate's
  list holds only its own events with strictly increasing positive versions.
\<close>

theorem event_log_versions_increase:
  assumes "wd_log s = eventsourcing_New enabled age"
  shows "sorted_wrt (<) (map de_Version (log_of (wd_log (fold log_run ops s)) agg)) \<and>
    (\<forall>ev \<in> set (log_of (wd_log (fold log_run ops s)) agg). de_Aggregate ev = agg \<and> 1 \<le> de_Version ev)"
proof -
  have "log_inv (wd_log s)" by (simp only: assms eventsourcing_New_inv)
  from log_runs_inv [OF this, of ops] show ?thesis unfolding log_inv_def by blast
qed

section \<open>Reading back\<close>

lemma get_loop_eq:
  "limit \<le> 0 \<or> int (length result) < limit \<Longrightarrow>
   get_loop from limit result evs =
     result @ (if 0 < limit then take (nat limit - length result) else id)
       (filter (\<lambda>ev. from \<le> de_Version ev) evs)"
proof (induction evs arbitrary: result)
  case (Cons ev evs)
  show ?case
  proof (cases "from \<le> de_Version ev \<and> 0 < limit")
    case True
    then have "nat limit - length result = Suc (nat limit - Suc (length result))" using Cons.prems by auto
    then show ?thesis using True Cons.prems Cons.IH [of "result @ [ev]"] by (auto simp: Let_def)
  next
    case False
    then show ?thesis using Cons.prems Cons.IH [of "result @ [ev]"] Cons.IH [of result] by (auto simp: Let_def)
  qed
qed simp

lemma GetEvents_eq:
  "GetEvents agg from limit s =
     (if 0 < limit then take (nat limit) else id) (filter (\<lambda>ev. from \<le> de_Version ev) (log_of (wd_log s) agg))"
  using get_loop_eq [of limit "[]" "from"] by (cases "map_of (es_events (wd_log s)) agg") (auto simp: GetEvents_def log_of_def)

text \<open>
  Write then read: an append to an enabled store is read back as the last event of its
  aggregate, with the next version; other aggregates are unchanged; and a read from a
  version with a limit returns the first that many events from that version on.
\<close>

theorem append_then_read:
  assumes "es_Enabled (wd_log s)" "log_inv (wd_log s)"
  shows "GetEvents agg 0 0 (Append ev s) =
      (if agg = de_Aggregate ev then GetEvents agg 0 0 s @ [stamped s ev] else GetEvents agg 0 0 s) \<and>
    (0 < limit \<longrightarrow> GetEvents agg from limit (Append ev s) =
       take (nat limit) (filter (\<lambda>e. from \<le> de_Version e) (GetEvents agg 0 0 (Append ev s))))"
proof -
  have all: "filter (\<lambda>e. 0 \<le> de_Version e) (log_of (wd_log (Append ev s)) agg) = log_of (wd_log (Append ev s)) agg"
    "filter (\<lambda>e. 0 \<le> de_Version e) (log_of (wd_log s) agg) = log_of (wd_log s) agg"
    using assms(2) Append_inv [OF assms(2), of ev] unfolding log_inv_def
    by (force intro!: filter_True)+
  show ?thesis using assms(1) unfolding GetEvents_eq all by (simp add: Append_log_of)
qed

section \<open>Completeness and cleanup\<close>

lemma appends_enabled: "es_Enabled (wd_log (fold Append evs s)) = es_Enabled (wd_log s)"
  by (induction evs arbitrary: s) auto

lemma appends_log:
  assumes "wd_log s = eventsourcing_New True age"
  shows "map de_Version (log_of (wd_log (fold Append evs s)) agg)
      = [1 .. int (length (filter (\<lambda>ev. de_Aggregate ev = agg) evs))] \<and>
    map (\<lambda>ev. (de_Type ev, de_Data ev)) (log_of (wd_log (fold Append evs s)) agg)
      = map (\<lambda>ev. (de_Type ev, de_Data ev)) (filter (\<lambda>ev. de_Aggregate ev = agg) evs)"
proof (induction evs rule: rev_induct)
  case Nil
  then show ?case by (simp add: assms eventsourcing_New_def log_of_def)
next
  case (snoc ev evs)
  let ?n = "length (filter (\<lambda>ev. de_Aggregate ev = agg) evs)"
  let ?l = "log_of (wd_log (fold Append evs s)) agg"
  have en: "es_Enabled (wd_log (fold Append evs s))"
    using assms by (simp add: appends_enabled eventsourcing_New_def)
  have len: "length ?l = ?n" using arg_cong [OF snoc.IH [THEN conjunct2], of length] by simp
  have "next_version ?l = int ?n + 1"
  proof (cases "?l = []")
    case False
    then have "de_Version (last ?l) = last (map de_Version ?l)" by (simp add: last_map)
    also have "\<dots> = last ([1 .. int ?n - 1] @ [int ?n])"
      using snoc.IH False len upto_rec2 [of 1 "int ?n"] by (cases ?n) auto
    also have "\<dots> = int ?n" by simp
    finally show ?thesis using False by (simp add: next_version_def)
  qed (use len in \<open>simp add: next_version_def\<close>)
  moreover have "[1 .. int ?n + 1] = [1 .. int ?n] @ [int ?n + 1]"
    using upto_rec2 [of 1 "int ?n + 1"] by simp
  ultimately show ?case
    using snoc.IH en by (auto simp: Append_log_of add.commute)
qed

text \<open>
  Without cleanup the log is complete: after any list of appends to an empty enabled
  store, an aggregate holds exactly the appended events of that aggregate, in order, with
  the versions 1, 2, 3 and so on.
\<close>

theorem event_log_is_complete:
  assumes "wd_log s = eventsourcing_New True age"
  shows "map de_Version (log_of (wd_log (fold Append evs s)) agg)
      = [1 .. int (length (filter (\<lambda>ev. de_Aggregate ev = agg) evs))] \<and>
    map (\<lambda>ev. (de_Type ev, de_Data ev)) (log_of (wd_log (fold Append evs s)) agg)
      = map (\<lambda>ev. (de_Type ev, de_Data ev)) (filter (\<lambda>ev. de_Aggregate ev = agg) evs)"
  using assms by (rule appends_log)

text \<open>
  Version numbers are reused after retention: when every event of an aggregate is
  older than the retention window, a cleanup empties it and the next append for it gets
  version 1 again.
\<close>

theorem cleanup_restarts_versions:
  assumes "es_Enabled (wd_log s)" "log_inv (wd_log s)" "0 < es_MaxEventAge (wd_log s)"
    and "list_all (\<lambda>e. de_Timestamp e \<le> wd_clock s (wd_ticks s) - es_MaxEventAge (wd_log s))
           (log_of (wd_log s) (de_Aggregate ev))"
  shows "map de_Version (log_of (wd_log (Append ev (CleanupOldEvents s))) (de_Aggregate ev)) = [1]"
proof -
  have "log_of (wd_log (CleanupOldEvents s)) (de_Aggregate ev) = []"
    using assms log_of_Cleanup [of s "de_Aggregate ev"]
    by (fastforce simp: log_inv_def list_all_iff filter_empty_conv)
  moreover have "es_Enabled (wd_log (CleanupOldEvents s))"
    using assms(1) by (simp add: CleanupOldEvents_def Let_def split_beta)
  ultimately show ?thesis by (simp add: Append_log_of next_version_def)
qed

section \<open>Witnesses\<close>

definition empty_world :: "EventStore \<Rightarrow> world" where
  "empty_world es = \<lparr>wd_heap = (\<lambda>_. zero_workload), wd_fresh = 0, wd_clock = (\<lambda>n. int n * second), wd_ticks = 0,
     wd_ids = (\<lambda>n. replicate n CHR ''i''), wd_drawn = 0, wd_bus = eventbus_New 8, wd_log = es,
     wd_mem = \<lparr>ms_workloads = [], ms_watchers = [], ms_eventStore = True\<rparr>, wd_chans = 0, wd_calls = []\<rparr>"

lemma empty_world_simps [simp]:
  "wd_log (empty_world es) = es" "wd_clock (empty_world es) n = int n * second"
  by (simp_all add: empty_world_def)

lemma eventsourcing_New_fields [simp]:
  "es_Enabled (eventsourcing_New b age) = b" "es_MaxEventAge (eventsourcing_New b age) = age"
  by (simp_all add: eventsourcing_New_def)

lemma GetEvents_empty: "GetEvents a f l (empty_world (eventsourcing_New b age)) = []"
  by (simp add: GetEvents_def eventsourcing_New_def)

theorem event_log_versions_increase_witness:
  "sorted_wrt (<) (map de_Version (log_of (wd_log (fold log_run
     [OpAppend (domain_event ''a'' ''t'' [] []), OpCleanup, OpAppend (domain_event ''a'' ''t'' [] [])]
     (empty_world (eventsourcing_New True 10)))) ''a''))"
  using event_log_versions_increase
    [of "empty_world (eventsourcing_New True 10)" True 10
        "[OpAppend (domain_event ''a'' ''t'' [] []), OpCleanup, OpAppend (domain_event ''a'' ''t'' [] [])]" "''a''"]
  by simp

theorem append_then_read_witness:
  "map de_Version (GetEvents ''a'' 0 0 (Append (domain_event ''a'' ''t'' [] [])
     (empty_world (eventsourcing_New True 10)))) = [1]"
  using append_then_read
    [of "empty_world (eventsourcing_New True 10)" "''a''" "domain_event ''a'' ''t'' [] []" 1 1]
  by (simp add: eventsourcing_New_inv GetEvents_empty)
     (simp add: eventsourcing_New_def domain_event_def next_version_def log_of_def)

theorem event_log_is_complete_witness:
  "map de_Version (log_of (wd_log (fold Append
     [domain_event ''a'' ''t'' [] [], domain_event ''b'' ''t'' [] [], domain_event ''a'' ''u'' [] []]
     (empty_world (eventsourcing_New True 10)))) ''a'') = [1, 2]"
  using event_log_is_complete
    [of "empty_world (eventsourcing_New True 10)" 10
        "[domain_event ''a'' ''t'' [] [], domain_event ''b'' ''t'' [] [], domain_event ''a'' ''u'' [] []]" "''a''"]
  by (simp add: domain_event_def upto.simps)

theorem cleanup_restarts_versions_witness:
  "map de_Version (log_of (wd_log (Append (domain_event ''a'' ''t'' [] [])
     (CleanupOldEvents (Append (domain_event ''a'' ''t'' [] [])
        (empty_world (eventsourcing_New True second)))))) ''a'') = [1]"
proof -
  let ?ev = "domain_event ''a'' ''t'' [] []"
  let ?s = "Append ?ev (empty_world (eventsourcing_New True second))"
  have agg: "de_Aggregate ?ev = ''a''" by (simp add: domain_event_def)
  have "log_inv (wd_log ?s)" by (intro Append_inv) (simp add: eventsourcing_New_inv)
  moreover have "wd_ticks ?s = 2"
    by (simp add: Append_def domain_event_def empty_world_def Let_def split_beta)
  moreover have "map de_Timestamp (log_of (wd_log ?s) ''a'') = [0]"
    by (simp add: Append_log_of agg) (simp add: domain_event_def empty_world_def stamped_def log_of_def eventsourcing_New_def)
  then have "list_all (\<lambda>e. de_Timestamp e \<le> second) (log_of (wd_log ?s) ''a'')"
    by (auto simp: list_all_iff map_eq_Cons_conv second_def)
  ultimately show ?thesis
    using cleanup_restarts_versions [of ?s ?ev] by (simp add: agg) (simp add: second_def)
qed

end
