(* ===== verification/StoreInterface.thy ===== *)
theory StoreInterface
  imports World
begin

text \<open>
  The \<open>Store\<close> interface of \<open>internal/state/store.go\<close> as a record of operations, and the
  contract its clients rely on as the locale \<open>workload_store\<close>: the operations act on a map
  from workload ids to objects (\<open>valid\<close> is the store's own representation
  invariant), an operation that fails changes nothing in that map, and
  none of them touches a workload beyond the bookkeeping fields (tags, labels, rollback
  revisions). The client lemmas proved here once hold for every store that meets the
  contract; theory \<open>StateStore\<close> interprets it on the in-memory store and on the versioned
  store around it.
\<close>

record Store =
  store_Get :: "string \<Rightarrow> world \<Rightarrow> (error, addr option) result \<times> world"
  store_List :: "string \<Rightarrow> world \<Rightarrow> (error, addr list) result \<times> world"
  store_Create :: "addr \<Rightarrow> world \<Rightarrow> error option \<times> world"
  store_Update :: "addr \<Rightarrow> world \<Rightarrow> error option \<times> world"
  store_Delete :: "string \<Rightarrow> world \<Rightarrow> error option \<times> world"
  store_Watch :: "world \<Rightarrow> nat \<times> world"

abbreviation ErrWorkloadAlreadyExists :: error where
  "ErrWorkloadAlreadyExists \<equiv> StoreError ''workload already exists''"

abbreviation ErrWorkloadNotFound :: error where
  "ErrWorkloadNotFound \<equiv> StoreError ''workload not found''"

section \<open>Bookkeeping fields\<close>

definition core_of :: "Workload \<Rightarrow> Workload" where
  \<comment> \<open>a workload without the fields the stores maintain\<close>
  "core_of w = w\<lparr>wl_Tags := None, wl_Labels := None, wl_RollbackVersions := [],
     wl_Status := (wl_Status w)\<lparr>st_Rollback := None\<rparr>\<rparr>"

lemma core_of_eqD:
  assumes "core_of w = core_of w'"
  shows "wl_ID w = wl_ID w'" "wl_Name w = wl_Name w'" "wl_Namespace w = wl_Namespace w'"
    "wl_Spec w = wl_Spec w'" "wl_Tenant w = wl_Tenant w'" "phase w = phase w'"
    "wl_History w = wl_History w'" "wl_UpdatedAt w = wl_UpdatedAt w'"
    "st_ReadyReplicas (wl_Status w) = st_ReadyReplicas (wl_Status w')"
    "st_CircuitBreaker (wl_Status w) = st_CircuitBreaker (wl_Status w')"
    "st_WarmStandby (wl_Status w) = st_WarmStandby (wl_Status w')"
    "st_SecretRotation (wl_Status w) = st_SecretRotation (wl_Status w')"
    "st_RestartGeneration (wl_Status w) = st_RestartGeneration (wl_Status w')"
    "st_Cron (wl_Status w) = st_Cron (wl_Status w')"
    "st_LastTransition (wl_Status w) = st_LastTransition (wl_Status w')"
  using arg_cong [OF assms, of wl_ID]
    arg_cong [OF assms, of wl_Name]
    arg_cong [OF assms, of wl_Namespace]
    arg_cong [OF assms, of wl_Spec]
    arg_cong [OF assms, of wl_Tenant]
    arg_cong [OF assms, of wl_History]
    arg_cong [OF assms, of wl_UpdatedAt]
    arg_cong [OF assms, of "\<lambda>w. st_Phase (wl_Status w)"]
    arg_cong [OF assms, of "\<lambda>w. st_ReadyReplicas (wl_Status w)"]
    arg_cong [OF assms, of "\<lambda>w. st_CircuitBreaker (wl_Status w)"]
    arg_cong [OF assms, of "\<lambda>w. st_WarmStandby (wl_Status w)"]
    arg_cong [OF assms, of "\<lambda>w. st_SecretRotation (wl_Status w)"]
    arg_cong [OF assms, of "\<lambda>w. st_RestartGeneration (wl_Status w)"]
    arg_cong [OF assms, of "\<lambda>w. st_Cron (wl_Status w)"]
    arg_cong [OF assms, of "\<lambda>w. st_LastTransition (wl_Status w)"]
  by (simp_all add: core_of_def)

definition core_of_world :: "world \<Rightarrow> addr \<Rightarrow> Workload" where
  "core_of_world s a = core_of (deref s a)"

lemma core_of_worldD: "core_of_world s' = core_of_world s \<Longrightarrow> core_of (deref s' a) = core_of (deref s a)"
  by (simp add: core_of_world_def fun_eq_iff)

section \<open>The contract\<close>

text \<open>\<open>frame s s'\<close>: what no store operation changes.\<close>

definition store_frame :: "world \<Rightarrow> world \<Rightarrow> bool" where
  "store_frame s s' = (core_of_world s' = core_of_world s \<and> wd_calls s' = wd_calls s \<and>
     wd_fresh s' = wd_fresh s \<and> wd_clock s' = wd_clock s \<and> wd_ids s' = wd_ids s)"

lemma store_frame_refl [simp]: "store_frame s s"
  by (simp add: store_frame_def)

lemma store_frame_trans: "store_frame s t \<Longrightarrow> store_frame t u \<Longrightarrow> store_frame s u"
  by (simp add: store_frame_def)

lemma store_frame_id: "store_frame s s' \<Longrightarrow> wl_ID (deref s' a) = wl_ID (deref s a)"
  unfolding store_frame_def by (blast intro: core_of_eqD(1) core_of_worldD)

lemma store_frame_spec: "store_frame s s' \<Longrightarrow> wl_Spec (deref s' a) = wl_Spec (deref s a)"
  unfolding store_frame_def by (blast intro: core_of_eqD(4) core_of_worldD)

lemma store_frame_phase: "store_frame s s' \<Longrightarrow> phase (deref s' a) = phase (deref s a)"
  unfolding store_frame_def by (blast intro: core_of_eqD(6) core_of_worldD)

lemma store_frame_namespace: "store_frame s s' \<Longrightarrow> wl_Namespace (deref s' a) = wl_Namespace (deref s a)"
  unfolding store_frame_def by (blast intro: core_of_eqD(3) core_of_worldD)

lemma store_frame_core: "store_frame s s' \<Longrightarrow> core_of (deref s' a) = core_of (deref s a)"
  unfolding store_frame_def by (blast intro: core_of_worldD)

definition keyed :: "(world \<Rightarrow> string \<Rightarrow> addr option) \<Rightarrow> world \<Rightarrow> bool" where
  \<comment> \<open>every object is stored under its own id\<close>
  "keyed stored s = (\<forall>i a. stored s i = Some a \<longrightarrow> wl_ID (deref s a) = i)"

locale workload_store =
  fixes st :: Store
    and stored :: "world \<Rightarrow> string \<Rightarrow> addr option"
    and valid :: "world \<Rightarrow> bool"
  assumes Get: "store_Get st i s = (Ok (stored s i), s)"
    and List: "valid s \<Longrightarrow> \<exists>ids. distinct ids \<and>
      set ids = {i. \<exists>a. stored s i = Some a \<and> (ns = [] \<or> wl_Namespace (deref s a) = ns)} \<and>
      store_List st ns s = (Ok (map (\<lambda>i. the (stored s i)) ids), s)"
    and Create_new: "stored s (wl_ID (deref s a)) = None \<Longrightarrow>
      \<exists>s'. store_Create st a s = (None, s') \<and> stored s' = (stored s)(wl_ID (deref s a) \<mapsto> a) \<and> store_frame s s'"
    and Create_known: "stored s (wl_ID (deref s a)) = Some b \<Longrightarrow>
      \<exists>s'. store_Create st a s = (Some ErrWorkloadAlreadyExists, s') \<and> stored s' = stored s \<and> store_frame s s'"
    and Update_known: "stored s (wl_ID (deref s a)) = Some b \<Longrightarrow>
      \<exists>s'. store_Update st a s = (None, s') \<and> stored s' = (stored s)(wl_ID (deref s a) \<mapsto> a) \<and> store_frame s s'"
    and Update_new: "stored s (wl_ID (deref s a)) = None \<Longrightarrow>
      \<exists>s'. store_Update st a s = (Some ErrWorkloadNotFound, s') \<and> stored s' = stored s \<and> store_frame s s'"
    and Delete_known: "stored s i = Some a \<Longrightarrow>
      \<exists>s'. store_Delete st i s = (None, s') \<and> stored s' = (stored s)(i := None) \<and> store_frame s s'"
    and Delete_new: "stored s i = None \<Longrightarrow> store_Delete st i s = (Some ErrWorkloadNotFound, s)"
    and stored_mem: "wd_mem s' = wd_mem s \<Longrightarrow> stored s' = stored s"
    and valid_mem: "wd_mem s' = wd_mem s \<Longrightarrow> valid s' = valid s"
    and valid_Create: "valid s \<Longrightarrow> valid (snd (store_Create st a s))"
    and valid_Update: "valid s \<Longrightarrow> valid (snd (store_Update st a s))"
    and valid_Delete: "valid s \<Longrightarrow> valid (snd (store_Delete st i s))"
begin

lemma Create_frame: "store_frame s (snd (store_Create st a s))"
  by (cases "stored s (wl_ID (deref s a))") (auto dest!: Create_new Create_known)

lemma Update_frame: "store_frame s (snd (store_Update st a s))"
  by (cases "stored s (wl_ID (deref s a))") (auto dest!: Update_new Update_known)

lemma Delete_frame: "store_frame s (snd (store_Delete st i s))"
  by (cases "stored s i") (auto dest!: Delete_new Delete_known)

lemma Update_result: "fst (store_Update st a s) = None \<longleftrightarrow> stored s (wl_ID (deref s a)) \<noteq> None"
  by (cases "stored s (wl_ID (deref s a))") (auto dest!: Update_new Update_known)

lemma Update_stored:
  "stored (snd (store_Update st a s)) =
     (if stored s (wl_ID (deref s a)) = None then stored s else (stored s)(wl_ID (deref s a) \<mapsto> a))"
  by (cases "stored s (wl_ID (deref s a))") (auto dest!: Update_new Update_known)

lemma Create_stored:
  "stored (snd (store_Create st a s)) =
     (if stored s (wl_ID (deref s a)) = None then (stored s)(wl_ID (deref s a) \<mapsto> a) else stored s)"
  by (cases "stored s (wl_ID (deref s a))") (auto dest!: Create_new Create_known)

lemma Create_result: "fst (store_Create st a s) = None \<longleftrightarrow> stored s (wl_ID (deref s a)) = None"
  by (cases "stored s (wl_ID (deref s a))") (auto dest!: Create_new Create_known)

lemma Delete_stored: "stored (snd (store_Delete st i s)) = (stored s)(i := None)"
  by (cases "stored s i") (auto simp: fun_upd_idem dest!: Delete_new Delete_known)

lemma keyed_Create: "keyed stored s \<Longrightarrow> keyed stored (snd (store_Create st a s))"
  using Create_frame [of s a] by (auto simp: keyed_def Create_stored store_frame_id split: if_splits)

lemma keyed_Update: "keyed stored s \<Longrightarrow> keyed stored (snd (store_Update st a s))"
  using Update_frame [of s a] by (auto simp: keyed_def Update_stored store_frame_id split: if_splits)

lemma keyed_Delete: "keyed stored s \<Longrightarrow> keyed stored (snd (store_Delete st i s))"
  using Delete_frame [of s i] by (auto simp: keyed_def Delete_stored store_frame_id split: if_splits)

lemma Update_in_place:
  assumes "stored s i = Some a" "wl_ID (deref s a) = i"
  shows "fst (store_Update st a s) = None" "stored (snd (store_Update st a s)) = stored s"
  using assms by (auto simp: Update_result Update_stored)

end

end
