(* ===== verification/WorkloadTags.thy ===== *)
theory WorkloadTags
  imports World
begin

text \<open>
  \<open>internal/workloadtags/tags.go\<close>: structured tags and their label form. \<open>Apply\<close> and
  \<open>SyncFromLabels\<close> write through the pointer; here they map the old workload to the new
  one. \<open>Filter\<close> works on the list of addresses a store returns and, like the code, leaves
  the synchronised tags behind in the objects it looks at.

  The lemmas: tags survive the round trip through labels, synchronising is idempotent and
  only touches the tags, and \<open>Filter\<close> keeps, in order, exactly the matching workloads.
\<close>

record ListFilter =
  lf_Team :: string
  lf_Environment :: string
  lf_CostCenter :: string

definition sync_tags :: "strmap \<Rightarrow> WorkloadTags \<Rightarrow> WorkloadTags" where
  "sync_tags labels t = t\<lparr>
     wt_Team := (if wt_Team t = [] then trim_space (sget labels LabelKeyTeam) else wt_Team t),
     wt_Environment := (if wt_Environment t = [] then trim_space (sget labels LabelKeyEnvironment) else wt_Environment t),
     wt_CostCenter := (if wt_CostCenter t = [] then trim_space (sget labels LabelKeyCostCenter) else wt_CostCenter t)\<rparr>"

definition SyncFromLabels :: "Workload \<Rightarrow> Workload" where
  "SyncFromLabels w =
     (if wl_Labels w = None then w
      else w\<lparr>wl_Tags := Some (sync_tags (wl_Labels w) (case wl_Tags w of None \<Rightarrow> zero_tags | Some t \<Rightarrow> t))\<rparr>)"

definition label_unless_blank :: "string \<Rightarrow> string \<Rightarrow> (string, string) gomap \<Rightarrow> (string, string) gomap" where
  "label_unless_blank k v labels =
     (if trim_space v \<noteq> [] then AList.update k (trim_space v) labels else labels)"

definition custom_label :: "string \<times> string \<Rightarrow> (string, string) gomap \<Rightarrow> (string, string) gomap" where
  "custom_label = (\<lambda>(k, v) labels.
     if trim_space k = [] then labels else AList.update (trim_space k) (trim_space v) labels)"

definition tags_Apply :: "Workload \<Rightarrow> Workload" where
  "tags_Apply w = (case wl_Tags w of
     None \<Rightarrow> SyncFromLabels w
   | Some t \<Rightarrow>
       let labels0 = (case wl_Labels w of None \<Rightarrow> [] | Some l \<Rightarrow> l);
           labels1 = label_unless_blank LabelKeyTeam (wt_Team t) labels0;
           labels2 = label_unless_blank LabelKeyEnvironment (wt_Environment t) labels1;
           labels3 = label_unless_blank LabelKeyCostCenter (wt_CostCenter t) labels2;
           labels4 = fold custom_label (case wt_Custom t of None \<Rightarrow> [] | Some c \<Rightarrow> c) labels3
       in w\<lparr>wl_Labels := Some labels4\<rparr>)"

definition tags_Team :: "Workload option \<Rightarrow> string" where
  "tags_Team wo = (case wo of
     None \<Rightarrow> []
   | Some w \<Rightarrow>
       (case wl_Tags w of
          Some t \<Rightarrow> if trim_space (wt_Team t) \<noteq> [] then trim_space (wt_Team t)
                    else trim_space (sget (wl_Labels w) LabelKeyTeam)
        | None \<Rightarrow> trim_space (sget (wl_Labels w) LabelKeyTeam)))"

definition tag_or_label :: "(WorkloadTags \<Rightarrow> string) \<Rightarrow> string \<Rightarrow> Workload \<Rightarrow> string" where
  \<comment> \<open>the field of \<open>Tags\<close>, or the label when it is empty\<close>
  "tag_or_label field key w =
     (let v = (case wl_Tags w of None \<Rightarrow> [] | Some t \<Rightarrow> field t)
      in if v = [] then sget (wl_Labels w) key else v)"

definition tags_Matches :: "Workload \<Rightarrow> ListFilter \<Rightarrow> Workload \<times> bool" where
  "tags_Matches w0 f =
     (let w = SyncFromLabels w0;
          t = trim_space (lf_Team f);
          e = trim_space (lf_Environment f);
          c = trim_space (lf_CostCenter f)
      in (w,
          if t \<noteq> [] \<and> \<not> equal_fold (tags_Team (Some w)) t then False
          else if e \<noteq> [] \<and> \<not> equal_fold (trim_space (tag_or_label wt_Environment LabelKeyEnvironment w)) e then False
          else if c \<noteq> [] \<and> \<not> equal_fold (trim_space (tag_or_label wt_CostCenter LabelKeyCostCenter w)) c then False
          else True))"

fun tags_filter_loop :: "ListFilter \<Rightarrow> addr list \<Rightarrow> addr list \<Rightarrow> world \<Rightarrow> addr list \<times> world" where
  "tags_filter_loop f out [] s = (out, s)"
| "tags_filter_loop f out (a # as) s =
     (let (w, ok) = tags_Matches (deref s a) f
      in tags_filter_loop f (if ok then out @ [a] else out) as (assign a w s))"

definition tags_Filter :: "addr list \<Rightarrow> ListFilter \<Rightarrow> world \<Rightarrow> addr list \<times> world" where
  "tags_Filter as f s =
     (if trim_space (lf_Team f) = [] \<and> trim_space (lf_Environment f) = [] \<and> trim_space (lf_CostCenter f) = []
      then (as, s) else tags_filter_loop f [] as s)"

section \<open>Synchronising\<close>

lemma sync_tags_idem [simp]: "sync_tags l (sync_tags l t) = sync_tags l t"
  by (simp add: sync_tags_def)

lemma SyncFromLabels_idem [simp]: "SyncFromLabels (SyncFromLabels w) = SyncFromLabels w"
  by (simp add: SyncFromLabels_def)

lemma same_tags: "\<exists>t. w = w\<lparr>wl_Tags := t\<rparr>"
  by (rule exI [of _ "wl_Tags w"]) simp

lemma SyncFromLabels_only_tags: "\<exists>t. SyncFromLabels w = w\<lparr>wl_Tags := t\<rparr>"
  using same_tags [of w] by (cases "wl_Labels w") (auto simp: SyncFromLabels_def)

lemma SyncFromLabels_frame [simp, frame_simps]:
  "wl_ID (SyncFromLabels w) = wl_ID w" "wl_Spec (SyncFromLabels w) = wl_Spec w"
  "wl_Labels (SyncFromLabels w) = wl_Labels w" "wl_Status (SyncFromLabels w) = wl_Status w"
  "wl_Name (SyncFromLabels w) = wl_Name w" "wl_Namespace (SyncFromLabels w) = wl_Namespace w"
  "wl_Tenant (SyncFromLabels w) = wl_Tenant w" "wl_RollbackVersions (SyncFromLabels w) = wl_RollbackVersions w"
  using SyncFromLabels_only_tags [of w] by auto

lemma tags_Apply_only_tags_labels: "\<exists>t l. tags_Apply w = w\<lparr>wl_Tags := t, wl_Labels := l\<rparr>"
proof (cases "wl_Tags w")
  case None
  obtain t where "SyncFromLabels w = w\<lparr>wl_Tags := t\<rparr>" using SyncFromLabels_only_tags by blast
  then have "tags_Apply w = w\<lparr>wl_Tags := t, wl_Labels := wl_Labels w\<rparr>"
    by (simp add: tags_Apply_def None)
  then show ?thesis by blast
next
  case (Some t)
  then have "tags_Apply w = w\<lparr>wl_Tags := Some t, wl_Labels := wl_Labels (tags_Apply w)\<rparr>"
    by (simp add: tags_Apply_def Let_def)
  then show ?thesis by blast
qed

lemma tags_Apply_frame [simp, frame_simps]:
  "wl_ID (tags_Apply w) = wl_ID w" "wl_Spec (tags_Apply w) = wl_Spec w"
  "wl_Status (tags_Apply w) = wl_Status w" "wl_Name (tags_Apply w) = wl_Name w"
  "wl_Namespace (tags_Apply w) = wl_Namespace w" "wl_Tenant (tags_Apply w) = wl_Tenant w"
  "wl_RollbackVersions (tags_Apply w) = wl_RollbackVersions w"
  using tags_Apply_only_tags_labels [of w] by auto

lemma sget_label_unless_blank:
  "sget (Some (label_unless_blank k v l)) k' =
     (if k' = k \<and> trim_space v \<noteq> [] then trim_space v else sget (Some l) k')"
  by (simp add: label_unless_blank_def sget_update)

lemma sget_custom_labels:
  "k \<notin> trim_space ` fst ` set c \<Longrightarrow> sget (Some (fold custom_label c l)) k = sget (Some l) k"
  by (induction c arbitrary: l) (auto simp: custom_label_def sget_update split: prod.splits)

text \<open>
  Tags survive the round trip through labels: applying a workload's tags to its labels,
  dropping the structured tags and synchronising from the labels gives back the team,
  environment and cost centre (trimmed), as long as they are not blank and no custom tag
  reuses one of the three label keys.
\<close>

theorem tags_labels_roundtrip:
  assumes "wl_Tags w = Some t"
    and "trim_space (wt_Team t) \<noteq> []" "trim_space (wt_Environment t) \<noteq> []" "trim_space (wt_CostCenter t) \<noteq> []"
    and "wt_Custom t = Some c"
    and "trim_space ` fst ` set c \<inter> {LabelKeyTeam, LabelKeyEnvironment, LabelKeyCostCenter} = {}"
  shows "\<exists>t'. wl_Tags (SyncFromLabels ((tags_Apply w)\<lparr>wl_Tags := None\<rparr>)) = Some t' \<and>
    wt_Team t' = trim_space (wt_Team t) \<and> wt_Environment t' = trim_space (wt_Environment t) \<and>
    wt_CostCenter t' = trim_space (wt_CostCenter t)"
proof -
  have "LabelKeyTeam \<notin> trim_space ` fst ` set c" "LabelKeyEnvironment \<notin> trim_space ` fst ` set c"
    "LabelKeyCostCenter \<notin> trim_space ` fst ` set c" using assms(6) by auto
  then show ?thesis
    using assms(1-5)
    by (simp add: tags_Apply_def SyncFromLabels_def sync_tags_def Let_def sget_custom_labels sget_label_unless_blank zero_tags_def)
qed

theorem tags_labels_roundtrip_witness:
  "let w = zero_workload\<lparr>wl_Tags := Some \<lparr>wt_Team = '' core '', wt_Environment = ''prod'', wt_CostCenter = ''cc1'',
              wt_Custom = Some [(''tier'', ''gold'')]\<rparr>\<rparr>
   in \<exists>t'. wl_Tags (SyncFromLabels ((tags_Apply w)\<lparr>wl_Tags := None\<rparr>)) = Some t' \<and> wt_Team t' = ''core''"
  using tags_labels_roundtrip
    [of "zero_workload\<lparr>wl_Tags := Some \<lparr>wt_Team = '' core '', wt_Environment = ''prod'', wt_CostCenter = ''cc1'',
           wt_Custom = Some [(''tier'', ''gold'')]\<rparr>\<rparr>"
        "\<lparr>wt_Team = '' core '', wt_Environment = ''prod'', wt_CostCenter = ''cc1'',
           wt_Custom = Some [(''tier'', ''gold'')]\<rparr>" "[(''tier'', ''gold'')]"]
  by (auto simp: trim_space_def is_space_def)

section \<open>Filtering\<close>

definition tags_match :: "ListFilter \<Rightarrow> Workload \<Rightarrow> bool" where
  "tags_match f w = snd (tags_Matches w f)"

lemma tags_match_sync [simp]: "tags_match f (SyncFromLabels w) = tags_match f w"
  by (simp add: tags_match_def tags_Matches_def)

lemma tags_filter_loop_eq:
  "tags_filter_loop f out as s =
     (out @ filter (\<lambda>a. tags_match f (deref s a)) as,
      s\<lparr>wd_heap := (\<lambda>a. if a \<in> set as then SyncFromLabels (deref s a) else deref s a)\<rparr>)"
proof (induction as arbitrary: out s)
  case (Cons a as)
  let ?s = "assign a (SyncFromLabels (deref s a)) s"
  have step: "tags_filter_loop f out (a # as) s =
      tags_filter_loop f (if tags_match f (deref s a) then out @ [a] else out) as ?s"
    by (simp add: tags_Matches_def tags_match_def Let_def)
  have "filter (\<lambda>b. tags_match f (deref ?s b)) as = filter (\<lambda>b. tags_match f (deref s b)) as"
    by (rule filter_cong) auto
  moreover have "?s\<lparr>wd_heap := (\<lambda>b. if b \<in> set as then SyncFromLabels (deref ?s b) else deref ?s b)\<rparr>
      = s\<lparr>wd_heap := (\<lambda>b. if b \<in> set (a # as) then SyncFromLabels (deref s b) else deref s b)\<rparr>"
    by (auto simp: assign_def fun_eq_iff)
  ultimately show ?case unfolding step Cons.IH by simp
qed simp

lemma tags_match_unset:
  "trim_space (lf_Team f) = [] \<and> trim_space (lf_Environment f) = [] \<and> trim_space (lf_CostCenter f) = [] \<Longrightarrow>
   tags_match f w"
  by (simp add: tags_match_def tags_Matches_def Let_def)

text \<open>
  \<open>Filter\<close> returns, in their order, exactly the workloads whose team, environment and
  cost centre agree (case-insensitively, from tags or labels) with the set filter fields,
  and leaves every field of every workload but the tags unchanged.
\<close>

theorem tags_filter_is_filter:
  "fst (tags_Filter as f s) = filter (\<lambda>a. tags_match f (deref s a)) as \<and>
   (\<forall>a. \<exists>t. deref (snd (tags_Filter as f s)) a = (deref s a)\<lparr>wl_Tags := t\<rparr>)"
proof (cases "trim_space (lf_Team f) = [] \<and> trim_space (lf_Environment f) = [] \<and> trim_space (lf_CostCenter f) = []")
  case True
  then show ?thesis using same_tags by (auto simp: tags_Filter_def tags_match_unset)
next
  case False
  have "\<exists>t. (if a \<in> set as then SyncFromLabels (deref s a) else deref s a) = (deref s a)\<lparr>wl_Tags := t\<rparr>" for a
    using SyncFromLabels_only_tags [of "deref s a"] same_tags [of "deref s a"] by (cases "a \<in> set as") simp_all
  moreover have "tags_Filter as f s = tags_filter_loop f [] as s"
    using False unfolding tags_Filter_def by (rule if_not_P)
  ultimately show ?thesis by (simp add: tags_filter_loop_eq)
qed

end
