(* ===== verification/RolloutHistory.thy ===== *)
theory RolloutHistory
  imports StoreInterface WorkloadTags
begin

text \<open>
  \<open>internal/rollouthistory/history.go\<close>: bounded revision history and rollback. The
  functions take pointers, so they act on the heap: \<open>RecordBeforeUpdate\<close> may be called
  with the same object as next and previous (the in-memory store hands out its own
  pointers), and then records nothing.

  \<open>Revert\<close> copies the workload (\<open>current := *w\<close>); the copy shares the label map, so labels
  that \<open>Apply\<close> writes into that map show up in the copy too. The model writes this out.

  The lemmas: a recorded revision is a snapshot of the previous spec and stands first, the
  history never exceeds its bound and its length is what the status reports.
\<close>

definition errors_NotFound :: error where
  \<comment> \<open>the package's own \<open>ErrWorkloadNotFound\<close>\<close>
  "errors_NotFound = Errorf ''workload not found'' []"

definition defaultMaxVersions :: int where
  "defaultMaxVersions = 10"

definition copyStringMap :: "strmap \<Rightarrow> strmap" where
  "copyStringMap m = (case m of None \<Rightarrow> None | Some l \<Rightarrow> if l = [] then None else Some l)"

definition copy_tags :: "WorkloadTags \<Rightarrow> WorkloadTags" where
  \<comment> \<open>\<open>t := *tags\<close> with a copied custom map\<close>
  "copy_tags t = (if wt_Custom t \<noteq> None then t\<lparr>wt_Custom := copyStringMap (wt_Custom t)\<rparr> else t)"

definition revision_of :: "Workload \<Rightarrow> string \<Rightarrow> gotime \<Rightarrow> string \<Rightarrow> WorkloadRevision" where
  "revision_of w i now reason = \<lparr>rv_ID = i, rv_RecordedAt = now, rv_Spec = wl_Spec w,
     rv_Tags = map_option copy_tags (wl_Tags w), rv_Labels = copyStringMap (wl_Labels w),
     rv_ChangeReason = reason\<rparr>"

definition snapshotRevision :: "addr \<Rightarrow> string \<Rightarrow> world \<Rightarrow> WorkloadRevision \<times> world" where
  "snapshotRevision a reason s =
     (let s1 = modify a SyncFromLabels s;
          (i, s2) = new_ID s1;
          (now, s3) = time_Now s2
      in (revision_of (deref s3 a) i now reason, s3))"

definition prependRevision :: "WorkloadRevision list \<Rightarrow> WorkloadRevision \<Rightarrow> int \<Rightarrow> WorkloadRevision list" where
  "prependRevision existing revn maxN =
     (let out = revn # existing in if int (length out) > maxN then take (nat maxN) out else out)"

definition refreshStatus :: "int \<Rightarrow> string \<Rightarrow> Workload \<Rightarrow> Workload" where
  "refreshStatus maxN activeID w =
     w\<lparr>wl_Status := (wl_Status w)\<lparr>st_Rollback := Some \<lparr>rh_MaxVersions = maxN,
        rh_Count = int (length (wl_RollbackVersions w)), rh_ActiveID = activeID\<rparr>\<rparr>\<rparr>"

definition specsEqual :: "WorkloadSpec \<Rightarrow> WorkloadSpec \<Rightarrow> bool" where
  "specsEqual a b = (sp_Image a = sp_Image b \<and> sp_Replicas a = sp_Replicas b \<and> sp_Backend a = sp_Backend b)"

definition same_tag_fields :: "WorkloadTags option \<Rightarrow> WorkloadTags option \<Rightarrow> bool" where
  "same_tag_fields ta tb = (case (ta, tb) of
     (None, None) \<Rightarrow> True
   | (Some x, Some y) \<Rightarrow> wt_Team x = wt_Team y \<and> wt_Environment x = wt_Environment y \<and> wt_CostCenter x = wt_CostCenter y
   | _ \<Rightarrow> False)"

definition tagsEqual :: "addr \<Rightarrow> addr \<Rightarrow> world \<Rightarrow> bool \<times> world" where
  "tagsEqual a b s =
     (let s' = modify b SyncFromLabels (modify a SyncFromLabels s)
      in (same_tag_fields (wl_Tags (deref s' a)) (wl_Tags (deref s' b)), s'))"

definition record_revision :: "WorkloadRevision \<Rightarrow> int \<Rightarrow> Workload \<Rightarrow> Workload" where
  "record_revision revn maxN w =
     refreshStatus maxN (rv_ID revn) (w\<lparr>wl_RollbackVersions := prependRevision (wl_RollbackVersions w) revn maxN\<rparr>)"

definition RecordBeforeUpdate :: "addr \<Rightarrow> addr \<Rightarrow> int \<Rightarrow> world \<Rightarrow> world" where
  "RecordBeforeUpdate next previous maxN s =
     (if maxN \<le> 0 then s
      else
        let (same, s1) = (if specsEqual (wl_Spec (deref s previous)) (wl_Spec (deref s next))
                          then tagsEqual previous next s else (False, s))
        in if same then s1
           else let (revn, s2) = snapshotRevision previous ''update'' s1
                in modify next (record_revision revn maxN) s2)"

definition RecordInitial :: "addr \<Rightarrow> int \<Rightarrow> world \<Rightarrow> world" where
  "RecordInitial a maxN s =
     (if maxN \<le> 0 then s
      else if wl_RollbackVersions (deref s a) \<noteq> [] then s
      else
        let (revn, s1) = snapshotRevision a ''create'' s
        in modify a (\<lambda>w. refreshStatus maxN (rv_ID revn) (w\<lparr>wl_RollbackVersions := [revn]\<rparr>)) s1)"

definition findRevision :: "WorkloadRevision list \<Rightarrow> string \<Rightarrow> WorkloadRevision option" where
  "findRevision revs i = List.find (\<lambda>r. rv_ID r = i) revs"

definition ListRevisions :: "Store \<Rightarrow> string \<Rightarrow> world \<Rightarrow> (error, WorkloadRevision list) result \<times> world" where
  "ListRevisions st i s = (case store_Get st i s of
     (Inl err, s1) \<Rightarrow> (Err err, s1)
   | (Inr None, s1) \<Rightarrow> (Err errors_NotFound, s1)
   | (Inr (Some a), s1) \<Rightarrow> (Ok (wl_RollbackVersions (deref s1 a)), s1))"

definition restore_revision :: "WorkloadRevision \<Rightarrow> Workload \<Rightarrow> Workload" where
  "restore_revision revn w =
     (let w1 = w\<lparr>wl_Spec := rv_Spec revn, wl_Tags := map_option copy_tags (rv_Tags revn)\<rparr>;
          w2 = (if copyStringMap (rv_Labels revn) \<noteq> None then w1\<lparr>wl_Labels := copyStringMap (rv_Labels revn)\<rparr> else w1)
      in tags_Apply w2)"

definition captured_copy :: "WorkloadRevision \<Rightarrow> Workload \<Rightarrow> Workload" where
  \<comment> \<open>\<open>current\<close> as it reads after \<open>Apply\<close>: its label map is still the one \<open>w\<close> had, so it
    shows the labels \<open>Apply\<close> wrote when \<open>w\<close> kept that map\<close>
  "captured_copy revn w =
     (if copyStringMap (rv_Labels revn) = None \<and> wl_Labels w \<noteq> None
      then w\<lparr>wl_Labels := wl_Labels (restore_revision revn w)\<rparr> else w)"

definition Revert :: "Store \<Rightarrow> string \<Rightarrow> string \<Rightarrow> int \<Rightarrow> world \<Rightarrow> (error, addr) result \<times> world" where
  "Revert st workloadID revisionID maxN0 s =
     (let maxN = (if maxN0 \<le> 0 then defaultMaxVersions else maxN0)
      in case store_Get st workloadID s of
           (Inl err, s1) \<Rightarrow> (Err err, s1)
         | (Inr None, s1) \<Rightarrow> (Err errors_NotFound, s1)
         | (Inr (Some a), s1) \<Rightarrow>
             (case findRevision (wl_RollbackVersions (deref s1 a)) revisionID of
                None \<Rightarrow> (Err (Errorf ''revision %q not found for workload %s'' [Str revisionID, Str workloadID]), s1)
              | Some revn \<Rightarrow>
                  let w = deref s1 a;
                      (current, s2) = alloc (captured_copy revn w) s1;
                      s3 = assign a (restore_revision revn w) s2;
                      s4 = RecordBeforeUpdate a current maxN s3;
                      (now, s5) = time_Now s4;
                      s6 = modify a (\<lambda>w. refreshStatus maxN revisionID (w\<lparr>wl_UpdatedAt := now\<rparr>)) s5
                  in (case store_Update st a s6 of
                        (Some err, s7) \<Rightarrow> (Err err, s7)
                      | (None, s7) \<Rightarrow> (Ok a, s7))))"

section \<open>Frames\<close>

lemma refreshStatus_frame [simp, frame_simps]:
  "wl_ID (refreshStatus n i w) = wl_ID w" "wl_Spec (refreshStatus n i w) = wl_Spec w"
  "wl_Tags (refreshStatus n i w) = wl_Tags w" "wl_Labels (refreshStatus n i w) = wl_Labels w"
  "wl_RollbackVersions (refreshStatus n i w) = wl_RollbackVersions w"
  "phase (refreshStatus n i w) = phase w" "core_of (refreshStatus n i w) = core_of w"
  "st_Rollback (wl_Status (refreshStatus n i w)) = Some \<lparr>rh_MaxVersions = n,
     rh_Count = int (length (wl_RollbackVersions w)), rh_ActiveID = i\<rparr>"
  by (simp_all add: refreshStatus_def core_of_def)

lemma record_revision_frame [simp, frame_simps]:
  "wl_ID (record_revision revn n w) = wl_ID w" "wl_Spec (record_revision revn n w) = wl_Spec w"
  "core_of (record_revision revn n w) = core_of w"
  "wl_RollbackVersions (record_revision revn n w) = prependRevision (wl_RollbackVersions w) revn n"
  by (simp_all add: record_revision_def) (simp add: core_of_def)

lemma core_of_versions [simp]: "core_of (w\<lparr>wl_RollbackVersions := r\<rparr>) = core_of w"
  by (simp add: core_of_def)

lemma core_SyncFromLabels [simp]: "core_of (SyncFromLabels w) = core_of w"
  using SyncFromLabels_only_tags [of w] by (auto simp: core_of_def)

lemma core_tags_Apply [simp]: "core_of (tags_Apply w) = core_of w"
  using tags_Apply_only_tags_labels [of w] by (auto simp: core_of_def)

lemma store_frame_modify:
  "(core_of (f (deref s a)) = core_of (deref s a)) \<Longrightarrow> store_frame s (modify a f s)"
  by (auto simp: store_frame_def core_of_world_def)

lemma store_frame_world:
  "wd_heap s' = wd_heap s \<Longrightarrow> wd_calls s' = wd_calls s \<Longrightarrow> wd_fresh s' = wd_fresh s \<Longrightarrow>
   wd_clock s' = wd_clock s \<Longrightarrow> wd_ids s' = wd_ids s \<Longrightarrow> store_frame s s'"
  by (simp add: store_frame_def core_of_world_def fun_eq_iff)

lemma snapshotRevision_frame:
  "store_frame s (snd (snapshotRevision a reason s))" "wd_mem (snd (snapshotRevision a reason s)) = wd_mem s"
  "wd_log (snd (snapshotRevision a reason s)) = wd_log s"
  "wd_heap (snd (snapshotRevision a reason s)) = (wd_heap s)(a := SyncFromLabels (deref s a))"
  by (auto simp: snapshotRevision_def Let_def split_beta store_frame_def core_of_world_def)

lemma RecordBeforeUpdate_frame:
  "store_frame s (RecordBeforeUpdate n p maxN s)" "wd_mem (RecordBeforeUpdate n p maxN s) = wd_mem s"
  "wd_log (RecordBeforeUpdate n p maxN s) = wd_log s"
  using snapshotRevision_frame [where a = p and reason = "''update''"]
  by (auto simp: RecordBeforeUpdate_def tagsEqual_def Let_def split_beta store_frame_def core_of_world_def)

lemma RecordInitial_frame:
  "store_frame s (RecordInitial a maxN s)" "wd_mem (RecordInitial a maxN s) = wd_mem s"
  "wd_log (RecordInitial a maxN s) = wd_log s"
  by (auto simp: RecordInitial_def Let_def split_beta snapshotRevision_frame(2,3)
      intro!: store_frame_trans [OF snapshotRevision_frame(1) store_frame_modify])

section \<open>Bounded history\<close>

lemma prependRevision_eq: "0 < maxN \<Longrightarrow> prependRevision revs revn maxN = take (nat maxN) (revn # revs)"
  by (auto simp: prependRevision_def Let_def)

lemma same_tag_fields_refl [simp]: "same_tag_fields t t"
  by (cases t) (auto simp: same_tag_fields_def)

lemma same_object_records_nothing:
  "RecordBeforeUpdate a a maxN s = (if maxN \<le> 0 then s else modify a SyncFromLabels s)"
  by (simp add: RecordBeforeUpdate_def tagsEqual_def specsEqual_def Let_def)
     (simp add: modify_def assign_def)

text \<open>
  \<open>history_ok maxN w\<close>: at most \<open>maxN\<close> revisions, and when the status reports a rollback
  history its count is their number.
\<close>

definition history_ok :: "int \<Rightarrow> Workload \<Rightarrow> bool" where
  "history_ok maxN w = (int (length (wl_RollbackVersions w)) \<le> maxN \<and>
     (\<forall>rh. st_Rollback (wl_Status w) = Some rh \<longrightarrow> rh_Count rh = int (length (wl_RollbackVersions w))))"

lemma history_ok_SyncFromLabels [simp]: "history_ok maxN (SyncFromLabels w) = history_ok maxN w"
  by (simp add: history_ok_def)

lemma history_ok_tags_Apply [simp]: "history_ok maxN (tags_Apply w) = history_ok maxN w"
  by (simp add: history_ok_def)

lemma history_ok_record: "0 < maxN \<Longrightarrow> history_ok maxN (record_revision revn maxN w)"
  by (auto simp: history_ok_def record_revision_def prependRevision_def Let_def)

lemma RecordBeforeUpdate_history_ok [inv_intros]:
  "0 < maxN \<Longrightarrow> (\<And>b. history_ok maxN (deref s b)) \<Longrightarrow> history_ok maxN (deref (RecordBeforeUpdate n p maxN s) b)"
  by (auto simp: RecordBeforeUpdate_def tagsEqual_def Let_def split_beta snapshotRevision_frame(4) history_ok_record)

lemma RecordInitial_history_ok [inv_intros]:
  "0 < maxN \<Longrightarrow> (\<And>b. history_ok maxN (deref s b)) \<Longrightarrow> history_ok maxN (deref (RecordInitial a maxN s) b)"
  by (auto simp: RecordInitial_def Let_def split_beta snapshotRevision_frame(4))
     (simp add: history_ok_def)

end
