(* ===== verification/StateStore.thy ===== *)
theory StateStore
  imports EventSourcing RolloutHistory
begin

text \<open>
  \<open>internal/state/store.go\<close> and \<open>internal/state/versioned_store.go\<close>: the in-memory store,
  which records every change in the event log and notifies its watchers, and the
  decorator that normalises tags and keeps rollback revisions. Each method runs under the
  store's mutex and is one step. Both are shown to meet the contract \<open>workload_store\<close>;
  the decorator for every store that meets it.

  The lemmas: create, read, update and delete behave as a map; each successful change is
  recorded by exactly one event of its aggregate and a failed one by none; histories stay
  bounded; a revert restores the recorded spec; and an update through the stored pointer
  records no revision.
\<close>

section \<open>The in-memory store\<close>

definition mem_notify :: "Event \<Rightarrow> world \<Rightarrow> world" where
  "mem_notify ev s = s\<lparr>wd_mem := (wd_mem s)\<lparr>ms_watchers := map (try_send ev) (ms_watchers (wd_mem s))\<rparr>\<rparr>"

definition mem_put :: "string \<Rightarrow> addr \<Rightarrow> world \<Rightarrow> world" where
  "mem_put i a s = s\<lparr>wd_mem := (wd_mem s)\<lparr>ms_workloads := AList.update i a (ms_workloads (wd_mem s))\<rparr>\<rparr>"

definition mem_remove :: "string \<Rightarrow> world \<Rightarrow> world" where
  "mem_remove i s = s\<lparr>wd_mem := (wd_mem s)\<lparr>ms_workloads := AList.delete i (ms_workloads (wd_mem s))\<rparr>\<rparr>"

definition if_logging :: "(world \<Rightarrow> world) \<Rightarrow> world \<Rightarrow> world" where
  \<comment> \<open>\<open>if s.eventStore != nil { _ = \<dots> }\<close>\<close>
  "if_logging f s = (if ms_eventStore (wd_mem s) then f s else s)"

definition NewMemoryStore :: "bool \<Rightarrow> MemoryStore" where
  "NewMemoryStore hasEventStore = \<lparr>ms_workloads = [], ms_watchers = [], ms_eventStore = hasEventStore\<rparr>"

definition mem_stored :: "world \<Rightarrow> string \<Rightarrow> addr option" where
  "mem_stored s = map_of (ms_workloads (wd_mem s))"

definition mem_Get :: "string \<Rightarrow> world \<Rightarrow> (error, addr option) result \<times> world" where
  "mem_Get i s = (Ok (mem_stored s i), s)"

definition mem_List :: "string \<Rightarrow> world \<Rightarrow> (error, addr list) result \<times> world" where
  "mem_List ns s =
     (Ok (filter (\<lambda>a. ns = [] \<or> wl_Namespace (deref s a) = ns) (map snd (ms_workloads (wd_mem s)))), s)"

definition mem_Create :: "addr \<Rightarrow> world \<Rightarrow> error option \<times> world" where
  "mem_Create a s = (case mem_stored s (wl_ID (deref s a)) of
     Some _ \<Rightarrow> (Some ErrWorkloadAlreadyExists, s)
   | None \<Rightarrow>
       let s1 = mem_put (wl_ID (deref s a)) a s;
           s2 = if_logging (RecordWorkloadCreated a) s1
       in (None, mem_notify (workload_event WorkloadDeployRequested a) s2))"

definition mem_Update :: "addr \<Rightarrow> world \<Rightarrow> error option \<times> world" where
  "mem_Update a s = (case mem_stored s (wl_ID (deref s a)) of
     None \<Rightarrow> (Some ErrWorkloadNotFound, s)
   | Some oldWorkload \<Rightarrow>
       let s1 = mem_put (wl_ID (deref s a)) a s;
           s2 = if_logging (RecordWorkloadUpdated a oldWorkload) s1
       in (None, mem_notify (workload_event WorkloadUpdated a) s2))"

definition mem_Delete :: "string \<Rightarrow> world \<Rightarrow> error option \<times> world" where
  "mem_Delete i s = (case mem_stored s i of
     None \<Rightarrow> (Some ErrWorkloadNotFound, s)
   | Some a \<Rightarrow>
       let s1 = mem_remove i s;
           s2 = if_logging (RecordWorkloadDeleted a) s1
       in (None, mem_notify (workload_event WorkloadDeleted a) s2))"

definition mem_Watch :: "world \<Rightarrow> nat \<times> world" where
  "mem_Watch s =
     (let ch = make_chan (wd_chans s) 100
      in (ch_id ch, s\<lparr>wd_chans := Suc (wd_chans s),
            wd_mem := (wd_mem s)\<lparr>ms_watchers := ms_watchers (wd_mem s) @ [ch]\<rparr>\<rparr>))"

definition MemStore :: Store where
  "MemStore = \<lparr>store_Get = mem_Get, store_List = mem_List, store_Create = mem_Create,
     store_Update = mem_Update, store_Delete = mem_Delete, store_Watch = mem_Watch\<rparr>"

section \<open>The versioned store\<close>

definition versions_or_default :: "int \<Rightarrow> int" where
  "versions_or_default maxVersions = (if maxVersions \<le> 0 then 10 else maxVersions)"

definition versioned_Create :: "Store \<Rightarrow> int \<Rightarrow> addr \<Rightarrow> world \<Rightarrow> error option \<times> world" where
  "versioned_Create inner maxVersions a s =
     (let s1 = modify a tags_Apply s;
          s2 = RecordInitial a maxVersions s1
      in store_Create inner a s2)"

definition versioned_Update :: "Store \<Rightarrow> int \<Rightarrow> addr \<Rightarrow> world \<Rightarrow> error option \<times> world" where
  "versioned_Update inner maxVersions a s = (case store_Get inner (wl_ID (deref s a)) s of
     (Inl err, s1) \<Rightarrow> (Some err, s1)
   | (Inr previous, s1) \<Rightarrow>
       let s2 = modify a tags_Apply s1;
           s3 = (case previous of None \<Rightarrow> s2 | Some p \<Rightarrow> RecordBeforeUpdate a p maxVersions s2)
       in store_Update inner a s3)"

definition NewVersionedStore :: "Store \<Rightarrow> int \<Rightarrow> Store" where
  "NewVersionedStore inner maxVersions =
     \<lparr>store_Get = store_Get inner, store_List = store_List inner,
      store_Create = versioned_Create inner (versions_or_default maxVersions),
      store_Update = versioned_Update inner (versions_or_default maxVersions),
      store_Delete = store_Delete inner, store_Watch = store_Watch inner\<rparr>"

section \<open>The contract holds\<close>

lemma mem_put_frame [simp, frame_simps]:
  "wd_heap (mem_put i a s) = wd_heap s" "wd_log (mem_put i a s) = wd_log s"
  "wd_calls (mem_put i a s) = wd_calls s" "wd_fresh (mem_put i a s) = wd_fresh s"
  "wd_clock (mem_put i a s) = wd_clock s" "wd_ids (mem_put i a s) = wd_ids s"
  "ms_workloads (wd_mem (mem_put i a s)) = AList.update i a (ms_workloads (wd_mem s))"
  "ms_eventStore (wd_mem (mem_put i a s)) = ms_eventStore (wd_mem s)"
  by (simp_all add: mem_put_def)

lemma mem_remove_frame [simp, frame_simps]:
  "wd_heap (mem_remove i s) = wd_heap s" "wd_log (mem_remove i s) = wd_log s"
  "wd_calls (mem_remove i s) = wd_calls s" "wd_fresh (mem_remove i s) = wd_fresh s"
  "wd_clock (mem_remove i s) = wd_clock s" "wd_ids (mem_remove i s) = wd_ids s"
  "ms_workloads (wd_mem (mem_remove i s)) = AList.delete i (ms_workloads (wd_mem s))"
  "ms_eventStore (wd_mem (mem_remove i s)) = ms_eventStore (wd_mem s)"
  by (simp_all add: mem_remove_def)

lemma mem_notify_frame [simp, frame_simps]:
  "wd_heap (mem_notify ev s) = wd_heap s" "wd_log (mem_notify ev s) = wd_log s"
  "wd_calls (mem_notify ev s) = wd_calls s" "wd_fresh (mem_notify ev s) = wd_fresh s"
  "wd_clock (mem_notify ev s) = wd_clock s" "wd_ids (mem_notify ev s) = wd_ids s"
  "ms_workloads (wd_mem (mem_notify ev s)) = ms_workloads (wd_mem s)"
  "ms_eventStore (wd_mem (mem_notify ev s)) = ms_eventStore (wd_mem s)"
  by (simp_all add: mem_notify_def)

lemma records_frame [simp, frame_simps]:
  "wd_heap (RecordWorkloadCreated a s) = wd_heap s" "wd_heap (RecordWorkloadUpdated a b s) = wd_heap s"
  "wd_heap (RecordWorkloadDeleted a s) = wd_heap s"
  "wd_mem (RecordWorkloadCreated a s) = wd_mem s" "wd_mem (RecordWorkloadUpdated a b s) = wd_mem s"
  "wd_mem (RecordWorkloadDeleted a s) = wd_mem s"
  "wd_calls (RecordWorkloadCreated a s) = wd_calls s" "wd_calls (RecordWorkloadUpdated a b s) = wd_calls s"
  "wd_calls (RecordWorkloadDeleted a s) = wd_calls s"
  "wd_fresh (RecordWorkloadCreated a s) = wd_fresh s" "wd_fresh (RecordWorkloadUpdated a b s) = wd_fresh s"
  "wd_fresh (RecordWorkloadDeleted a s) = wd_fresh s"
  "wd_clock (RecordWorkloadCreated a s) = wd_clock s" "wd_clock (RecordWorkloadUpdated a b s) = wd_clock s"
  "wd_clock (RecordWorkloadDeleted a s) = wd_clock s"
  "wd_ids (RecordWorkloadCreated a s) = wd_ids s" "wd_ids (RecordWorkloadUpdated a b s) = wd_ids s"
  "wd_ids (RecordWorkloadDeleted a s) = wd_ids s"
  by (simp_all add: record_defs Let_def)

definition mem_valid :: "world \<Rightarrow> bool" where
  "mem_valid s = wf_map (ms_workloads (wd_mem s))"

lemmas mem_defs = mem_Get_def mem_List_def mem_Create_def mem_Update_def mem_Delete_def

lemma mem_List_entries:
  assumes "wf_map m"
  shows "\<exists>ids. distinct ids \<and> set ids = {i. \<exists>a. map_of m i = Some a \<and> P a} \<and>
    filter P (map snd m) = map (\<lambda>i. the (map_of m i)) ids"
proof (intro exI conjI)
  let ?ids = "map fst (filter (\<lambda>(_, a). P a) m)"
  show "distinct ?ids" using assms unfolding wf_map_def by (rule distinct_map_filter)
  show "set ?ids = {i. \<exists>a. map_of m i = Some a \<and> P a}"
    using assms by (auto simp: wf_map_map_of intro: rev_image_eqI)
  have "filter P (map snd m) = map snd (filter (\<lambda>(_, a). P a) m)"
    by (induction m) auto
  also have "\<dots> = map (\<lambda>i. the (map_of m i)) ?ids"
    using assms by (auto simp: wf_map_def)
  finally show "filter P (map snd m) = map (\<lambda>i. the (map_of m i)) ?ids" .
qed

interpretation mem: workload_store MemStore mem_stored mem_valid
proof (unfold_locales, goal_cases)
  case (2 s ns)
  then show ?case
    using mem_List_entries [of "ms_workloads (wd_mem s)" "\<lambda>a. ns = [] \<or> wl_Namespace (deref s a) = ns"]
    by (simp add: MemStore_def mem_List_def mem_stored_def mem_valid_def)
qed (auto simp: MemStore_def mem_defs mem_stored_def mem_valid_def if_logging_def Let_def update_conv' delete_conv'
      store_frame_world fun_eq_iff split: option.splits)

context workload_store
begin

lemma versioned_prepare_Create:
  "store_frame s (RecordInitial a n (modify a tags_Apply s))"
  "wd_mem (RecordInitial a n (modify a tags_Apply s)) = wd_mem s"
  using store_frame_trans [OF store_frame_modify RecordInitial_frame(1)] by (simp_all add: RecordInitial_frame(2))

lemma versioned_prepare_Update:
  "store_frame s (case p of None \<Rightarrow> modify a tags_Apply s | Some b \<Rightarrow> RecordBeforeUpdate a b n (modify a tags_Apply s))"
  "wd_mem (case p of None \<Rightarrow> modify a tags_Apply s | Some b \<Rightarrow> RecordBeforeUpdate a b n (modify a tags_Apply s)) = wd_mem s"
  using store_frame_trans [OF store_frame_modify RecordBeforeUpdate_frame(1)] store_frame_modify
  by (auto simp: RecordBeforeUpdate_frame(2) split: option.split)

lemma versioned_Create_inner:
  obtains s2 where "store_Create (NewVersionedStore st n) a s = store_Create st a s2"
    "store_frame s s2" "stored s2 = stored s" "valid s2 = valid s" "wl_ID (deref s2 a) = wl_ID (deref s a)"
proof
  let ?s = "RecordInitial a (versions_or_default n) (modify a tags_Apply s)"
  show "store_Create (NewVersionedStore st n) a s = store_Create st a ?s"
    by (simp add: NewVersionedStore_def versioned_Create_def)
  show "store_frame s ?s" by (rule versioned_prepare_Create)
  then show "wl_ID (deref ?s a) = wl_ID (deref s a)" by (rule store_frame_id)
qed (rule stored_mem valid_mem, rule versioned_prepare_Create)+

lemma versioned_Update_inner:
  obtains s2 where "store_Update (NewVersionedStore st n) a s = store_Update st a s2"
    "store_frame s s2" "stored s2 = stored s" "valid s2 = valid s" "wl_ID (deref s2 a) = wl_ID (deref s a)"
proof
  let ?s = "case stored s (wl_ID (deref s a)) of None \<Rightarrow> modify a tags_Apply s
    | Some b \<Rightarrow> RecordBeforeUpdate a b (versions_or_default n) (modify a tags_Apply s)"
  show "store_Update (NewVersionedStore st n) a s = store_Update st a ?s"
    by (simp add: NewVersionedStore_def versioned_Update_def Get Let_def)
  show "store_frame s ?s" by (rule versioned_prepare_Update)
  then show "wl_ID (deref ?s a) = wl_ID (deref s a)" by (rule store_frame_id)
qed (rule stored_mem valid_mem, rule versioned_prepare_Update)+

lemma versioned_is_store: "workload_store (NewVersionedStore st n) stored valid"
proof (unfold_locales, goal_cases)
  case (3 s a)
  obtain s2 where s2: "store_Create (NewVersionedStore st n) a s = store_Create st a s2"
    "store_frame s s2" "stored s2 = stored s" "wl_ID (deref s2 a) = wl_ID (deref s a)"
    by (rule versioned_Create_inner [of n a s])
  then show ?case using Create_new [of s2 a] 3 by (auto intro: store_frame_trans)
next
  case (4 s a b)
  obtain s2 where s2: "store_Create (NewVersionedStore st n) a s = store_Create st a s2"
    "store_frame s s2" "stored s2 = stored s" "wl_ID (deref s2 a) = wl_ID (deref s a)"
    by (rule versioned_Create_inner [of n a s])
  then show ?case using Create_known [of s2 a] 4 by (auto intro: store_frame_trans)
next
  case (5 s a b)
  obtain s2 where s2: "store_Update (NewVersionedStore st n) a s = store_Update st a s2"
    "store_frame s s2" "stored s2 = stored s" "wl_ID (deref s2 a) = wl_ID (deref s a)"
    by (rule versioned_Update_inner [of n a s])
  then show ?case using Update_known [of s2 a] 5 by (auto intro: store_frame_trans)
next
  case (6 s a)
  obtain s2 where s2: "store_Update (NewVersionedStore st n) a s = store_Update st a s2"
    "store_frame s s2" "stored s2 = stored s" "wl_ID (deref s2 a) = wl_ID (deref s a)"
    by (rule versioned_Update_inner [of n a s])
  then show ?case using Update_new [of s2 a] 6 by (auto intro: store_frame_trans)
next
  case (11 s a)
  then show ?case by (metis versioned_Create_inner valid_Create)
next
  case (12 s a)
  then show ?case by (metis versioned_Update_inner valid_Update)
next
  case (9 s' s)
  then show ?case by (rule stored_mem)
next
  case (10 s' s)
  then show ?case by (rule valid_mem)
qed (simp_all add: NewVersionedStore_def Get List Delete_known Delete_new valid_Delete)

end

interpretation vs: workload_store "NewVersionedStore MemStore n" mem_stored mem_valid for n
  by (rule mem.versioned_is_store)

section \<open>The store is a map\<close>

datatype store_op = OpCreate addr | OpUpdate addr | OpDelete string

fun store_exec :: "Store \<Rightarrow> store_op \<Rightarrow> world \<Rightarrow> error option \<times> world" where
  "store_exec st (OpCreate a) s = store_Create st a s"
| "store_exec st (OpUpdate a) s = store_Update st a s"
| "store_exec st (OpDelete i) s = store_Delete st i s"

fun map_exec :: "(addr \<Rightarrow> string) \<Rightarrow> store_op \<Rightarrow> (string \<Rightarrow> addr option) \<Rightarrow> error option \<times> (string \<Rightarrow> addr option)" where
  "map_exec ident (OpCreate a) m =
     (if m (ident a) = None then (None, m(ident a \<mapsto> a)) else (Some ErrWorkloadAlreadyExists, m))"
| "map_exec ident (OpUpdate a) m =
     (if m (ident a) = None then (Some ErrWorkloadNotFound, m) else (None, m(ident a \<mapsto> a)))"
| "map_exec ident (OpDelete i) m =
     (if m i = None then (Some ErrWorkloadNotFound, m) else (None, m(i := None)))"

definition idents :: "world \<Rightarrow> addr \<Rightarrow> string" where
  "idents s a = wl_ID (deref s a)"

fun run_all :: "('op \<Rightarrow> 's \<Rightarrow> 'r \<times> 's) \<Rightarrow> 'op list \<Rightarrow> 's \<Rightarrow> 'r list \<times> 's" where
  "run_all f [] s = ([], s)"
| "run_all f (p # ps) s = (let (r, s1) = f p s; (rs, s2) = run_all f ps s1 in (r # rs, s2))"

context workload_store
begin

lemma store_exec_map:
  "map_exec (idents s) p (stored s) = (fst (store_exec st p s), stored (snd (store_exec st p s)))"
proof (cases p)
  case (OpCreate a)
  then show ?thesis using Create_new [of s a] Create_known [of s a]
    by (cases "stored s (wl_ID (deref s a))") (auto simp: idents_def)
next
  case (OpUpdate a)
  then show ?thesis using Update_new [of s a] Update_known [of s a]
    by (cases "stored s (wl_ID (deref s a))") (auto simp: idents_def)
next
  case (OpDelete i)
  then show ?thesis using Delete_new [of s i] Delete_known [of s i] by (cases "stored s i") auto
qed

lemma store_exec_frame: "store_frame s (snd (store_exec st p s))"
  by (cases p) (auto simp: Create_frame Update_frame Delete_frame)

lemma store_exec_idents: "idents (snd (store_exec st p s)) = idents s"
  using store_exec_frame [of s p] by (auto simp: idents_def fun_eq_iff store_frame_id)

lemma run_all_map:
  "run_all (map_exec (idents s)) ps (stored s) =
     (fst (run_all (store_exec st) ps s), stored (snd (run_all (store_exec st) ps s)))"
proof (induction ps arbitrary: s)
  case (Cons p ps)
  obtain r s1 where e: "store_exec st p s = (r, s1)" by fastforce
  have m: "map_exec (idents s) p (stored s) = (r, stored s1)" using store_exec_map [of s p] by (simp add: e)
  have i: "idents s = idents s1" using store_exec_idents [of p s] by (simp add: e)
  show ?case using Cons.IH [of s1] by (simp add: e m) (simp add: i split_beta)
qed simp

lemma run_all_keyed: "keyed stored s \<Longrightarrow> keyed stored (snd (run_all (store_exec st) ps s))"
proof (induction ps arbitrary: s)
  case (Cons p ps)
  have "keyed stored (snd (store_exec st p s))"
    using Cons.prems by (cases p) (auto simp: keyed_Create keyed_Update keyed_Delete)
  then show ?case using Cons.IH by (simp add: split_beta)
qed simp

end

text \<open>
  C1. Refinement: every sequence of creates, updates and deletes on the versioned in-memory
  store returns the same errors and leaves the same id-to-object map as the abstract map
  specification, and every object stays stored under its own id.
\<close>

theorem versioned_store_refines_map:
  assumes "keyed mem_stored s"
  shows "run_all (map_exec (idents s)) ps (mem_stored s) =
      (fst (run_all (store_exec (NewVersionedStore MemStore n)) ps s),
       mem_stored (snd (run_all (store_exec (NewVersionedStore MemStore n)) ps s))) \<and>
    keyed mem_stored (snd (run_all (store_exec (NewVersionedStore MemStore n)) ps s))"
  using vs.run_all_map [of s ps n] vs.run_all_keyed [OF assms, of n ps] by blast

section \<open>The audit trail\<close>

fun op_target :: "world \<Rightarrow> store_op \<Rightarrow> string" where
  "op_target s (OpCreate a) = wl_ID (deref s a)"
| "op_target s (OpUpdate a) = wl_ID (deref s a)"
| "op_target s (OpDelete i) = i"

fun op_event :: "store_op \<Rightarrow> string" where
  "op_event (OpCreate a) = ''WorkloadCreated''"
| "op_event (OpUpdate a) = ''WorkloadUpdated''"
| "op_event (OpDelete i) = ''WorkloadDeleted''"

definition audited :: "world \<Rightarrow> bool" where
  "audited s = (es_Enabled (wd_log s) \<and> ms_eventStore (wd_mem s))"

lemma Append_log_fun:
  "es_Enabled (wd_log s) \<Longrightarrow> de_Type ev = ty \<Longrightarrow> de_Aggregate ev = i \<Longrightarrow> \<exists>e. de_Type e = ty \<and>
   log_of (wd_log (Append ev s)) = (log_of (wd_log s))(i := log_of (wd_log s) i @ [e])"
  by (rule exI [of _ "stamped s ev"]) (auto simp: Append_log_of fun_eq_iff)

lemma records_log:
  assumes "es_Enabled (wd_log s)"
  shows "\<exists>e. de_Type e = ''WorkloadCreated'' \<and> log_of (wd_log (RecordWorkloadCreated a s)) =
      (log_of (wd_log s))(wl_ID (deref s a) := log_of (wd_log s) (wl_ID (deref s a)) @ [e])"
    and "\<exists>e. de_Type e = ''WorkloadUpdated'' \<and> log_of (wd_log (RecordWorkloadUpdated a b s)) =
      (log_of (wd_log s))(wl_ID (deref s a) := log_of (wd_log s) (wl_ID (deref s a)) @ [e])"
    and "\<exists>e. de_Type e = ''WorkloadDeleted'' \<and> log_of (wd_log (RecordWorkloadDeleted a s)) =
      (log_of (wd_log s))(wl_ID (deref s a) := log_of (wd_log s) (wl_ID (deref s a)) @ [e])"
  unfolding record_defs Let_def
  by (intro Append_log_fun [OF assms]; simp add: domain_event_def)+

lemma mem_exec_log:
  assumes "audited s" "keyed mem_stored s" "store_exec MemStore p s = (r, s')"
  shows "if r = None
    then \<exists>ev. de_Type ev = op_event p \<and> log_of (wd_log s') =
           (log_of (wd_log s))(op_target s p := log_of (wd_log s) (op_target s p) @ [ev])
    else wd_log s' = wd_log s"
proof (cases p)
  case (OpCreate a)
  then show ?thesis
    using assms records_log(1) [of "mem_put (wl_ID (deref s a)) a s" a]
    by (cases "mem_stored s (wl_ID (deref s a))")
       (auto simp: MemStore_def mem_Create_def audited_def if_logging_def)
next
  case (OpUpdate a)
  then show ?thesis
    using assms records_log(2) [of "mem_put (wl_ID (deref s a)) a s" a]
    by (cases "mem_stored s (wl_ID (deref s a))")
       (auto simp: MemStore_def mem_Update_def audited_def if_logging_def)
next
  case (OpDelete i)
  show ?thesis
  proof (cases "mem_stored s i")
    case (Some a)
    then have "wl_ID (deref s a) = i" using assms(2) by (simp add: keyed_def)
    then show ?thesis
      using assms records_log(3) [of "mem_remove i s" a] OpDelete Some
      by (auto simp: MemStore_def mem_Delete_def audited_def if_logging_def)
  qed (use assms OpDelete in \<open>auto simp: MemStore_def mem_Delete_def\<close>)
qed

lemma versioned_exec_inner:
  obtains s2 where "store_exec (NewVersionedStore MemStore n) p s = store_exec MemStore p s2"
    "wd_log s2 = wd_log s" "wd_mem s2 = wd_mem s" "idents s2 = idents s"
proof (cases p)
  case (OpCreate a)
  let ?s = "RecordInitial a (versions_or_default n) (modify a tags_Apply s)"
  have "store_exec (NewVersionedStore MemStore n) p s = store_exec MemStore p ?s"
    by (simp add: OpCreate NewVersionedStore_def versioned_Create_def)
  moreover have "idents ?s = idents s"
    using mem.versioned_prepare_Create(1) by (auto simp: idents_def fun_eq_iff intro: store_frame_id)
  ultimately show thesis by (intro that [of ?s]) (simp_all add: RecordInitial_frame)
next
  case (OpUpdate a)
  let ?s = "case mem_stored s (wl_ID (deref s a)) of None \<Rightarrow> modify a tags_Apply s
    | Some b \<Rightarrow> RecordBeforeUpdate a b (versions_or_default n) (modify a tags_Apply s)"
  have "store_exec (NewVersionedStore MemStore n) p s = store_exec MemStore p ?s"
    by (simp add: OpUpdate NewVersionedStore_def versioned_Update_def mem.Get Let_def)
  moreover have "idents ?s = idents s"
    using mem.versioned_prepare_Update(1) by (auto simp: idents_def fun_eq_iff intro: store_frame_id)
  ultimately show thesis
    by (intro that [of ?s]) (auto simp: RecordBeforeUpdate_frame split: option.split)
next
  case (OpDelete i)
  then show thesis by (intro that [of s]) (simp_all add: NewVersionedStore_def)
qed

text \<open>
  C19. The audit trail is exact: with event sourcing enabled, a successful create, update or
  delete on the versioned store appends exactly one event, of the matching type, to the
  log of the workload it names and to no other, and a failed one appends nothing.
\<close>

theorem audit_one_event_per_change:
  assumes "audited s" "keyed mem_stored s" "store_exec (NewVersionedStore MemStore n) p s = (r, s')"
  shows "if r = None
    then \<exists>ev. de_Type ev = op_event p \<and> log_of (wd_log s') =
           (log_of (wd_log s))(op_target s p := log_of (wd_log s) (op_target s p) @ [ev])
    else wd_log s' = wd_log s"
proof -
  obtain s2 where s2: "store_exec (NewVersionedStore MemStore n) p s = store_exec MemStore p s2"
    "wd_log s2 = wd_log s" "wd_mem s2 = wd_mem s" "idents s2 = idents s"
    by (rule versioned_exec_inner)
  have ids: "wl_ID (deref s2 a) = wl_ID (deref s a)" for a
    using s2(4) by (simp add: idents_def fun_eq_iff)
  then have target: "op_target s2 p = op_target s p" by (cases p) auto
  have inv: "audited s2" "keyed mem_stored s2"
    using assms(1,2) s2(2,3) ids by (auto simp: audited_def keyed_def mem_stored_def)
  have "store_exec MemStore p s2 = (r, s')" using assms(3) s2(1) by simp
  from mem_exec_log [OF inv this] show ?thesis unfolding target s2(2) .
qed

section \<open>Revision history\<close>

lemma versions_or_default_pos [simp]: "0 < versions_or_default n"
  by (simp add: versions_or_default_def)

lemma versions_or_default_not [simp]: "\<not> versions_or_default n \<le> 0"
  by (simp add: versions_or_default_def)

lemma mem_exec_heap: "wd_heap (snd (store_exec MemStore p s)) = wd_heap s"
  by (cases p)
     (auto simp: MemStore_def mem_Create_def mem_Update_def mem_Delete_def if_logging_def Let_def split: option.split)

lemma versioned_exec_history_ok:
  assumes "\<And>b. history_ok (versions_or_default n) (deref s b)"
  shows "history_ok (versions_or_default n) (deref (snd (store_exec (NewVersionedStore MemStore n) p s)) b)"
proof -
  let ?n = "versions_or_default n"
  have applied: "history_ok ?n (deref (modify a tags_Apply s) b)" for a b using assms by simp
  show ?thesis
  proof (cases p)
    case (OpCreate a)
    have "snd (store_exec (NewVersionedStore MemStore n) p s)
        = snd (store_exec MemStore p (RecordInitial a ?n (modify a tags_Apply s)))"
      by (simp add: OpCreate NewVersionedStore_def versioned_Create_def)
    then show ?thesis using RecordInitial_history_ok [OF _ applied] by (simp add: mem_exec_heap)
  next
    case (OpUpdate a)
    have "snd (store_exec (NewVersionedStore MemStore n) p s) = snd (store_exec MemStore p
        (case mem_stored s (wl_ID (deref s a)) of None \<Rightarrow> modify a tags_Apply s
         | Some b \<Rightarrow> RecordBeforeUpdate a b ?n (modify a tags_Apply s)))"
      by (simp add: OpUpdate NewVersionedStore_def versioned_Update_def mem.Get Let_def)
    then show ?thesis using RecordBeforeUpdate_history_ok [OF _ applied] applied
      by (simp add: mem_exec_heap split: option.split del: modify_frame)
  next
    case (OpDelete i)
    have "snd (store_exec (NewVersionedStore MemStore n) p s) = snd (store_exec MemStore p s)"
      by (simp add: OpDelete NewVersionedStore_def)
    then show ?thesis using assms by (simp add: mem_exec_heap)
  qed
qed

text \<open>
  C30. Retention: from a heap whose workloads keep the bound, no sequence of operations on the
  versioned store gives any workload more than the configured number of revisions (10 when
  the configuration is not positive), and the count in the status is their number.
\<close>

theorem rollback_history_is_bounded:
  assumes "\<And>b. history_ok (versions_or_default n) (deref s b)"
  shows "history_ok (versions_or_default n) (deref (snd (run_all (store_exec (NewVersionedStore MemStore n)) ps s)) b)"
  using assms
proof (induction ps arbitrary: s)
  case (Cons p ps)
  then show ?case using versioned_exec_history_ok [of n s p] by (simp add: split_beta)
qed simp

lemma versioned_Update_known:
  assumes "mem_stored s (wl_ID (deref s a)) = Some p"
  shows "store_Update (NewVersionedStore MemStore n) a s =
    mem_Update a (RecordBeforeUpdate a p (versions_or_default n) (modify a tags_Apply s))"
  using assms by (simp add: NewVersionedStore_def versioned_Update_def mem.Get) (simp add: MemStore_def)

lemma mem_Update_heap [simp]: "wd_heap (snd (mem_Update a s)) = wd_heap s"
  using mem_exec_heap [of "OpUpdate a" s] by (simp add: MemStore_def)

text \<open>
  An update through the pointer the store handed out records no revision: the object is
  its own predecessor, so its revision list and its rollback status stay as they were,
  whatever the caller changed in its spec before the call.
\<close>

theorem update_in_place_records_no_revision:
  assumes "mem_stored s i = Some a" "wl_ID (edit (deref s a)) = i"
  shows "wl_RollbackVersions (deref (snd (store_Update (NewVersionedStore MemStore n) a (modify a edit s))) a)
      = wl_RollbackVersions (edit (deref s a)) \<and>
    st_Rollback (wl_Status (deref (snd (store_Update (NewVersionedStore MemStore n) a (modify a edit s))) a))
      = st_Rollback (wl_Status (edit (deref s a)))"
proof -
  have "mem_stored (modify a edit s) (wl_ID (deref (modify a edit s) a)) = Some a"
    using assms by (simp add: mem_stored_def)
  from versioned_Update_known [OF this, of n] show ?thesis by (simp add: same_object_records_nothing)
qed

text \<open>
  An update with a new object that changes image, replicas or backend puts a snapshot of
  the previous spec at the front of the new object's revisions and makes it the active one.
\<close>

theorem update_records_previous_spec:
  assumes "mem_stored s i = Some p" "wl_ID (deref s a) = i" "a \<noteq> p"
    and "\<not> specsEqual (wl_Spec (deref s p)) (wl_Spec (deref s a))"
  shows "\<exists>r s'. store_Update (NewVersionedStore MemStore n) a s = (None, s') \<and> mem_stored s' i = Some a \<and>
    wl_RollbackVersions (deref s' a) = take (nat (versions_or_default n)) (r # wl_RollbackVersions (deref s a)) \<and>
    rv_Spec r = wl_Spec (deref s p) \<and> wl_Spec (deref s' a) = wl_Spec (deref s a) \<and>
    map_option rh_ActiveID (st_Rollback (wl_Status (deref s' a))) = Some (rv_ID r)"
proof -
  let ?n = "versions_or_default n"
  let ?s1 = "modify a tags_Apply s"
  let ?r = "fst (snapshotRevision p ''update'' ?s1)"
  let ?s2 = "RecordBeforeUpdate a p ?n ?s1"
  have "\<not> specsEqual (wl_Spec (deref ?s1 p)) (wl_Spec (deref ?s1 a))" using assms(3,4) by simp
  then have s2: "?s2 = modify a (record_revision ?r ?n) (snd (snapshotRevision p ''update'' ?s1))"
    using versions_or_default_pos [of n] by (simp add: RecordBeforeUpdate_def Let_def split_beta)
  have w: "deref ?s2 a = record_revision ?r ?n (tags_Apply (deref s a))"
    using assms(3) by (simp add: s2 snapshotRevision_frame(4))
  have r: "rv_Spec ?r = wl_Spec (deref s p)"
    using assms(3) by (simp add: snapshotRevision_def revision_of_def Let_def split_beta)
  have upd: "store_Update (NewVersionedStore MemStore n) a s = mem_Update a ?s2"
    using versioned_Update_known [of s a p n] assms(1,2) by simp
  have "fst (mem_Update a ?s2) = None" "mem_stored (snd (mem_Update a ?s2)) i = Some a"
    using assms(1,2) w RecordBeforeUpdate_frame(2) [of a p ?n ?s1]
    by (simp_all add: mem_Update_def mem_stored_def if_logging_def Let_def update_conv')
  moreover have "prependRevision v ?r ?n = take (nat ?n) (?r # v)" for v
    by (rule prependRevision_eq) simp
  moreover have "map_option rh_ActiveID (st_Rollback (wl_Status (record_revision ?r ?n (tags_Apply (deref s a))))) = Some (rv_ID ?r)"
    by (simp add: record_revision_def)
  ultimately show ?thesis
    unfolding upd by (intro exI [of _ ?r] exI [of _ "snd (mem_Update a ?s2)"]) (simp add: w r prod_eq_iff del: modify_frame)
qed

section \<open>Reverting\<close>

lemma restore_revision_frame [simp]:
  "wl_Spec (restore_revision r w) = rv_Spec r" "wl_ID (restore_revision r w) = wl_ID w"
  "wl_RollbackVersions (restore_revision r w) = wl_RollbackVersions w"
  "wl_Status (restore_revision r w) = wl_Status w"
  by (simp_all add: restore_revision_def Let_def)

lemma captured_copy_spec [simp]: "wl_Spec (captured_copy r w) = wl_Spec w"
  by (simp add: captured_copy_def)

lemma versioned_Update_in_place:
  assumes "mem_stored s (wl_ID (deref s a)) = Some a"
  shows "\<exists>s'. store_Update (NewVersionedStore MemStore n) a s = (None, s') \<and> mem_stored s' = mem_stored s \<and>
    wd_fresh s' = wd_fresh s \<and> deref s' a = SyncFromLabels (tags_Apply (deref s a))"
proof -
  let ?s = "modify a SyncFromLabels (modify a tags_Apply s)"
  have upd: "store_Update (NewVersionedStore MemStore n) a s = mem_Update a ?s"
    by (simp only: versioned_Update_known [OF assms] same_object_records_nothing versions_or_default_not if_False)
  have "mem_stored ?s (wl_ID (deref ?s a)) = Some a" using assms by (simp add: mem_stored_def)
  from mem.Update_known [OF this] obtain s' where
    s': "mem_Update a ?s = (None, s')" "mem_stored s' = (mem_stored ?s)(wl_ID (deref ?s a) \<mapsto> a)" "store_frame ?s s'"
    by (auto simp: MemStore_def)
  have "deref s' a = deref ?s a" using mem_Update_heap [of a ?s] by (simp add: s'(1))
  then show ?thesis
    using s' assms by (simp add: upd mem_stored_def store_frame_def fun_upd_idem)
qed

definition reverted :: "WorkloadRevision \<Rightarrow> string \<Rightarrow> int \<Rightarrow> addr \<Rightarrow> world \<Rightarrow> world" where
  \<comment> \<open>the world \<open>Revert\<close> hands to \<open>store.Update\<close>\<close>
  "reverted r rid maxN a s =
     (let s3 = assign a (restore_revision r (deref s a)) (snd (alloc (captured_copy r (deref s a)) s));
          s4 = RecordBeforeUpdate a (wd_fresh s) maxN s3
      in modify a (\<lambda>w. refreshStatus maxN rid (w\<lparr>wl_UpdatedAt := fst (time_Now s4)\<rparr>)) (snd (time_Now s4)))"

lemma Revert_eq:
  assumes "mem_stored s i = Some a" "findRevision (wl_RollbackVersions (deref s a)) rid = Some r" "0 < maxN"
  shows "Revert (NewVersionedStore MemStore n) i rid maxN s =
    (case store_Update (NewVersionedStore MemStore n) a (reverted r rid maxN a s) of
       (Some err, s7) \<Rightarrow> (Err err, s7) | (None, s7) \<Rightarrow> (Ok a, s7))"
  using assms
  by (simp add: Revert_def reverted_def vs.Get Let_def split_beta alloc_def [THEN arg_cong [where f = fst]]
        cong: option.case_cong)

lemma reverted_state:
  assumes "a < wd_fresh s" "\<not> specsEqual (wl_Spec (deref s a)) (rv_Spec r)" "0 < maxN"
  shows "wd_mem (reverted r rid maxN a s) = wd_mem s" "wd_fresh (reverted r rid maxN a s) = Suc (wd_fresh s)"
    and "\<exists>snap u. rv_Spec snap = wl_Spec (deref s a) \<and> deref (reverted r rid maxN a s) a =
      refreshStatus maxN rid ((record_revision snap maxN (restore_revision r (deref s a)))\<lparr>wl_UpdatedAt := u\<rparr>)"
proof -
  let ?c = "wd_fresh s"
  let ?s3 = "assign a (restore_revision r (deref s a)) (snd (alloc (captured_copy r (deref s a)) s))"
  let ?snap = "fst (snapshotRevision ?c ''update'' ?s3)"
  have ca: "a \<noteq> ?c" using assms(1) by simp
  have heap3: "deref ?s3 a = restore_revision r (deref s a)" "deref ?s3 ?c = captured_copy r (deref s a)"
      "wd_mem ?s3 = wd_mem s" "wd_fresh ?s3 = Suc ?c"
    using ca by (simp_all add: alloc_def)
  have s4: "RecordBeforeUpdate a ?c maxN ?s3
      = modify a (record_revision ?snap maxN) (snd (snapshotRevision ?c ''update'' ?s3))"
    using assms(2,3) heap3(1,2) by (simp add: RecordBeforeUpdate_def Let_def split_beta)
  show "wd_mem (reverted r rid maxN a s) = wd_mem s" "wd_fresh (reverted r rid maxN a s) = Suc ?c"
    using snapshotRevision_frame [where s = ?s3 and a = ?c and reason = "''update''"] heap3(3,4)
    by (simp_all add: reverted_def Let_def s4 store_frame_def del: assign_frame)
  have "rv_Spec ?snap = wl_Spec (deref s a)"
    using heap3(2) by (simp add: snapshotRevision_def revision_of_def Let_def split_beta)
  moreover have "deref (snd (snapshotRevision ?c ''update'' ?s3)) a = restore_revision r (deref s a)"
    using ca heap3(1) by (simp add: snapshotRevision_frame(4))
  ultimately show "\<exists>snap u. rv_Spec snap = wl_Spec (deref s a) \<and> deref (reverted r rid maxN a s) a =
      refreshStatus maxN rid ((record_revision snap maxN (restore_revision r (deref s a)))\<lparr>wl_UpdatedAt := u\<rparr>)"
    by (intro exI [of _ ?snap]) (auto simp: reverted_def Let_def s4)
qed

lemma Revert_versioned:
  assumes "mem_stored s i = Some a" "wl_ID (deref s a) = i" "a < wd_fresh s"
    and "findRevision (wl_RollbackVersions (deref s a)) rid = Some r"
    and "\<not> specsEqual (wl_Spec (deref s a)) (rv_Spec r)" "0 < maxN"
  shows "\<exists>snap s'. Revert (NewVersionedStore MemStore n) i rid maxN s = (Ok a, s') \<and>
    mem_stored s' = mem_stored s \<and> wl_ID (deref s' a) = i \<and> a < wd_fresh s' \<and>
    wl_Spec (deref s' a) = rv_Spec r \<and> rv_Spec snap = wl_Spec (deref s a) \<and>
    wl_RollbackVersions (deref s' a) = take (nat maxN) (snap # wl_RollbackVersions (deref s a)) \<and>
    map_option rh_ActiveID (st_Rollback (wl_Status (deref s' a))) = Some rid"
proof -
  let ?s6 = "reverted r rid maxN a s"
  note frame = reverted_state(1,2) [OF assms(3,5,6), of rid]
  obtain snap u where w6: "rv_Spec snap = wl_Spec (deref s a)" "deref ?s6 a =
      refreshStatus maxN rid ((record_revision snap maxN (restore_revision r (deref s a)))\<lparr>wl_UpdatedAt := u\<rparr>)"
    using reverted_state(3) [OF assms(3,5,6)] by blast
  have "mem_stored ?s6 (wl_ID (deref ?s6 a)) = Some a" using assms(1,2) frame(1) by (simp add: mem_stored_def w6)
  from versioned_Update_in_place [OF this, of n] obtain s' where
    s': "store_Update (NewVersionedStore MemStore n) a ?s6 = (None, s')" "mem_stored s' = mem_stored s"
      "wd_fresh s' = Suc (wd_fresh s)" "deref s' a = SyncFromLabels (tags_Apply (deref ?s6 a))"
    using frame by (auto simp: mem_stored_def)
  then show ?thesis
    using assms(2,3,6) w6(1) Revert_eq [OF assms(1,4,6), of n]
    by (intro exI [of _ snap] exI [of _ s']) (simp add: w6(2) prependRevision_eq)
qed


text \<open>
  Round trip: reverting and then reverting to the revision the first revert recorded
  brings back the original spec.
\<close>

theorem revert_of_revert_is_identity:
  assumes "mem_stored s i = Some a" "wl_ID (deref s a) = i" "a < wd_fresh s"
    and "findRevision (wl_RollbackVersions (deref s a)) rid = Some r"
    and "\<not> specsEqual (wl_Spec (deref s a)) (rv_Spec r)" "0 < maxN"
  shows "\<exists>s1 rid' s2. Revert (NewVersionedStore MemStore n) i rid maxN s = (Ok a, s1) \<and>
    rid' = rv_ID (hd (wl_RollbackVersions (deref s1 a))) \<and>
    Revert (NewVersionedStore MemStore n) i rid' maxN s1 = (Ok a, s2) \<and>
    wl_Spec (deref s2 a) = wl_Spec (deref s a)"
proof -
  obtain snap s1 where s1: "Revert (NewVersionedStore MemStore n) i rid maxN s = (Ok a, s1)"
    "mem_stored s1 i = Some a" "wl_ID (deref s1 a) = i" "a < wd_fresh s1"
    "wl_Spec (deref s1 a) = rv_Spec r" "rv_Spec snap = wl_Spec (deref s a)"
    "wl_RollbackVersions (deref s1 a) = take (nat maxN) (snap # wl_RollbackVersions (deref s a))"
    using Revert_versioned [OF assms, of n] assms(1) by fastforce
  have hd1: "hd (wl_RollbackVersions (deref s1 a)) = snap"
    and f: "findRevision (wl_RollbackVersions (deref s1 a)) (rv_ID snap) = Some snap"
    using s1(7) assms(6) by (cases "nat maxN"; simp add: findRevision_def)+
  have "\<not> specsEqual (wl_Spec (deref s1 a)) (rv_Spec snap)"
    using assms(5) by (auto simp: s1 specsEqual_def)
  from Revert_versioned [OF s1(2-4) f this assms(6), of n] show ?thesis
    using s1(1,6) hd1 by metis
qed

section \<open>Witnesses\<close>

definition demo_world :: "(addr \<Rightarrow> Workload) \<Rightarrow> (string \<times> addr) list \<Rightarrow> world" where
  "demo_world h m = (empty_world (eventsourcing_New True 0))\<lparr>wd_heap := h, wd_fresh := 10,
     wd_mem := \<lparr>ms_workloads = m, ms_watchers = [], ms_eventStore = True\<rparr>\<rparr>"

definition demo_workload :: "string \<Rightarrow> string \<Rightarrow> Workload" where
  "demo_workload i img = zero_workload\<lparr>wl_ID := i, wl_Spec := zero_spec\<lparr>sp_Image := img\<rparr>\<rparr>"

definition demo_revision :: "string \<Rightarrow> string \<Rightarrow> WorkloadRevision" where
  "demo_revision i img = \<lparr>rv_ID = i, rv_RecordedAt = 0, rv_Spec = zero_spec\<lparr>sp_Image := img\<rparr>,
     rv_Tags = None, rv_Labels = None, rv_ChangeReason = ''create''\<rparr>"

lemma demo_simps [simp]:
  "wd_heap (demo_world h m) = h" "wd_fresh (demo_world h m) = 10" "mem_stored (demo_world h m) = map_of m"
  "wd_log (demo_world h m) = eventsourcing_New True 0" "ms_eventStore (wd_mem (demo_world h m))"
  "wl_ID (demo_workload i img) = i" "wl_Spec (demo_workload i img) = zero_spec\<lparr>sp_Image := img\<rparr>"
  "rv_Spec (demo_revision j img) = zero_spec\<lparr>sp_Image := img\<rparr>" "rv_ID (demo_revision j img) = j"
  by (simp_all add: demo_world_def demo_workload_def demo_revision_def mem_stored_def)

theorem versioned_store_refines_map_witness:
  "fst (run_all (store_exec (NewVersionedStore MemStore 5)) [OpCreate 0, OpCreate 0, OpUpdate 0, OpDelete ''b'']
      (demo_world (\<lambda>_. demo_workload ''a'' ''v1'') []))
    = [None, Some ErrWorkloadAlreadyExists, None, Some ErrWorkloadNotFound]"
  using versioned_store_refines_map
    [of "demo_world (\<lambda>_. demo_workload ''a'' ''v1'') []" "[OpCreate 0, OpCreate 0, OpUpdate 0, OpDelete ''b'']" 5]
  by (simp add: keyed_def idents_def)

theorem audit_one_event_per_change_witness:
  "let s' = snd (store_exec (NewVersionedStore MemStore 5) (OpCreate 0) (demo_world (\<lambda>_. demo_workload ''a'' ''v1'') []))
   in \<exists>ev. de_Type ev = ''WorkloadCreated'' \<and> log_of (wd_log s') ''a'' = [ev]"
proof -
  let ?s = "demo_world (\<lambda>_. demo_workload ''a'' ''v1'') []"
  obtain s' where s': "store_exec (NewVersionedStore MemStore 5) (OpCreate 0) ?s = (None, s')"
    using vs.Create_result [of 5 0 ?s] by (cases "store_Create (NewVersionedStore MemStore 5) 0 ?s") auto
  have empty: "log_of (eventsourcing_New True 0) ''a'' = []" by (simp add: eventsourcing_New_def log_of_def)
  obtain ev where "de_Type ev = ''WorkloadCreated''" "log_of (wd_log s') ''a'' = [ev]"
    using audit_one_event_per_change [OF _ _ s'] by (auto simp: audited_def keyed_def empty)
  then show ?thesis unfolding s' by (auto simp: Let_def)
qed

theorem rollback_history_is_bounded_witness:
  "history_ok 2 (deref (snd (run_all (store_exec (NewVersionedStore MemStore 2)) [OpCreate 0, OpUpdate 1, OpUpdate 2]
     (demo_world (\<lambda>a. demo_workload ''a'' (replicate a CHR ''v'')) []))) 2)"
  using rollback_history_is_bounded
    [of 2 "demo_world (\<lambda>a. demo_workload ''a'' (replicate a CHR ''v'')) []" "[OpCreate 0, OpUpdate 1, OpUpdate 2]" 2]
  by (simp add: versions_or_default_def history_ok_def demo_workload_def zero_defs)

theorem update_in_place_records_no_revision_witness:
  "wl_RollbackVersions (deref (snd (store_Update (NewVersionedStore MemStore 5) 0
     (modify 0 (\<lambda>w. w\<lparr>wl_Spec := (wl_Spec w)\<lparr>sp_Image := ''v2''\<rparr>\<rparr>)
        (demo_world (\<lambda>_. demo_workload ''a'' ''v1'') [(''a'', 0)])))) 0) = []"
  using update_in_place_records_no_revision
    [of "demo_world (\<lambda>_. demo_workload ''a'' ''v1'') [(''a'', 0)]" "''a''" 0
        "\<lambda>w. w\<lparr>wl_Spec := (wl_Spec w)\<lparr>sp_Image := ''v2''\<rparr>\<rparr>" 5]
  by (simp add: demo_workload_def zero_defs)

theorem update_records_previous_spec_witness:
  "\<exists>r s'. store_Update (NewVersionedStore MemStore 5) 1
      (demo_world (\<lambda>a. demo_workload ''a'' (if a = 0 then ''v1'' else ''v2'')) [(''a'', 0)]) = (None, s') \<and>
    sp_Image (rv_Spec r) = ''v1'' \<and> wl_RollbackVersions (deref s' 1) = [r]"
  using update_records_previous_spec
    [of "demo_world (\<lambda>a. demo_workload ''a'' (if a = 0 then ''v1'' else ''v2'')) [(''a'', 0)]" "''a''" 0 1 5]
  by (force simp: specsEqual_def versions_or_default_def demo_workload_def zero_defs)

definition revert_demo :: world where
  "revert_demo = demo_world (\<lambda>_. (demo_workload ''a'' ''v2'')\<lparr>wl_RollbackVersions := [demo_revision ''r1'' ''v1'']\<rparr>) [(''a'', 0)]"

lemma revert_demo_simps [simp]:
  "mem_stored revert_demo = map_of [(''a'', 0)]" "wl_ID (deref revert_demo a) = ''a''" "wd_fresh revert_demo = 10"
  "wl_Spec (deref revert_demo a) = zero_spec\<lparr>sp_Image := ''v2''\<rparr>"
  "wl_RollbackVersions (deref revert_demo a) = [demo_revision ''r1'' ''v1'']"
  by (simp_all add: revert_demo_def)


theorem revert_of_revert_is_identity_witness:
  "\<exists>s1 rid' s2. Revert (NewVersionedStore MemStore 5) ''a'' ''r1'' 5 revert_demo = (Ok 0, s1) \<and>
    Revert (NewVersionedStore MemStore 5) ''a'' rid' 5 s1 = (Ok 0, s2) \<and> sp_Image (wl_Spec (deref s2 0)) = ''v2''"
proof -
  obtain s1 rid' s2 where "Revert (NewVersionedStore MemStore 5) ''a'' ''r1'' 5 revert_demo = (Ok 0, s1)"
    "Revert (NewVersionedStore MemStore 5) ''a'' rid' 5 s1 = (Ok 0, s2)" "sp_Image (wl_Spec (deref s2 0)) = ''v2''"
    using revert_of_revert_is_identity [of revert_demo "''a''" 0 "''r1''" "demo_revision ''r1'' ''v1''" 5 5]
    by (auto simp: findRevision_def specsEqual_def)
  then show ?thesis by blast
qed

end
