(* ===== verification/Binary64.thy ===== *)
theory Binary64
  imports Types
begin

text \<open>
  Go's \<open>float64\<close> arithmetic: addition, multiplication and division of IEEE 754 binary64, that is
  the exact rational result rounded to the nearest representable number, ties to even, with
  overflow to infinity. Signed zeros are not told apart, which no operation of the program can
  observe.

  The lemmas: rounding is monotone and leaves representable numbers alone, so sums of
  non-negative numbers are monotone and never decrease.
\<close>

section \<open>Arithmetic on float64\<close>

function bit_length :: "int \<Rightarrow> int" where
  "bit_length n = (if n \<le> 0 then 0 else 1 + bit_length (n div 2))"
  by auto
termination by (relation "measure nat") auto

declare bit_length.simps [simp del]

definition pow2 :: "int \<Rightarrow> rat" where
  "pow2 k = (if 0 \<le> k then of_int (2 ^ nat k) else 1 / of_int (2 ^ nat (- k)))"

definition half_even :: "rat \<Rightarrow> int" where
  \<comment> \<open>the nearest integer, ties to the even one\<close>
  "half_even x = (let n = floor x; r = x - of_int n
     in if r < 1 / 2 then n else if 1 / 2 < r then n + 1 else if even n then n else n + 1)"

definition binade :: "rat \<Rightarrow> int" where
  \<comment> \<open>the exponent \<open>e\<close> with \<open>2 ^ e \<le> x < 2 ^ (e + 1)\<close>, for a positive \<open>x\<close>\<close>
  "binade x = (let (n, d) = quotient_of x; e = bit_length n - bit_length d in if pow2 e \<le> x then e else e - 1)"

definition f64_round :: "rat \<Rightarrow> float64" where
  "f64_round x =
     (if x = 0 then Fin 0
      else let q = max (binade \<bar>x\<bar> - 52) (- 1074);
               y = of_int (half_even (\<bar>x\<bar> / pow2 q)) * pow2 q
           in if pow2 1024 \<le> y then (if 0 < x then PosInf else NegInf)
              else Fin (if 0 < x then y else - y))"

definition f64_neg :: "float64 \<Rightarrow> float64" where
  "f64_neg x = (case x of NaN \<Rightarrow> NaN | NegInf \<Rightarrow> PosInf | PosInf \<Rightarrow> NegInf | Fin a \<Rightarrow> Fin (- a))"

fun f64_add :: "float64 \<Rightarrow> float64 \<Rightarrow> float64" where
  "f64_add (Fin a) (Fin b) = f64_round (a + b)"
| "f64_add NaN y = NaN"
| "f64_add x NaN = NaN"
| "f64_add PosInf NegInf = NaN"
| "f64_add NegInf PosInf = NaN"
| "f64_add PosInf y = PosInf"
| "f64_add NegInf y = NegInf"
| "f64_add x PosInf = PosInf"
| "f64_add x NegInf = NegInf"

definition inf_of :: "bool \<Rightarrow> float64" where
  "inf_of positive = (if positive then PosInf else NegInf)"

fun f64_mul :: "float64 \<Rightarrow> float64 \<Rightarrow> float64" where
  "f64_mul (Fin a) (Fin b) = f64_round (a * b)"
| "f64_mul NaN y = NaN"
| "f64_mul x NaN = NaN"
| "f64_mul (Fin a) y = (if a = 0 then NaN else inf_of ((0 < a) = (y = PosInf)))"
| "f64_mul x (Fin b) = (if b = 0 then NaN else inf_of ((0 < b) = (x = PosInf)))"
| "f64_mul x y = inf_of (x = y)"

definition f64_recip1 :: "float64 \<Rightarrow> float64" where
  \<comment> \<open>\<open>1.0 / x\<close>; the sign of a zero is not kept\<close>
  "f64_recip1 x = (case x of NaN \<Rightarrow> NaN | PosInf \<Rightarrow> Fin 0 | NegInf \<Rightarrow> Fin 0
     | Fin a \<Rightarrow> if a = 0 then PosInf else f64_round (1 / a))"

definition f64_div :: "float64 \<Rightarrow> float64 \<Rightarrow> float64" where
  "f64_div x y = (case (x, y) of
     (NaN, _) \<Rightarrow> NaN
   | (_, NaN) \<Rightarrow> NaN
   | (Fin a, Fin b) \<Rightarrow> if b = 0 then (if a = 0 then NaN else inf_of (0 < a)) else f64_round (a / b)
   | (Fin _, _) \<Rightarrow> Fin 0
   | (_, Fin b) \<Rightarrow> inf_of ((0 \<le> b) = (x = PosInf))
   | _ \<Rightarrow> NaN)"

definition f64_ge :: "float64 \<Rightarrow> float64 \<Rightarrow> bool" where
  "f64_ge x y = (f64_lt y x \<or> x = y \<and> x \<noteq> NaN)"

definition decimal :: "int \<Rightarrow> int \<Rightarrow> float64" where
  \<comment> \<open>a literal: the double nearest to \<open>n / d\<close>\<close>
  "decimal n d = f64_round (of_int n / of_int d)"

section \<open>Rounding is monotone\<close>

lemma pow2_powi: "pow2 k = 2 powi k"
  by (simp add: pow2_def power_int_def inverse_eq_divide power_one_over)

lemma pow2_pos [simp]: "0 < pow2 k"
  by (simp add: pow2_powi)

lemma pow2_nonzero [simp]: "pow2 k \<noteq> 0"
  using pow2_pos [of k] by linarith

lemma pow2_add: "pow2 (j + k) = pow2 j * pow2 k"
  by (simp add: pow2_powi power_int_add)

lemma pow2_mono: "j \<le> k \<Longrightarrow> pow2 j \<le> pow2 k"
  by (simp add: pow2_powi power_int_increasing)

lemma pow2_int: "0 \<le> k \<Longrightarrow> pow2 k = of_int (2 ^ nat k)"
  by (simp add: pow2_def)

lemma bit_length_power: "0 < n \<Longrightarrow> \<exists>k. bit_length n = int (Suc k) \<and> 2 ^ k \<le> n \<and> n < 2 ^ Suc k"
proof (induction n rule: bit_length.induct)
  case (1 n)
  show ?case
  proof (cases "n = 1")
    case True
    then show ?thesis by (intro exI [of _ 0]) (simp add: bit_length.simps)
  next
    case False
    then have "0 < n div 2" using 1 by linarith
    then obtain k where k: "bit_length (n div 2) = int (Suc k)" "2 ^ k \<le> n div 2" "n div 2 < 2 ^ Suc k" using 1 by auto
    have "bit_length n = 1 + bit_length (n div 2)" using 1 by (subst bit_length.simps) simp
    moreover have "2 ^ Suc k \<le> n" "n < 2 ^ Suc (Suc k)" using k(2,3) by simp_all
    ultimately show ?thesis using k(1) by (intro exI [of _ "Suc k"]) simp
  qed
qed

lemma bit_length_bounds:
  assumes "0 < n"
  shows "pow2 (bit_length n - 1) \<le> of_int n" "of_int n < pow2 (bit_length n)"
proof -
  obtain k where k: "bit_length n = int (Suc k)" "2 ^ k \<le> n" "n < 2 ^ Suc k" using bit_length_power [OF assms] by blast
  have "pow2 (bit_length n - 1) = of_int (2 ^ k)" "pow2 (bit_length n) = of_int (2 ^ Suc k)" by (simp_all add: k(1) pow2_def nat_add_distrib)
  then show "pow2 (bit_length n - 1) \<le> of_int n" "of_int n < pow2 (bit_length n)"
    using k(2,3) by (simp_all only: of_int_le_iff of_int_less_iff)
qed

lemma binade_bounds:
  assumes "0 < x"
  shows "pow2 (binade x) \<le> x" "x < pow2 (binade x + 1)"
proof -
  obtain n d where q: "quotient_of x = (n, d)" by fastforce
  have d: "0 < d" using quotient_of_denom_pos [OF q] .
  have x: "x = of_int n / of_int d" using quotient_of_div [OF q] .
  have n: "0 < n" using assms d x by (simp add: zero_less_divide_iff)
  let ?a = "bit_length n" and ?b = "bit_length d"
  note bn = bit_length_bounds [OF n] and bd = bit_length_bounds [OF d]
  have dpos: "(0::rat) < of_int d" using d by simp
  have "pow2 (?a - ?b - 1) * of_int d < pow2 (?a - ?b - 1) * pow2 ?b" using bd by simp
  also have "\<dots> = pow2 (?a - 1)" by (simp add: pow2_add [symmetric])
  finally have lo: "pow2 (?a - ?b - 1) < x" using bn dpos unfolding x by (simp add: less_divide_eq)
  have "pow2 ?a = pow2 (?a - ?b + 1) * pow2 (?b - 1)" by (simp add: pow2_add [symmetric])
  also have "\<dots> \<le> pow2 (?a - ?b + 1) * of_int d" using bd by simp
  finally have "of_int n < pow2 (?a - ?b + 1) * of_int d" using bn by linarith
  then have hi: "x < pow2 (?a - ?b + 1)" using dpos unfolding x by (simp add: divide_less_eq)
  show "pow2 (binade x) \<le> x" "x < pow2 (binade x + 1)"
    using lo hi by (auto simp: binade_def q Let_def)
qed

lemma binade_mono:
  assumes "0 < x" "x \<le> y"
  shows "binade x \<le> binade y"
proof (rule ccontr)
  assume "\<not> binade x \<le> binade y"
  then have "pow2 (binade y + 1) \<le> pow2 (binade x)" by (intro pow2_mono) simp
  then show False using binade_bounds(1) [of x] binade_bounds(2) [of y] assms by linarith
qed

lemma half_even_mono: "x \<le> y \<Longrightarrow> half_even x \<le> half_even y"
proof (cases "floor x = floor y")
  case False
  moreover assume "x \<le> y"
  ultimately have "floor x + 1 \<le> floor y" using floor_mono [of x y] by linarith
  moreover have "half_even x \<le> floor x + 1" "floor y \<le> half_even y" by (simp_all add: half_even_def Let_def)
  ultimately show ?thesis by linarith
qed (auto simp: half_even_def Let_def)

lemma half_even_int [simp]: "half_even (of_int n) = n"
  by (simp add: half_even_def)

definition ulp_exponent :: "rat \<Rightarrow> int" where
  "ulp_exponent x = max (binade x - 52) (- 1074)"

definition rounded :: "rat \<Rightarrow> rat" where
  \<comment> \<open>the rounding of a positive number before the overflow check\<close>
  "rounded x = of_int (half_even (x / pow2 (ulp_exponent x))) * pow2 (ulp_exponent x)"

lemma f64_round_pos: "0 < x \<Longrightarrow> f64_round x = (if pow2 1024 \<le> rounded x then PosInf else Fin (rounded x))"
  by (simp add: f64_round_def rounded_def ulp_exponent_def Let_def)

lemma rounded_below:
  assumes "x \<le> pow2 (ulp_exponent x + k)" "0 \<le> k"
  shows "rounded x \<le> pow2 (ulp_exponent x + k)"
proof -
  have "x / pow2 (ulp_exponent x) \<le> of_int (2 ^ nat k)" using assms by (simp add: divide_le_eq pow2_add pow2_int mult.commute)
  then have "half_even (x / pow2 (ulp_exponent x)) \<le> 2 ^ nat k" using half_even_mono half_even_int by metis
  then have "(of_int (half_even (x / pow2 (ulp_exponent x))) :: rat) \<le> pow2 k" using assms(2) by (simp only: pow2_int of_int_le_iff)
  then show ?thesis by (simp add: rounded_def pow2_add mult.commute)
qed

lemma rounded_above:
  assumes "pow2 (ulp_exponent x + k) \<le> x" "0 \<le> k"
  shows "pow2 (ulp_exponent x + k) \<le> rounded x"
proof -
  have "of_int (2 ^ nat k) \<le> x / pow2 (ulp_exponent x)" using assms by (simp add: le_divide_eq pow2_add pow2_int mult.commute)
  then have "2 ^ nat k \<le> half_even (x / pow2 (ulp_exponent x))" using half_even_mono half_even_int by metis
  then have "pow2 k \<le> (of_int (half_even (x / pow2 (ulp_exponent x))) :: rat)" using assms(2) by (simp only: pow2_int of_int_le_iff)
  then show ?thesis by (simp add: rounded_def pow2_add mult.commute)
qed

lemma rounded_mono:
  assumes "0 < x" "x \<le> y"
  shows "rounded x \<le> rounded y"
proof (cases "ulp_exponent x = ulp_exponent y")
  case True
  have "half_even (x / pow2 (ulp_exponent y)) \<le> half_even (y / pow2 (ulp_exponent y))"
    by (rule half_even_mono) (simp add: divide_right_mono assms(2) less_imp_le)
  then show ?thesis by (simp add: rounded_def True)
next
  case False
  have b: "binade x \<le> binade y" by (rule binade_mono [OF assms])
  then have q: "ulp_exponent y = binade y - 52" "binade x < binade y" "ulp_exponent x < ulp_exponent y"
    using False by (auto simp: ulp_exponent_def max_def split: if_splits)
  have "x \<le> pow2 (binade y)"
    using binade_bounds(2) [OF assms(1)] pow2_mono [of "binade x + 1" "binade y"] q(2) by linarith
  then have "rounded x \<le> pow2 (binade y)" using rounded_below [of x "binade y - ulp_exponent x"] q(1,3) by simp
  moreover have "pow2 (binade y) \<le> rounded y" using rounded_above [of y 52] binade_bounds(1) [of y] assms q(1) by simp
  ultimately show ?thesis by linarith
qed

lemma rounded_nonneg: "0 < x \<Longrightarrow> 0 \<le> rounded x"
  using half_even_mono [of 0 "x / pow2 (ulp_exponent x)"] half_even_int [of 0] pow2_pos [of "ulp_exponent x"]
  by (simp add: rounded_def less_imp_le)

abbreviation f64_nonneg :: "float64 \<Rightarrow> bool" where
  "f64_nonneg x \<equiv> f64_ge x (Fin 0)"

lemma f64_lt_NaN [simp]: "\<not> f64_lt x NaN" "\<not> f64_lt NaN x"
  by (cases x; simp)+

lemma f64_ge_simps [simp]:
  "f64_ge (Fin a) (Fin b) \<longleftrightarrow> b \<le> a" "f64_ge PosInf (Fin b)" "f64_ge PosInf PosInf" "\<not> f64_ge NaN y" "\<not> f64_ge (Fin a) PosInf"
  "\<not> f64_ge NegInf (Fin b)" "\<not> f64_ge x NaN"
  by (auto simp: f64_ge_def)

lemma f64_round_nonneg: "0 \<le> x \<Longrightarrow> f64_nonneg (f64_round x)"
  using rounded_nonneg [of x] by (cases "x = 0") (simp add: f64_round_def, simp add: f64_round_pos)

lemma f64_round_mono:
  assumes "0 \<le> x" "x \<le> y"
  shows "f64_ge (f64_round y) (f64_round x)"
proof (cases "x = 0")
  case True
  then show ?thesis using f64_round_nonneg [of y] assms by (simp add: f64_round_def)
next
  case False
  then have "rounded x \<le> rounded y" using assms by (intro rounded_mono) simp_all
  then show ?thesis using False assms by (simp add: f64_round_pos)
qed

lemma f64_nonneg_cases:
  assumes "f64_nonneg x"
  obtains a where "x = Fin a" "0 \<le> a" | "x = PosInf"
  using assms by (cases x) auto

lemma f64_ge_PosInf: "f64_nonneg x \<Longrightarrow> f64_ge PosInf x"
  by (elim f64_nonneg_cases) simp_all

lemma f64_ge_trans: "f64_ge x y \<Longrightarrow> f64_ge y z \<Longrightarrow> f64_ge x z"
  by (cases x; cases y; cases z) (auto simp: f64_ge_def)

lemma f64_add_nonneg: "f64_nonneg x \<Longrightarrow> f64_nonneg y \<Longrightarrow> f64_nonneg (f64_add x y)"
  by (elim f64_nonneg_cases) (simp_all add: f64_round_nonneg)

lemma f64_add_mono:
  assumes "f64_ge x' x" "f64_ge y' y" "f64_nonneg x" "f64_nonneg y"
  shows "f64_ge (f64_add x' y') (f64_add x y)"
proof -
  have "f64_nonneg x'" "f64_nonneg y'" using assms f64_ge_trans by blast+
  then show ?thesis
    using assms by (elim f64_nonneg_cases) (simp_all add: f64_round_mono f64_ge_PosInf f64_round_nonneg)
qed

section \<open>Rounded numbers stay\<close>

lemma pow2_less_cancel: "pow2 j < pow2 k \<Longrightarrow> j < k"
  using pow2_mono [of k j] by linarith

lemma rounded_representable:
  assumes "0 < y" "y = of_int k * pow2 q" "k \<le> 2 ^ 53" "- 1074 \<le> q"
  shows "rounded y = y"
proof -
  let ?u = "ulp_exponent y"
  have "\<exists>m::int. y / pow2 ?u = of_int m"
  proof (cases "?u \<le> q")
    case True
    then have "y = of_int (k * 2 ^ nat (q - ?u)) * pow2 ?u"
      using pow2_add [of "q - ?u" ?u] by (simp add: assms(2) pow2_int)
    then show ?thesis by (metis nonzero_mult_div_cancel_right pow2_pos less_irrefl)
  next
    case False
    then have u: "?u = binade y - 52" "q + 53 \<le> binade y" using assms(4) by (auto simp: ulp_exponent_def max_def split: if_splits)
    have "pow2 (q + 53) \<le> y" using pow2_mono [OF u(2)] binade_bounds(1) [OF assms(1)] by linarith
    then have "of_int (2 ^ 53) * pow2 q \<le> of_int k * pow2 q" using assms(2) by (simp add: pow2_add pow2_int mult.commute)
    then have "2 ^ 53 \<le> k" by (simp only: mult_le_cancel_right_pos pow2_pos of_int_le_iff)
    then have "k = 2 ^ 53" using assms(3) by simp
    then have y: "y = pow2 (q + 53)" by (simp add: assms(2) pow2_add pow2_int mult.commute)
    have "pow2 (q + 53 + 1) = 2 * pow2 (q + 53)" by (subst pow2_add) (simp add: pow2_int)
    then have "pow2 (binade y) < pow2 (q + 53 + 1)" using binade_bounds(1) [OF assms(1)] pow2_pos [of "q + 53"] unfolding y by linarith
    then have "binade y < q + 53 + 1" by (rule pow2_less_cancel)
    then have "?u = q + 1" using u by linarith
    then have "y = of_int (2 ^ 52) * pow2 ?u" using y pow2_add [of 52 "q + 1"] by (simp add: pow2_int add.commute)
    then show ?thesis by (metis nonzero_mult_div_cancel_right pow2_pos less_irrefl)
  qed
  then obtain m where m: "y / pow2 ?u = of_int m" by blast
  then have "rounded y = of_int m * pow2 ?u" by (simp add: rounded_def)
  also have "\<dots> = y" using m [symmetric] by simp
  finally show ?thesis .
qed

lemma rounded_idem:
  assumes "0 < x" "0 < rounded x"
  shows "rounded (rounded x) = rounded x"
proof (rule rounded_representable [OF assms(2)])
  let ?u = "ulp_exponent x"
  show "rounded x = of_int (half_even (x / pow2 ?u)) * pow2 ?u" by (simp add: rounded_def)
  have "pow2 (binade x + 1) \<le> pow2 (?u + 53)" by (rule pow2_mono) (simp add: ulp_exponent_def)
  then have "x \<le> pow2 (?u + 53)" using binade_bounds(2) [OF assms(1)] by linarith
  then have "x / pow2 ?u \<le> of_int (2 ^ 53)" by (simp add: divide_le_eq pow2_add pow2_int mult.commute)
  then show "half_even (x / pow2 ?u) \<le> 2 ^ 53" using half_even_mono half_even_int by metis
  show "- 1074 \<le> ?u" by (simp add: ulp_exponent_def)
qed

definition f64_exact :: "float64 \<Rightarrow> bool" where
  \<comment> \<open>a value a \<open>float64\<close> can hold\<close>
  "f64_exact x = (case x of Fin a \<Rightarrow> f64_round a = Fin a | _ \<Rightarrow> True)"

lemma f64_round_exact: "0 \<le> x \<Longrightarrow> f64_exact (f64_round x)"
proof (cases "0 < x \<and> 0 < rounded x")
  case True
  then show ?thesis using rounded_idem [of x] by (simp add: f64_exact_def f64_round_pos)
next
  case False
  moreover assume "0 \<le> x"
  ultimately have "x = 0 \<or> 0 < x \<and> rounded x = 0" using rounded_nonneg [of x] by force
  then show ?thesis
  proof
    assume "0 < x \<and> rounded x = 0"
    then have "f64_round x = Fin 0" by (simp add: f64_round_pos not_le)
    then show ?thesis by (simp add: f64_exact_def f64_round_def)
  qed (simp add: f64_exact_def f64_round_def)
qed

lemma f64_add_exact: "f64_nonneg x \<Longrightarrow> f64_nonneg y \<Longrightarrow> f64_exact (f64_add x y)"
  by (elim f64_nonneg_cases) (simp_all add: f64_round_exact, simp_all add: f64_exact_def)

lemma f64_add_increases: "f64_nonneg x \<Longrightarrow> f64_exact x \<Longrightarrow> f64_nonneg y \<Longrightarrow> f64_ge (f64_add x y) x"
  using f64_round_mono by (elim f64_nonneg_cases) (fastforce simp: f64_exact_def)+

end
