(* ===== verification/GoStd.thy ===== *)
theory GoStd
  imports Binary64
begin

text \<open>
  The parsers of Go's standard library that the program applies to user input, character by
  character as the library has them: \<open>strconv.ParseInt\<close> in base 10 (\<open>strconv.Atoi\<close> is its 64-bit
  case) and \<open>time.ParseDuration\<close>. Both report errors besides the value; \<open>ParseInt\<close> stops at the
  first digit that leaves the range, so what follows that digit is not looked at.

  The lemmas: both read back what is printed, accept exactly the numbers in range, and a
  duration always fits 64 bits.
\<close>

section \<open>Integers\<close>

definition is_digit :: "char \<Rightarrow> bool" where
  "is_digit c = (48 \<le> (of_char c :: nat) \<and> (of_char c :: nat) \<le> 57)"

definition digit_val :: "char \<Rightarrow> nat" where
  "digit_val c = of_char c - 48"

datatype num_error = ErrSyntax | ErrRange

fun ParseUint_loop :: "nat \<Rightarrow> nat \<Rightarrow> string \<Rightarrow> (num_error, nat) result" where
  "ParseUint_loop maxVal n [] = Ok n"
| "ParseUint_loop maxVal n (c # cs) =
     (if \<not> is_digit c then Err ErrSyntax
      else if maxVal < 10 * n + digit_val c then Err ErrRange
      else ParseUint_loop maxVal (10 * n + digit_val c) cs)"

definition ParseUint :: "nat \<Rightarrow> string \<Rightarrow> nat \<times> num_error option" where
  "ParseUint bits s =
     (if s = [] then (0, Some ErrSyntax)
      else case ParseUint_loop (2 ^ bits - 1) 0 s of
             Inl ErrSyntax \<Rightarrow> (0, Some ErrSyntax)
           | Inl ErrRange \<Rightarrow> (2 ^ bits - 1, Some ErrRange)
           | Inr n \<Rightarrow> (n, None))"

definition ParseInt :: "nat \<Rightarrow> string \<Rightarrow> int \<times> num_error option" where
  "ParseInt bits s =
     (if s = [] then (0, Some ErrSyntax)
      else
        let neg = (hd s = CHR ''-'');
            (un, err) = ParseUint bits (if hd s = CHR ''+'' \<or> hd s = CHR ''-'' then tl s else s);
            cutoff = 2 ^ (bits - 1)
        in if err = Some ErrSyntax then (0, err)
           else if \<not> neg \<and> cutoff \<le> un then (int cutoff - 1, Some ErrRange)
           else if neg \<and> cutoff < un then (- int cutoff, Some ErrRange)
           else (if neg then - int un else int un, None))"

lemma is_digit_digits [simp]: "list_all is_digit (digits n)"
  using digits_range by (auto simp: list_all_iff is_digit_def)

lemma hd_digits [simp]: "hd (digits n) \<noteq> CHR ''-''" "hd (digits n) \<noteq> CHR ''+''" "hd (digits n) \<noteq> CHR ''.''" "is_digit (hd (digits n))"
  using digits_range [of "hd (digits n)" n] hd_in_set [of "digits n"] by (auto simp: is_digit_def)

definition undigits_from :: "nat \<Rightarrow> string \<Rightarrow> nat" where
  "undigits_from n s = foldl (\<lambda>n c. 10 * n + digit_val c) n s"

lemma undigits_from_simps [simp]:
  "undigits_from n [] = n" "undigits_from n (c # cs) = undigits_from (10 * n + digit_val c) cs"
  by (simp_all add: undigits_from_def)

lemma undigits_from_digits [simp]: "undigits_from 0 (digits n) = n"
  using undigits_digits [of n] by (simp add: undigits_from_def undigits_def digit_val_def)

lemma undigits_from_ge: "n \<le> undigits_from n s"
proof (induction s arbitrary: n)
  case (Cons c s)
  show ?case using Cons.IH [of "10 * n + digit_val c"] unfolding undigits_from_simps by linarith
qed simp

lemma ParseUint_loop_Ok:
  "n \<le> maxVal \<Longrightarrow> ParseUint_loop maxVal n s = Ok m \<longleftrightarrow> list_all is_digit s \<and> undigits_from n s = m \<and> m \<le> maxVal"
proof (induction s arbitrary: n)
  case (Cons c s)
  let ?k = "10 * n + digit_val c"
  show ?case
  proof (cases "?k \<le> maxVal")
    case True
    then show ?thesis using Cons.IH [OF True] by simp
  next
    case False
    then show ?thesis using undigits_from_ge [of ?k s] by auto
  qed
qed auto

lemma ParseUint_Ok:
  "ParseUint bits s = (n, None) \<longleftrightarrow> s \<noteq> [] \<and> list_all is_digit s \<and> undigits_from 0 s = n \<and> n < 2 ^ bits"
proof -
  have "n \<le> 2 ^ bits - 1 \<longleftrightarrow> n < 2 ^ bits"
    using less_Suc_eq_le [of n "2 ^ bits - 1"] by simp
  then show ?thesis
    using ParseUint_loop_Ok [of 0 "2 ^ bits - 1" s n] by (auto simp: ParseUint_def split: sum.splits num_error.splits)
qed

lemma ParseInt_itoa:
  assumes "0 < bits" "- (2 ^ (bits - 1)) \<le> i" "i < 2 ^ (bits - 1)"
  shows "ParseInt bits (itoa i) = (i, None)"
proof -
  have half: "(2::nat) ^ bits = 2 * 2 ^ (bits - 1)" using assms(1) by (cases bits) simp_all
  have u: "ParseUint bits (digits n) = (n, None)" if "n \<le> 2 ^ (bits - 1)" for n
    unfolding ParseUint_Ok half using that by (simp add: le_less_trans)
  show ?thesis
  proof (cases "i < 0")
    case True
    then have "nat (- i) \<le> 2 ^ (bits - 1)" using assms(2) by (simp add: nat_le_iff)
    then show ?thesis using True u by (simp add: ParseInt_def itoa_def Let_def)
  next
    case False
    then have "nat i < 2 ^ (bits - 1)" using assms(3) by (simp add: nat_less_iff)
    then show ?thesis using False u [of "nat i"] by (simp add: ParseInt_def itoa_def Let_def)
  qed
qed

lemma ParseInt_range: "- (2 ^ (bits - 1)) \<le> fst (ParseInt bits s) \<and> fst (ParseInt bits s) < 2 ^ (bits - 1)"
proof -
  obtain un err where u: "ParseUint bits (if hd s = CHR ''+'' \<or> hd s = CHR ''-'' then tl s else s) = (un, err)" by fastforce
  let ?c = "2 ^ (bits - 1) :: nat"
  have "int ?c = 2 ^ (bits - 1)" "0 < ?c" by simp_all
  moreover have "- int ?c \<le> fst (ParseInt bits s) \<and> fst (ParseInt bits s) < int ?c"
    using \<open>0 < ?c\<close> less_le_trans [of "- int un" 1 "int ?c"] by (simp add: ParseInt_def u Let_def del: of_nat_power)
  ultimately show ?thesis by simp
qed

definition ParseInt64 :: "string \<Rightarrow> int" where
  \<comment> \<open>the value of \<open>strconv.ParseInt(s, 10, 64)\<close> and of \<open>strconv.Atoi\<close> where the error is dropped\<close>
  "ParseInt64 s = fst (ParseInt 64 s)"

section \<open>Durations\<close>

fun leadingInt :: "nat \<Rightarrow> string \<Rightarrow> (nat \<times> string) option" where
  "leadingInt x [] = Some (x, [])"
| "leadingInt x (c # cs) =
     (if \<not> is_digit c then Some (x, c # cs)
      else if 2 ^ 63 < 10 * x + digit_val c then None
      else leadingInt (10 * x + digit_val c) cs)"

fun leadingFraction :: "nat \<Rightarrow> float64 \<Rightarrow> bool \<Rightarrow> string \<Rightarrow> nat \<times> float64 \<times> string" where
  "leadingFraction x scale overflow [] = (x, scale, [])"
| "leadingFraction x scale overflow (c # cs) =
     (if \<not> is_digit c then (x, scale, c # cs)
      else if overflow \<or> (2 ^ 63 - 1) div 10 < x \<or> 2 ^ 63 < 10 * x + digit_val c then leadingFraction x scale True cs
      else leadingFraction (10 * x + digit_val c) (f64_mul scale (Fin 10)) False cs)"

definition unitMap :: "(string \<times> nat) list" where
  \<comment> \<open>the micro sign and the Greek letter are two bytes each\<close>
  "unitMap = [(''ns'', 1), (''us'', 10 ^ 3), ([CHR 0xC2, CHR 0xB5, CHR ''s''], 10 ^ 3), ([CHR 0xCE, CHR 0xBC, CHR ''s''], 10 ^ 3),
     (''ms'', 10 ^ 6), (''s'', 10 ^ 9), (''m'', 60 * 10 ^ 9), (''h'', 3600 * 10 ^ 9)]"

definition unit_char :: "char \<Rightarrow> bool" where
  "unit_char c = (c \<noteq> CHR ''.'' \<and> \<not> is_digit c)"

definition f64_trunc :: "float64 \<Rightarrow> nat" where
  \<comment> \<open>the conversion to \<open>uint64\<close> of a number that is not negative and not too large\<close>
  "f64_trunc x = (case x of Fin q \<Rightarrow> nat (floor q) | _ \<Rightarrow> 0)"

definition invalid_duration :: "string \<Rightarrow> error" where
  "invalid_duration orig = Errorf ''time: invalid duration %q'' [Str orig]"

definition read_fraction :: "string \<Rightarrow> (nat \<times> float64) \<times> bool \<times> string" where
  \<comment> \<open>the optional fraction, whether it has digits, and what follows\<close>
  "read_fraction s =
     (if s \<noteq> [] \<and> hd s = CHR ''.''
      then let (f, scale, s1) = leadingFraction 0 (Fin 1) False (tl s) in ((f, scale), length s1 \<noteq> length (tl s), s1)
      else ((0, Fin 1), False, s))"

definition unit_amount :: "nat \<Rightarrow> nat \<times> float64 \<Rightarrow> nat \<Rightarrow> nat option" where
  \<comment> \<open>\<open>v\<close> and its fraction in nanoseconds; \<open>None\<close> on overflow\<close>
  "unit_amount v fs unit = (case fs of (f, scale) \<Rightarrow>
     if 2 ^ 63 div unit < v then None
     else if f = 0 then Some (v * unit)
     else let n = v * unit + f64_trunc (f64_mul (f64_round (of_nat f)) (f64_div (Fin (of_nat unit)) scale))
          in if 2 ^ 63 < n then None else Some n)"

lemma leadingInt_suffix: "leadingInt x s = Some (v, s') \<Longrightarrow> length s' \<le> length s"
  by (induction x s rule: leadingInt.induct) (auto split: if_splits)

lemma leadingFraction_suffix: "leadingFraction x sc ov s = (f, sc', s') \<Longrightarrow> length s' \<le> length s"
  by (induction x sc ov s rule: leadingFraction.induct) (auto split: if_splits)

lemma read_fraction_suffix: "read_fraction s = (fs, post, s') \<Longrightarrow> length s' \<le> length s"
  using leadingFraction_suffix [of 0 "Fin 1" False "tl s"] by (cases s) (fastforce simp: read_fraction_def split: if_splits prod.splits)+

lemma unit_shortens: "takeWhile unit_char s \<noteq> [] \<Longrightarrow> length (dropWhile unit_char s) < length s"
  by (cases s) (auto simp: length_dropWhile_le le_imp_less_Suc split: if_splits)

lemma unit_progress:
  assumes "leadingInt 0 s = Some (v, s1)" "read_fraction s1 = (fs, post, s2)" "takeWhile unit_char s2 \<noteq> []"
  shows "length (dropWhile unit_char s2) < length s"
  using leadingInt_suffix [OF assms(1)] read_fraction_suffix [OF assms(2)] unit_shortens [OF assms(3)] by linarith

function parse_units :: "string \<Rightarrow> nat \<Rightarrow> string \<Rightarrow> (error, nat) result" where
  \<comment> \<open>the loop of \<open>ParseDuration\<close>; the sum is a \<open>uint64\<close>\<close>
  "parse_units orig d s =
     (if s = [] then Ok d
      else if hd s \<noteq> CHR ''.'' \<and> \<not> is_digit (hd s) then Err (invalid_duration orig)
      else case leadingInt 0 s of
             None \<Rightarrow> Err (invalid_duration orig)
           | Some (v, s1) \<Rightarrow>
               (case read_fraction s1 of (fs, post, s2) \<Rightarrow>
                  if length s1 = length s \<and> \<not> post then Err (invalid_duration orig)
                  else if takeWhile unit_char s2 = [] then Err (Errorf ''time: missing unit in duration %q'' [Str orig])
                  else case map_of unitMap (takeWhile unit_char s2) of
                         None \<Rightarrow> Err (Errorf ''time: unknown unit %q in duration %q'' [Str (takeWhile unit_char s2), Str orig])
                       | Some unit \<Rightarrow>
                           (case unit_amount v fs unit of
                              None \<Rightarrow> Err (invalid_duration orig)
                            | Some n \<Rightarrow>
                                if 2 ^ 63 < (d + n) mod 2 ^ 64 then Err (invalid_duration orig)
                                else parse_units orig ((d + n) mod 2 ^ 64) (dropWhile unit_char s2))))"
  by pat_completeness auto
termination by (relation "measure (\<lambda>(orig, d, s). length s)") (auto intro: unit_progress [OF _ sym])

declare parse_units.simps [simp del]

definition ParseDuration :: "string \<Rightarrow> (error, int) result" where
  "ParseDuration orig =
     (let neg = (orig \<noteq> [] \<and> hd orig = CHR ''-'');
          s = (if orig \<noteq> [] \<and> (hd orig = CHR ''-'' \<or> hd orig = CHR ''+'') then tl orig else orig)
      in if s = ''0'' then Ok 0
         else if s = [] then Err (invalid_duration orig)
         else case parse_units orig 0 s of
                Inl err \<Rightarrow> Err err
              | Inr d \<Rightarrow>
                  if neg then Ok (- int d)
                  else if 2 ^ 63 - 1 < d then Err (invalid_duration orig)
                  else Ok (int d))"

lemma parse_units_step:
  assumes "parse_units orig d s = Ok n" "s \<noteq> []"
  shows "\<exists>d' s'. length s' < length s \<and> \<not> 2 ^ 63 < d' \<and> parse_units orig d' s' = Ok n"
  using assms(2) assms(1) [unfolded parse_units.simps [of orig d s]]
  by (auto split: if_splits option.splits prod.splits; blast intro: unit_progress)

lemma parse_units_bound: "d \<le> 2 ^ 63 \<Longrightarrow> parse_units orig d s = Ok n \<Longrightarrow> n \<le> 2 ^ 63"
proof (induction "length s" arbitrary: d s rule: less_induct)
  case less
  show ?case
  proof (cases "s = []")
    case True
    then show ?thesis using less.prems by (simp add: parse_units.simps)
  next
    case False
    then obtain d' s' where "length s' < length s" "d' \<le> 2 ^ 63" "parse_units orig d' s' = Ok n"
      using parse_units_step [OF less.prems(2)] not_le by blast
    then show ?thesis by (rule less.hyps)
  qed
qed

lemma ParseDuration_range:
  assumes "ParseDuration s = Ok d"
  shows "- (2 ^ 63) \<le> d \<and> d < 2 ^ 63"
proof -
  have "n \<le> 2 ^ 63" if "parse_units s 0 s' = Ok n" for s' n using parse_units_bound [OF _ that] by simp
  then show ?thesis
    using assms by (auto simp: ParseDuration_def Let_def split: if_splits sum.splits)
qed

lemma leadingInt_digits:
  "list_all is_digit ds \<Longrightarrow> undigits_from x ds \<le> 2 ^ 63 \<Longrightarrow> rest = [] \<or> \<not> is_digit (hd rest) \<Longrightarrow>
   leadingInt x (ds @ rest) = Some (undigits_from x ds, rest)"
proof (induction ds arbitrary: x)
  case Nil
  then show ?case by (cases rest) auto
next
  case (Cons c ds)
  then show ?case using undigits_from_ge [of "10 * x + digit_val c" ds] by simp
qed

lemma parse_units_term:
  assumes "(u, unit) \<in> set unitMap" "d + n * unit \<le> 2 ^ 63" "rest = [] \<or> is_digit (hd rest)"
  shows "parse_units orig d (digits n @ u @ rest) = parse_units orig (d + n * unit) rest"
proof -
  have u: "u \<noteq> []" "list_all unit_char u" "map_of unitMap u = Some unit" "0 < unit" "unit \<le> 2 ^ 63"
    using assms(1) by (auto simp: unitMap_def unit_char_def is_digit_def)
  then have h: "\<not> is_digit (hd (u @ rest))" "hd (u @ rest) \<noteq> CHR ''.''" by (cases u; simp add: unit_char_def)+
  have r: "takeWhile unit_char (u @ rest) = u" "dropWhile unit_char (u @ rest) = rest"
    using u(2) assms(3) by (cases rest; auto simp: unit_char_def list_all_iff takeWhile_append dropWhile_append)+
  have n: "n \<le> 2 ^ 63 div unit" using assms(2) u(4) by (simp add: less_eq_div_iff_mult_less_eq)
  then have "n \<le> 2 ^ 63" using div_le_dividend [of "2 ^ 63" unit] by linarith
  then have l: "leadingInt 0 (digits n @ u @ rest) = Some (n, u @ rest)" using leadingInt_digits [of "digits n" 0 "u @ rest"] h by simp
  have f: "read_fraction (u @ rest) = ((0, Fin 1), False, u @ rest)" using h by (simp add: read_fraction_def)
  have "hd (digits n @ u @ rest) = hd (digits n)" by simp
  moreover have "unit_amount n (0, Fin 1) unit = Some (n * unit)" using n by (simp add: unit_amount_def)
  moreover have "(d + n * unit) mod 2 ^ 64 = d + n * unit" using assms(2) by simp
  ultimately show ?thesis
    using assms(2) by (subst parse_units.simps) (simp add: l f r u)
qed

lemma ParseDuration_itoa:
  assumes "(u, unit) \<in> set unitMap" "- (2 ^ 63) \<le> i * int unit" "i * int unit < 2 ^ 63"
  shows "ParseDuration (itoa i @ u) = Ok (i * int unit)"
proof -
  have z: "digits n @ u \<noteq> ''0''" for n
    using assms(1) digits_not_Nil [of n] by (cases "digits n") (auto simp: unitMap_def)
  have p: "parse_units orig 0 (digits n @ u) = Ok (n * unit)" if "n * unit \<le> 2 ^ 63" for orig n
    using parse_units_term [OF assms(1), of 0 n "[]" orig] that by (simp add: parse_units.simps)
  show ?thesis
  proof (cases "i < 0")
    case True
    then have "int (nat (- i) * unit) = - (i * int unit)" by simp
    moreover from this have "int (nat (- i) * unit) \<le> int (2 ^ 63)" using assms(2) by simp
    then have "nat (- i) * unit \<le> 2 ^ 63" by (simp only: of_nat_le_iff)
    ultimately show ?thesis using True p [of "nat (- i)"] z by (simp add: ParseDuration_def itoa_def Let_def)
  next
    case False
    then have "int (nat i * unit) = i * int unit" by simp
    moreover from this have "int (nat i * unit) < int (2 ^ 63)" using assms(3) by simp
    then have "nat i * unit < 2 ^ 63" by (simp only: of_nat_less_iff)
    ultimately show ?thesis using False p [of "nat i"] z [of "nat i"] by (simp add: ParseDuration_def itoa_def Let_def)
  qed
qed

end
