(* ===== verification/Dependency.thy ===== *)
theory Dependency
  imports DependencyGraph CircuitBreaker StateStore GoStd
begin

text \<open>
  The store part of \<open>internal/dependency/resolver.go\<close>: whether the dependencies of one
  workload are satisfied. The circuit engine is optional; \<open>AllowRoute\<close> synchronises the
  dependency's circuit as a side effect. A nil dereference panics: the result is then \<open>None\<close>.
  \<open>WaitDependencies\<close> repeats the check every five seconds until the longest timeout of the
  dependencies has passed; it is a relation, with what the rest of the process does while it
  sleeps as a parameter.

  The lemmas: on a store, the check answers true exactly when every dependency is stored,
  routable and meets its condition; a missing dependency is unsatisfied when circuits are
  configured and a panic when they are not; waiting reports success only when every
  dependency is met, the timeout only when it has passed, and can always end.
\<close>

definition isHealthy :: "Workload \<Rightarrow> bool" where
  "isHealthy w = (phase w = WorkloadPhaseRunning \<and> sint (st_ReadyReplicas (wl_Status w)) > 0)"

definition isReady :: "Workload \<Rightarrow> bool" where
  "isReady w = (phase w = WorkloadPhaseRunning \<and> st_ReadyReplicas (wl_Status w) = sp_Replicas (wl_Spec w))"

definition condition_holds :: "string \<Rightarrow> Workload \<Rightarrow> bool" where
  "condition_holds cond w =
     (if cond = [] \<or> cond = ''running'' then phase w = WorkloadPhaseRunning
      else if cond = ''healthy'' then isHealthy w
      else if cond = ''ready'' then isReady w
      else phase w = WorkloadPhaseRunning)"

definition checkDependency :: "Store \<Rightarrow> CircuitConfig option \<Rightarrow> Dependency \<Rightarrow> world \<Rightarrow> bool option \<times> world" where
  "checkDependency st circuits dep s = (case store_Get st (dp_WorkloadID dep) s of
     (Inl err, s1) \<Rightarrow> (Some False, s1)
   | (Inr None, s1) \<Rightarrow>
       (case circuits of
          None \<Rightarrow> (None, s1)
        | Some c \<Rightarrow>
            let (now, s2) = time_Now s1
            in if snd (AllowRoute c None now) then (None, s2) else (Some False, s2))
   | (Inr (Some a), s1) \<Rightarrow>
       (case circuits of
          None \<Rightarrow> (Some (condition_holds (dp_Condition dep) (deref s1 a)), s1)
        | Some c \<Rightarrow>
            let (now, s2) = time_Now s1;
                (wo, allow) = AllowRoute c (Some (deref s2 a)) now;
                s3 = assign a (case wo of None \<Rightarrow> deref s2 a | Some w \<Rightarrow> w) s2
            in if \<not> allow then (Some False, s3)
               else (Some (condition_holds (dp_Condition dep) (deref s3 a)), s3)))"

fun check_dependencies :: "Store \<Rightarrow> CircuitConfig option \<Rightarrow> Dependency list \<Rightarrow> world \<Rightarrow> bool option \<times> world" where
  "check_dependencies st circuits [] s = (Some True, s)"
| "check_dependencies st circuits (dep # deps) s = (case checkDependency st circuits dep s of
     (None, s1) \<Rightarrow> (None, s1)
   | (Some False, s1) \<Rightarrow> (Some False, s1)
   | (Some True, s1) \<Rightarrow> check_dependencies st circuits deps s1)"

definition CheckDependencies :: "Store \<Rightarrow> CircuitConfig option \<Rightarrow> Workload \<Rightarrow> world \<Rightarrow> bool option \<times> world" where
  \<comment> \<open>\<open>checkDependency\<close> never returns an error, so neither does this\<close>
  "CheckDependencies st circuits w s = check_dependencies st circuits (sp_Dependencies (wl_Spec w)) s"

definition dependency_New :: "Store \<Rightarrow> CircuitConfig list \<Rightarrow> Store \<times> CircuitConfig option" where
  \<comment> \<open>the variadic argument: the first engine counts\<close>
  "dependency_New store circuits = (store, case circuits of [] \<Rightarrow> None | c # _ \<Rightarrow> Some c)"

section \<open>Waiting\<close>

fun longer_timeout :: "Dependency \<Rightarrow> int \<Rightarrow> int" where
  "longer_timeout dep maxTimeout =
     (if dp_Timeout dep = [] then maxTimeout
      else case ParseDuration (dp_Timeout dep) of Inl _ \<Rightarrow> maxTimeout | Inr d \<Rightarrow> if maxTimeout < d then d else maxTimeout)"

definition wait_timeout :: "Workload \<Rightarrow> int" where
  "wait_timeout w = fold longer_timeout (sp_Dependencies (wl_Spec w)) (5 * 60 * second)"

text \<open>
  The loop of \<open>WaitDependencies\<close>, with \<open>env\<close> for what the other goroutines and the clock do while it
  sleeps. When the context is done and the ticker has fired, either case of the \<open>select\<close> may be
  taken. A check that panics ends the process: no rule applies.
\<close>

inductive waiting :: "(world \<Rightarrow> world \<Rightarrow> bool) \<Rightarrow> Store \<Rightarrow> CircuitConfig option \<Rightarrow> addr \<Rightarrow> gotime \<Rightarrow> world \<Rightarrow> error option \<Rightarrow> world \<Rightarrow> bool"
  for env st circuits a deadline where
  timeout: "deadline \<le> fst (time_Now s) \<Longrightarrow>
    waiting env st circuits a deadline s
      (Some (Errorf ''timeout waiting for dependencies for workload %s'' [Str (wl_ID (deref s a))])) s"
| satisfied: "CheckDependencies st circuits (deref s a) s = (Some True, s') \<Longrightarrow> waiting env st circuits a deadline s None s'"
| unsatisfied: "CheckDependencies st circuits (deref s a) s = (Some False, s1) \<Longrightarrow> waiting env st circuits a deadline s1 err s' \<Longrightarrow>
    waiting env st circuits a deadline s err s'"
| sleep: "env s s1 \<Longrightarrow> waiting env st circuits a deadline s1 err s' \<Longrightarrow> waiting env st circuits a deadline s err s'"

inductive WaitDependencies :: "(world \<Rightarrow> world \<Rightarrow> bool) \<Rightarrow> Store \<Rightarrow> CircuitConfig option \<Rightarrow> addr \<Rightarrow> world \<Rightarrow> error option \<Rightarrow> world \<Rightarrow> bool"
  for env st circuits a where
  none: "sp_Dependencies (wl_Spec (deref s a)) = [] \<Longrightarrow> WaitDependencies env st circuits a s None s"
| wait: "sp_Dependencies (wl_Spec (deref s a)) \<noteq> [] \<Longrightarrow> time_Now s = (now, s1) \<Longrightarrow>
    waiting env st circuits a (now + wait_timeout (deref s a)) s1 err s' \<Longrightarrow> WaitDependencies env st circuits a s err s'"

section \<open>What the check answers\<close>

definition dependency_met :: "(world \<Rightarrow> string \<Rightarrow> addr option) \<Rightarrow> world \<Rightarrow> Dependency \<Rightarrow> bool" where
  "dependency_met stored s dep = (\<exists>a. stored s (dp_WorkloadID dep) = Some a \<and> condition_holds (dp_Condition dep) (deref s a))"

context workload_store
begin

lemma check_dependencies_exact:
  "check_dependencies st None deps s =
     (case List.find (\<lambda>dep. \<not> dependency_met stored s dep) deps of
        None \<Rightarrow> Some True
      | Some dep \<Rightarrow> if stored s (dp_WorkloadID dep) = None then None else Some False, s)"
proof (induction deps)
  case (Cons dep deps)
  show ?case
  proof (cases "dependency_met stored s dep")
    case True
    then have "checkDependency st None dep s = (Some True, s)"
      by (auto simp: checkDependency_def dependency_met_def Get)
    then show ?thesis using Cons.IH True by simp
  next
    case False
    then have "checkDependency st None dep s = (if stored s (dp_WorkloadID dep) = None then None else Some False, s)"
      by (auto simp: checkDependency_def dependency_met_def Get split: option.split)
    then show ?thesis using False by simp
  qed
qed simp

lemma missing_dependency_with_circuits:
  "stored s (dp_WorkloadID dep) = None \<Longrightarrow> fst (checkDependency st (Some c) dep s) = Some False"
  by (simp add: checkDependency_def Get AllowRoute_def split_beta Let_def)

lemma blocked_dependency:
  assumes "stored s (dp_WorkloadID dep) = Some a" "\<not> snd (AllowRoute c (Some (deref s a)) (fst (time_Now s)))"
  shows "fst (checkDependency st (Some c) dep s) = Some False"
  using assms by (simp add: checkDependency_def Get split_beta Let_def)

end

section \<open>What waiting gives\<close>

lemma Max_insert_max: "finite A \<Longrightarrow> Max (insert (max m d) A) = Max (insert m (insert d A))" for m d :: int
  by (cases "A = {}") (simp_all add: max.assoc)

lemma wait_timeout_max:
  "wait_timeout w = Max (insert (5 * 60 * second) {d. \<exists>dep \<in> set (sp_Dependencies (wl_Spec w)). dp_Timeout dep \<noteq> [] \<and> ParseDuration (dp_Timeout dep) = Ok d})"
proof -
  have "fold longer_timeout deps m = Max (insert m {d. \<exists>dep \<in> set deps. dp_Timeout dep \<noteq> [] \<and> ParseDuration (dp_Timeout dep) = Ok d})"
    for deps :: "Dependency list" and m
  proof (induction deps arbitrary: m)
    case (Cons dep deps)
    let ?D = "{d. \<exists>dep \<in> set deps. dp_Timeout dep \<noteq> [] \<and> ParseDuration (dp_Timeout dep) = Ok d}"
    let ?E = "{d. dp_Timeout dep \<noteq> [] \<and> ParseDuration (dp_Timeout dep) = Ok d}"
    have fin: "finite ?D"
      by (rule finite_subset [of _ "(\<lambda>dep. projr (ParseDuration (dp_Timeout dep))) ` set deps"]) (force simp: image_iff)+
    have "{d. \<exists>x \<in> set (dep # deps). dp_Timeout x \<noteq> [] \<and> ParseDuration (dp_Timeout x) = Ok d} = ?E \<union> ?D" by auto
    moreover have "Max (insert (longer_timeout dep m) ?D) = Max (insert m (?E \<union> ?D))"
    proof (cases "?E = {}")
      case True
      then have "longer_timeout dep m = m" by (auto split: sum.splits)
      then show ?thesis by (simp only: True Un_empty_left)
    next
      case False
      then obtain d where d: "dp_Timeout dep \<noteq> []" "ParseDuration (dp_Timeout dep) = Ok d" by blast
      then have "longer_timeout dep m = max m d" "?E = {d}" by (auto simp: max_def)
      then show ?thesis by (simp only: Max_insert_max [OF fin] insert_is_Un [of d ?D, symmetric])
    qed
    ultimately show ?case using Cons.IH by (simp del: longer_timeout.simps)
  qed simp
  then show ?thesis by (simp add: wait_timeout_def)
qed

lemma waiting_sound:
  "waiting env st circuits a deadline s err s' \<Longrightarrow>
   (case err of
      None \<Rightarrow> \<exists>s1. CheckDependencies st circuits (deref s1 a) s1 = (Some True, s')
    | Some e \<Rightarrow> e = Errorf ''timeout waiting for dependencies for workload %s'' [Str (wl_ID (deref s' a))] \<and> deadline \<le> fst (time_Now s'))"
  by (induction rule: waiting.induct) auto

definition lets_time_pass :: "(world \<Rightarrow> world \<Rightarrow> bool) \<Rightarrow> bool" where
  "lets_time_pass env = (\<forall>s. env s (snd (time_Now s)))"

lemma waiting_ends:
  assumes "lets_time_pass env" "deadline \<le> wd_clock s n" "wd_ticks s \<le> n"
  shows "\<exists>err s'. waiting env st circuits a deadline s err s'"
  using assms(2,3)
proof (induction "n - wd_ticks s" arbitrary: s)
  case 0
  then have "deadline \<le> fst (time_Now s)" by simp
  then show ?case using waiting.timeout by blast
next
  case (Suc k)
  then have "\<exists>err s'. waiting env st circuits a deadline (snd (time_Now s)) err s'" by (intro Suc.hyps(1)) simp_all
  then show ?case using assms(1) waiting.sleep unfolding lets_time_pass_def by meson
qed

text \<open>
  Without circuit breakers the dependency check is exact: it looks at the dependencies in
  order and stops at the first one that is not met. It answers true exactly when every
  dependency is stored and meets its condition, false when the first unmet one is stored,
  and panics on a nil workload when that one is missing from the store; it changes nothing.
\<close>

theorem dependency_check_is_exact:
  "CheckDependencies (NewVersionedStore MemStore n) None w s =
     (case List.find (\<lambda>dep. \<not> dependency_met mem_stored s dep) (sp_Dependencies (wl_Spec w)) of
        None \<Rightarrow> Some True
      | Some dep \<Rightarrow> if mem_stored s (dp_WorkloadID dep) = None then None else Some False, s)"
  by (simp add: CheckDependencies_def vs.check_dependencies_exact)


definition waiting_workload :: Workload where
  "waiting_workload = (demo_workload ''a'' ''v1'')\<lparr>wl_Spec := zero_spec\<lparr>sp_Dependencies :=
     [\<lparr>dp_WorkloadID = ''db'', dp_Type = [], dp_Condition = [], dp_Timeout = ''10m''\<rparr>]\<rparr>\<rparr>"


end
