(* ===== verification/Cron.thy ===== *)
theory Cron
  imports World
begin

text \<open>
  \<open>internal/cronsched/eval.go\<close>: when a cron workload is due. The cron parser
  (\<open>robfig/cron\<close>) and the time zone database are code outside this repository and are the
  parameter \<open>CronLib\<close>: \<open>cl_ParseStandard\<close> gives a schedule, the function from a location
  and a time to the next activation, and \<open>cl_LoadLocation\<close> a location. The library
  documents that \<open>Next\<close> is strictly later than its argument, or the zero time when no
  activation exists; the theorems name what they use of it as a hypothesis.
\<close>

type_synonym location = string

type_synonym schedule = "location \<Rightarrow> gotime \<Rightarrow> gotime"

record CronLib =
  cl_LoadLocation :: "string \<Rightarrow> (error, location) result"
  cl_ParseStandard :: "string \<Rightarrow> (error, schedule) result"

definition time_UTC :: location where
  "time_UTC = ''UTC''"

definition parseSchedule :: "CronLib \<Rightarrow> CronScheduleSpec \<Rightarrow> (error, schedule \<times> location) result" where
  "parseSchedule lib spec =
     (let tz = trim_space (cr_TimeZone spec);
          loc = (if tz \<noteq> [] \<and> to_upper tz \<noteq> ''UTC'' \<and> to_upper tz \<noteq> ''GMT''
                 then (case cl_LoadLocation lib tz of
                         Inl err \<Rightarrow> Err (Wrapf ''invalid cron time_zone %q: %w'' [Str tz] err)
                       | Inr l \<Rightarrow> Ok l)
                 else Ok time_UTC)
      in case loc of
           Inl err \<Rightarrow> Err err
         | Inr l \<Rightarrow>
             (case cl_ParseStandard lib (trim_space (cr_Schedule spec)) of
                Inl err \<Rightarrow> Err (Wrapf ''invalid cron schedule %q: %w'' [Str (cr_Schedule spec)] err)
              | Inr sched \<Rightarrow> Ok (sched, l)))"

definition cron_anchor :: "Workload \<Rightarrow> gotime" where
  "cron_anchor w = (case st_Cron (wl_Status w) of
     None \<Rightarrow> 0
   | Some c \<Rightarrow> (case cs_LastScheduleTime c of None \<Rightarrow> 0 | Some t \<Rightarrow> t))"

definition cron_forbids :: "CronScheduleSpec \<Rightarrow> WorkloadPhase \<Rightarrow> bool" where
  "cron_forbids spec ph =
     (let cp0 = to_lower (trim_space (cr_ConcurrencyPolicy spec));
          cp = (if cp0 = [] then ''allow'' else cp0)
      in cp = ''forbid'' \<and> (ph = WorkloadPhaseRunning \<or> ph = WorkloadPhaseDegraded))"

definition ShouldTriggerDeploy :: "CronLib \<Rightarrow> Workload \<Rightarrow> gotime \<Rightarrow> (error, bool) result" where
  "ShouldTriggerDeploy lib w now = (case sp_CronSchedule (wl_Spec w) of
     None \<Rightarrow> Ok True
   | Some spec \<Rightarrow>
       if trim_space (cr_Schedule spec) = [] then Ok True
       else if cr_Suspended spec then Ok False
       else
         (case parseSchedule lib spec of
            Inl err \<Rightarrow> Err err
          | Inr (sched, loc) \<Rightarrow>
              if sched loc (cron_anchor w) > now then Ok False
              else if cron_forbids spec (phase w) then Ok False
              else Ok True))"

definition cron_Validate :: "CronLib \<Rightarrow> CronScheduleSpec option \<Rightarrow> error option" where
  "cron_Validate lib so = (case so of
     None \<Rightarrow> None
   | Some spec \<Rightarrow>
       if trim_space (cr_Schedule spec) = [] then Some (Errorf ''cron schedule is empty'' [])
       else (case parseSchedule lib spec of Inl err \<Rightarrow> Some err | Inr _ \<Rightarrow> None))"

section \<open>Runs of a cron workload\<close>

text \<open>
  The reconciler asks at each pass and, when the workload is due and gets scheduled, stores
  the time in \<open>LastScheduleTime\<close>. \<open>cron_run\<close> repeats this over the passes' times and
  returns the times at which the workload was triggered.
\<close>

definition mark_scheduled :: "gotime \<Rightarrow> Workload \<Rightarrow> Workload" where
  "mark_scheduled t w = w\<lparr>wl_Status := (wl_Status w)\<lparr>st_Cron := Some \<lparr>cs_LastScheduleTime = Some t\<rparr>\<rparr>\<rparr>"

fun cron_run :: "CronLib \<Rightarrow> Workload \<Rightarrow> gotime list \<Rightarrow> gotime list" where
  "cron_run lib w [] = []"
| "cron_run lib w (t # ts) =
     (if ShouldTriggerDeploy lib w t = Ok True then t # cron_run lib (mark_scheduled t w) ts
      else cron_run lib w ts)"

lemma mark_scheduled_simps [simp]:
  "wl_Spec (mark_scheduled t w) = wl_Spec w" "phase (mark_scheduled t w) = phase w"
  "cron_anchor (mark_scheduled t w) = t"
  by (simp_all add: mark_scheduled_def cron_anchor_def)

lemma ShouldTriggerDeploy_due:
  assumes "sp_CronSchedule (wl_Spec w) = Some spec" "trim_space (cr_Schedule spec) \<noteq> []"
    and "parseSchedule lib spec = Ok (sched, loc)" "ShouldTriggerDeploy lib w now = Ok True"
  shows "sched loc (cron_anchor w) \<le> now" "\<not> cr_Suspended spec" "\<not> cron_forbids spec (phase w)"
  using assms by (auto simp: ShouldTriggerDeploy_def split: if_splits)

lemma cron_run_spaced:
  assumes "sp_CronSchedule (wl_Spec w) = Some spec" "trim_space (cr_Schedule spec) \<noteq> []"
    and "parseSchedule lib spec = Ok (sched, loc)"
  shows "successively (\<lambda>t t'. sched loc t \<le> t') (cron_run lib w ts) \<and>
    (\<forall>t ts'. cron_run lib w ts = t # ts' \<longrightarrow> sched loc (cron_anchor w) \<le> t)"
  using assms
proof (induction ts arbitrary: w)
  case (Cons t ts)
  show ?case
  proof (cases "ShouldTriggerDeploy lib w t = Ok True")
    case True
    have "sched loc (cron_anchor w) \<le> t" using ShouldTriggerDeploy_due(1) [OF Cons.prems True] .
    moreover have "successively (\<lambda>t t'. sched loc t \<le> t') (cron_run lib (mark_scheduled t w) ts)"
      "\<forall>u us. cron_run lib (mark_scheduled t w) ts = u # us \<longrightarrow> sched loc t \<le> u"
      using Cons.IH [of "mark_scheduled t w"] Cons.prems by simp_all
    ultimately show ?thesis using True by (cases "cron_run lib (mark_scheduled t w) ts") simp_all
  next
    case False
    then show ?thesis using Cons.IH [OF Cons.prems] by simp
  qed
qed simp


definition every_minute :: CronLib where
  "every_minute = \<lparr>cl_LoadLocation = (\<lambda>l. Ok l), cl_ParseStandard = (\<lambda>_. Ok (\<lambda>_ t. t + 60))\<rparr>"

definition cron_workload :: Workload where
  "cron_workload = zero_workload\<lparr>wl_Spec := zero_spec\<lparr>sp_CronSchedule :=
     Some \<lparr>cr_Schedule = ''* * * * *'', cr_Suspended = False, cr_TimeZone = [], cr_ConcurrencyPolicy = []\<rparr>\<rparr>\<rparr>"

lemma every_minute_parse: "cr_TimeZone spec = [] \<Longrightarrow> parseSchedule every_minute spec = Ok ((\<lambda>_ t. t + 60), time_UTC)"
  by (simp add: parseSchedule_def every_minute_def)


text \<open>
  A schedule with no activation left fires at every pass: the library then answers the
  zero time, which is not after any clock reading, so the workload counts as due.
\<close>

theorem exhausted_schedule_is_always_due:
  assumes "sp_CronSchedule (wl_Spec w) = Some spec" "trim_space (cr_Schedule spec) \<noteq> []" "\<not> cr_Suspended spec"
    and "parseSchedule lib spec = Ok (sched, loc)" "\<And>t. sched loc t = zero_time"
    and "\<not> cron_forbids spec (phase w)" "zero_time \<le> now"
  shows "ShouldTriggerDeploy lib w now = Ok True \<and> ShouldTriggerDeploy lib (mark_scheduled now w) now = Ok True"
  using assms by (simp add: ShouldTriggerDeploy_def)

theorem exhausted_schedule_is_always_due_witness:
  "ShouldTriggerDeploy \<lparr>cl_LoadLocation = (\<lambda>l. Ok l), cl_ParseStandard = (\<lambda>_. Ok (\<lambda>_ t. zero_time))\<rparr>
     (mark_scheduled 100 cron_workload) 100 = Ok True"
  using exhausted_schedule_is_always_due
    [of cron_workload "\<lparr>cr_Schedule = ''* * * * *'', cr_Suspended = False, cr_TimeZone = [], cr_ConcurrencyPolicy = []\<rparr>"
        "\<lparr>cl_LoadLocation = (\<lambda>l. Ok l), cl_ParseStandard = (\<lambda>_. Ok (\<lambda>_ t. zero_time))\<rparr>" "\<lambda>_ t. zero_time" time_UTC 100]
  by (simp add: cron_workload_def parseSchedule_def trim_space_def is_space_def cron_forbids_def zero_time_def to_lower_def)

end
