(* ===== verification/Policy.thy ===== *)
theory Policy
  imports Cron WorkloadTags
begin

text \<open>
  \<open>internal/policy/policy.go\<close>: admission checks and defaulting. \<open>Validate\<close> writes default
  limits and synchronised tags into the workload while it checks, so it returns the error
  (if any) with the workload as it leaves it, which on an early return is only partly
  defaulted.

  The lemmas: \<open>Validate\<close> accepts exactly the workloads of the declarative predicate
  \<open>policy_ok\<close>, what it changes, and that an accepted workload stays accepted.
\<close>

record PolicyConfig =
  pc_DefaultCPULimit :: string
  pc_DefaultMemoryLimit :: string
  pc_EnforceNamespaceIsolation :: bool
  pc_RequireTeamTag :: bool
  pc_RequireEnvironmentTag :: bool
  pc_RequireCostCenterTag :: bool

definition allowedWorkloadPriorities :: "string list" where
  "allowedWorkloadPriorities = [WorkloadPriorityCritical, WorkloadPriorityHigh, WorkloadPriorityNormal,
     WorkloadPriorityLow, '''']"

definition default_limits :: "PolicyConfig \<Rightarrow> Workload \<Rightarrow> Workload" where
  "default_limits cfg w =
     (let r = sp_Resources (wl_Spec w);
          r1 = (if rr_CPULimit r = [] then r\<lparr>rr_CPULimit := pc_DefaultCPULimit cfg\<rparr> else r);
          r2 = (if rr_MemoryLimit r1 = [] then r1\<lparr>rr_MemoryLimit := pc_DefaultMemoryLimit cfg\<rparr> else r1)
      in w\<lparr>wl_Spec := (wl_Spec w)\<lparr>sp_Resources := r2\<rparr>\<rparr>)"

definition check_priority :: "WorkloadSpec \<Rightarrow> error option" where
  "check_priority sp = (case sp_Scheduling sp of
     None \<Rightarrow> None
   | Some sc \<Rightarrow>
       if sc_WorkloadPriority sc \<noteq> [] \<and>
          to_lower (trim_space (sc_WorkloadPriority sc)) \<notin> set allowedWorkloadPriorities
       then Some (Errorf ''unsupported workload_priority %q (use critical|high|normal|low)'' [Str (sc_WorkloadPriority sc)])
       else None)"

definition check_cron :: "CronLib \<Rightarrow> WorkloadSpec \<Rightarrow> error option" where
  "check_cron lib sp = (case sp_CronSchedule sp of
     None \<Rightarrow> None
   | Some c \<Rightarrow> map_option (Wrapf ''cron_schedule: %w'' []) (cron_Validate lib (Some c)))"

definition check_circuit :: "WorkloadSpec \<Rightarrow> error option" where
  "check_circuit sp = (case sp_CircuitBreaker sp of
     None \<Rightarrow> None
   | Some cb \<Rightarrow>
       if \<not> cb_Enabled cb then None
       else if sint (cb_FailureThreshold cb) < 0
         then Some (Errorf ''circuit_breaker.failure_threshold must be non-negative'' [])
       else if sint (cb_SuccessThreshold cb) < 0
         then Some (Errorf ''circuit_breaker.success_threshold must be non-negative'' [])
       else if sint (cb_OpenDurationSeconds cb) < 0
         then Some (Errorf ''circuit_breaker.open_duration_seconds must be non-negative'' [])
       else if sint (cb_HalfOpenMaxRequests cb) < 0
         then Some (Errorf ''circuit_breaker.half_open_max_requests must be non-negative'' [])
       else None)"

definition check_standby :: "WorkloadSpec \<Rightarrow> error option" where
  "check_standby sp = (case sp_WarmStandby sp of
     None \<Rightarrow> None
   | Some ws \<Rightarrow> if ws_Enabled ws \<and> sint (ws_Replicas ws) < 0
                then Some (Errorf ''warm_standby.replicas must be non-negative'' []) else None)"

definition check_secrets :: "WorkloadSpec \<Rightarrow> error option" where
  "check_secrets sp = (case sp_SecretRotation sp of
     None \<Rightarrow> None
   | Some sr \<Rightarrow>
       if \<not> ss_Enabled sr then None
       else if ss_SecretRefs sr = [] then Some (Errorf ''secret_rotation.secret_refs required when enabled'' [])
       else if \<exists>ref \<in> set (ss_SecretRefs sr). trim_space (sr_Name ref) = []
         then Some (Errorf ''secret_rotation.secret_refs.name is required'' [])
       else None)"

definition check_tags :: "PolicyConfig \<Rightarrow> Workload \<Rightarrow> error option" where
  "check_tags cfg w =
     (if pc_RequireTeamTag cfg \<and> tags_Team (Some w) = []
        then Some (Errorf ''tags.team (or label %s) is required'' [Str LabelKeyTeam])
      else if pc_RequireEnvironmentTag cfg \<and>
              trim_space (tag_or_label wt_Environment LabelKeyEnvironment w) = []
        then Some (Errorf ''tags.environment (or label %s) is required'' [Str LabelKeyEnvironment])
      else if pc_RequireCostCenterTag cfg \<and>
              trim_space (tag_or_label wt_CostCenter LabelKeyCostCenter w) = []
        then Some (Errorf ''tags.cost_center (or label %s) is required'' [Str LabelKeyCostCenter])
      else None)"

definition spec_checks :: "CronLib \<Rightarrow> WorkloadSpec \<Rightarrow> error option" where
  \<comment> \<open>the checks between the defaulting and the tag synchronisation, in order\<close>
  "spec_checks lib sp = (case check_priority sp of Some e \<Rightarrow> Some e | None \<Rightarrow>
     (case check_cron lib sp of Some e \<Rightarrow> Some e | None \<Rightarrow>
     (case check_circuit sp of Some e \<Rightarrow> Some e | None \<Rightarrow>
     (case check_standby sp of Some e \<Rightarrow> Some e | None \<Rightarrow> check_secrets sp))))"

definition policy_Validate :: "PolicyConfig \<Rightarrow> CronLib \<Rightarrow> Workload \<Rightarrow> error option \<times> Workload" where
  "policy_Validate cfg lib w0 =
     (if pc_EnforceNamespaceIsolation cfg \<and> wl_Namespace w0 = []
      then (Some (Errorf ''namespace is required when namespace isolation is enforced'' []), w0)
      else
        let w = default_limits cfg w0
        in case spec_checks lib (wl_Spec w) of
             Some e \<Rightarrow> (Some e, w)
           | None \<Rightarrow> let w' = SyncFromLabels w in (check_tags cfg w', w'))"

definition policy_Enforce :: "PolicyConfig \<Rightarrow> Workload \<Rightarrow> Workload" where
  "policy_Enforce cfg w = tags_Apply (default_limits cfg w)"

section \<open>What is accepted\<close>

definition tag_present :: "(WorkloadTags \<Rightarrow> string) \<Rightarrow> string \<Rightarrow> Workload \<Rightarrow> bool" where
  "tag_present field key w =
     ((\<exists>t. wl_Tags w = Some t \<and> trim_space (field t) \<noteq> []) \<or>
      (\<forall>t. wl_Tags w = Some t \<longrightarrow> field t = []) \<and> trim_space (sget (wl_Labels w) key) \<noteq> [])"

definition policy_ok :: "PolicyConfig \<Rightarrow> CronLib \<Rightarrow> Workload \<Rightarrow> bool" where
  "policy_ok cfg lib w =
     ((pc_EnforceNamespaceIsolation cfg \<longrightarrow> wl_Namespace w \<noteq> []) \<and>
      (\<forall>sc. sp_Scheduling (wl_Spec w) = Some sc \<longrightarrow>
         to_lower (trim_space (sc_WorkloadPriority sc)) \<in> set allowedWorkloadPriorities) \<and>
      (\<forall>c. sp_CronSchedule (wl_Spec w) = Some c \<longrightarrow>
         trim_space (cr_Schedule c) \<noteq> [] \<and> is_ok (parseSchedule lib c)) \<and>
      (\<forall>cb. sp_CircuitBreaker (wl_Spec w) = Some cb \<and> cb_Enabled cb \<longrightarrow>
         0 \<le> sint (cb_FailureThreshold cb) \<and> 0 \<le> sint (cb_SuccessThreshold cb) \<and>
         0 \<le> sint (cb_OpenDurationSeconds cb) \<and> 0 \<le> sint (cb_HalfOpenMaxRequests cb)) \<and>
      (\<forall>ws. sp_WarmStandby (wl_Spec w) = Some ws \<and> ws_Enabled ws \<longrightarrow> 0 \<le> sint (ws_Replicas ws)) \<and>
      (\<forall>sr. sp_SecretRotation (wl_Spec w) = Some sr \<and> ss_Enabled sr \<longrightarrow>
         ss_SecretRefs sr \<noteq> [] \<and> (\<forall>ref \<in> set (ss_SecretRefs sr). trim_space (sr_Name ref) \<noteq> [])) \<and>
      (pc_RequireTeamTag cfg \<longrightarrow> tags_Team (Some w) \<noteq> []) \<and>
      (pc_RequireEnvironmentTag cfg \<longrightarrow> tag_present wt_Environment LabelKeyEnvironment w) \<and>
      (pc_RequireCostCenterTag cfg \<longrightarrow> tag_present wt_CostCenter LabelKeyCostCenter w))"

lemma default_limits_frame [simp, frame_simps]:
  "wl_ID (default_limits cfg w) = wl_ID w" "wl_Namespace (default_limits cfg w) = wl_Namespace w"
  "wl_Labels (default_limits cfg w) = wl_Labels w" "wl_Tags (default_limits cfg w) = wl_Tags w"
  "wl_Status (default_limits cfg w) = wl_Status w"
  "sp_Scheduling (wl_Spec (default_limits cfg w)) = sp_Scheduling (wl_Spec w)"
  "sp_CronSchedule (wl_Spec (default_limits cfg w)) = sp_CronSchedule (wl_Spec w)"
  "sp_CircuitBreaker (wl_Spec (default_limits cfg w)) = sp_CircuitBreaker (wl_Spec w)"
  "sp_WarmStandby (wl_Spec (default_limits cfg w)) = sp_WarmStandby (wl_Spec w)"
  "sp_SecretRotation (wl_Spec (default_limits cfg w)) = sp_SecretRotation (wl_Spec w)"
  by (simp_all add: default_limits_def Let_def)

lemma default_limits_idem [simp]: "default_limits cfg (default_limits cfg w) = default_limits cfg w"
  by (simp add: default_limits_def Let_def)

lemma default_limits_tags: "default_limits cfg (w\<lparr>wl_Tags := t\<rparr>) = (default_limits cfg w)\<lparr>wl_Tags := t\<rparr>"
  by (simp add: default_limits_def Let_def)

lemma default_limits_sync:
  "default_limits cfg (SyncFromLabels (default_limits cfg w)) = SyncFromLabels (default_limits cfg w)"
proof -
  obtain t where "SyncFromLabels (default_limits cfg w) = (default_limits cfg w)\<lparr>wl_Tags := t\<rparr>"
    using SyncFromLabels_only_tags by blast
  then show ?thesis by (simp add: default_limits_tags)
qed

lemma tags_Team_sync [simp]: "tags_Team (Some (SyncFromLabels w)) = tags_Team (Some w)"
  by (cases "wl_Tags w") (auto simp: tags_Team_def SyncFromLabels_def sync_tags_def zero_tags_def)

lemma tag_or_label_sync:
  "trim_space (tag_or_label wt_Environment LabelKeyEnvironment (SyncFromLabels w)) \<noteq> [] \<longleftrightarrow>
     tag_present wt_Environment LabelKeyEnvironment w"
  "trim_space (tag_or_label wt_CostCenter LabelKeyCostCenter (SyncFromLabels w)) \<noteq> [] \<longleftrightarrow>
     tag_present wt_CostCenter LabelKeyCostCenter w"
  by (cases "wl_Tags w"; cases "wl_Labels w";
      auto simp: tag_or_label_def tag_present_def SyncFromLabels_def sync_tags_def zero_tags_def Let_def)+

lemma tags_Team_spec [simp]: "tags_Team (Some (default_limits cfg w)) = tags_Team (Some w)"
  by (cases "wl_Tags w") (simp_all add: tags_Team_def)

lemma tag_present_limits [simp]: "tag_present f k (default_limits cfg w) = tag_present f k w"
  by (simp add: tag_present_def)

lemma check_tags_None:
  "check_tags cfg (SyncFromLabels w) = None \<longleftrightarrow>
     (pc_RequireTeamTag cfg \<longrightarrow> tags_Team (Some w) \<noteq> []) \<and>
     (pc_RequireEnvironmentTag cfg \<longrightarrow> tag_present wt_Environment LabelKeyEnvironment w) \<and>
     (pc_RequireCostCenterTag cfg \<longrightarrow> tag_present wt_CostCenter LabelKeyCostCenter w)"
  using tag_or_label_sync [of w] by (auto simp: check_tags_def)

lemma check_priority_None:
  "check_priority sp = None \<longleftrightarrow> (\<forall>sc. sp_Scheduling sp = Some sc \<longrightarrow>
     to_lower (trim_space (sc_WorkloadPriority sc)) \<in> set allowedWorkloadPriorities)"
  by (auto simp: check_priority_def allowedWorkloadPriorities_def split: option.split)

lemma check_cron_None:
  "check_cron lib sp = None \<longleftrightarrow> (\<forall>c. sp_CronSchedule sp = Some c \<longrightarrow>
     trim_space (cr_Schedule c) \<noteq> [] \<and> is_ok (parseSchedule lib c))"
  by (auto simp: check_cron_def cron_Validate_def is_ok_def split: option.split sum.split)

lemma check_circuit_None:
  "check_circuit sp = None \<longleftrightarrow> (\<forall>cb. sp_CircuitBreaker sp = Some cb \<and> cb_Enabled cb \<longrightarrow>
     0 \<le> sint (cb_FailureThreshold cb) \<and> 0 \<le> sint (cb_SuccessThreshold cb) \<and>
     0 \<le> sint (cb_OpenDurationSeconds cb) \<and> 0 \<le> sint (cb_HalfOpenMaxRequests cb))"
  by (auto simp: check_circuit_def split: option.split)

lemma check_standby_None:
  "check_standby sp = None \<longleftrightarrow> (\<forall>ws. sp_WarmStandby sp = Some ws \<and> ws_Enabled ws \<longrightarrow> 0 \<le> sint (ws_Replicas ws))"
  by (auto simp: check_standby_def split: option.split)

lemma check_secrets_None:
  "check_secrets sp = None \<longleftrightarrow> (\<forall>sr. sp_SecretRotation sp = Some sr \<and> ss_Enabled sr \<longrightarrow>
     ss_SecretRefs sr \<noteq> [] \<and> (\<forall>ref \<in> set (ss_SecretRefs sr). trim_space (sr_Name ref) \<noteq> []))"
  by (auto simp: check_secrets_def split: option.split)

lemma spec_checks_None:
  "spec_checks lib sp = None \<longleftrightarrow> check_priority sp = None \<and> check_cron lib sp = None \<and>
     check_circuit sp = None \<and> check_standby sp = None \<and> check_secrets sp = None"
  by (simp add: spec_checks_def split: option.split)

lemmas checks_None = check_priority_None check_cron_None check_circuit_None check_standby_None
  check_secrets_None check_tags_None

lemma policy_Validate_None: "fst (policy_Validate cfg lib w) = None \<longleftrightarrow> policy_ok cfg lib w"
proof -
  have "fst (policy_Validate cfg lib w) = None \<longleftrightarrow> (pc_EnforceNamespaceIsolation cfg \<longrightarrow> wl_Namespace w \<noteq> []) \<and>
      spec_checks lib (wl_Spec (default_limits cfg w)) = None \<and>
      check_tags cfg (SyncFromLabels (default_limits cfg w)) = None"
    by (simp add: policy_Validate_def Let_def split: option.split)
  then show ?thesis unfolding spec_checks_None checks_None policy_ok_def by simp
qed

text \<open>
  C25. Policy admission is exact: \<open>Validate\<close> returns no error exactly for the workloads that
  meet the declarative policy; an accepted workload comes back with its default limits
  filled in, its tags synchronised and nothing else changed, and is accepted again
  unchanged.
\<close>

theorem policy_admits_exactly_compliant_workloads:
  "(fst (policy_Validate cfg lib w) = None) = policy_ok cfg lib w \<and>
   (policy_ok cfg lib w \<longrightarrow>
     snd (policy_Validate cfg lib w) = SyncFromLabels (default_limits cfg w) \<and>
     policy_Validate cfg lib (SyncFromLabels (default_limits cfg w)) = (None, SyncFromLabels (default_limits cfg w)))"
proof (intro conjI impI)
  show "(fst (policy_Validate cfg lib w) = None) = policy_ok cfg lib w" by (rule policy_Validate_None)
next
  assume "policy_ok cfg lib w"
  then have n: "fst (policy_Validate cfg lib w) = None" by (simp add: policy_Validate_None)
  then show v: "snd (policy_Validate cfg lib w) = SyncFromLabels (default_limits cfg w)"
    by (auto simp: policy_Validate_def Let_def split: if_splits option.splits)
  let ?w = "SyncFromLabels (default_limits cfg w)"
  have "default_limits cfg ?w = ?w" by (rule default_limits_sync)
  then show "policy_Validate cfg lib ?w = (None, ?w)"
    using n by (auto simp: policy_Validate_def Let_def split: if_splits option.splits)
qed

theorem policy_admits_exactly_compliant_workloads_witness:
  "policy_Validate \<lparr>pc_DefaultCPULimit = ''1'', pc_DefaultMemoryLimit = ''1Gi'', pc_EnforceNamespaceIsolation = False,
      pc_RequireTeamTag = False, pc_RequireEnvironmentTag = False, pc_RequireCostCenterTag = False\<rparr> every_minute
      (SyncFromLabels (default_limits \<lparr>pc_DefaultCPULimit = ''1'', pc_DefaultMemoryLimit = ''1Gi'',
         pc_EnforceNamespaceIsolation = False, pc_RequireTeamTag = False, pc_RequireEnvironmentTag = False,
         pc_RequireCostCenterTag = False\<rparr> zero_workload))
   = (None, SyncFromLabels (default_limits \<lparr>pc_DefaultCPULimit = ''1'', pc_DefaultMemoryLimit = ''1Gi'',
         pc_EnforceNamespaceIsolation = False, pc_RequireTeamTag = False, pc_RequireEnvironmentTag = False,
         pc_RequireCostCenterTag = False\<rparr> zero_workload))"
  using policy_admits_exactly_compliant_workloads
    [of "\<lparr>pc_DefaultCPULimit = ''1'', pc_DefaultMemoryLimit = ''1Gi'', pc_EnforceNamespaceIsolation = False,
      pc_RequireTeamTag = False, pc_RequireEnvironmentTag = False, pc_RequireCostCenterTag = False\<rparr>" every_minute zero_workload]
  by (simp add: policy_ok_def zero_workload_def zero_spec_def)

end
