(* ===== verification/Quota.thy ===== *)
theory Quota
  imports StateStore GoStd
begin

text \<open>
  \<open>internal/quotaaggregate/requests.go\<close> and \<open>internal/resourcequota/\<close>: hard quotas per
  namespace or team. Kubernetes quantities (\<open>resource.Quantity\<close>) are code outside this
  repository: the parameter \<open>QuantityLib\<close> with its zero, parser, addition, comparison and
  printer. Theorems that need quantities to be numbers name \<open>quantity_laws\<close>: some value
  of a quantity is additive and \<open>Cmp\<close> compares it. Replica counts stay 32-bit and wrap, and
  the workload count is converted to 32 bits as in the code.

  The lemmas: an admitted workload leaves every configured limit respected, a run of
  admissions never lets a namespace exceed its workload limit, and workloads whose
  namespace differs only in case or blanks are not counted.
\<close>

record 'q QuantityLib =
  ql_Zero :: 'q
  ql_Parse :: "string \<Rightarrow> (error, 'q) result"
  ql_Add :: "'q \<Rightarrow> 'q \<Rightarrow> 'q"
  ql_Cmp :: "'q \<Rightarrow> 'q \<Rightarrow> int"
  ql_String :: "'q \<Rightarrow> string"

section \<open>Aggregation\<close>

definition TrimLower :: "string \<Rightarrow> string" where
  "TrimLower s = to_lower (trim_space s)"

definition Trim :: "string \<Rightarrow> string" where
  "Trim s = trim_space s"

definition ParseIntQuota :: "string \<Rightarrow> int32" where
  "ParseIntQuota s0 =
     (let s = trim_space s0
      in if s = [] then 0
         else let (n, err) = ParseInt 32 s in if err \<noteq> None then 0 else word_of_int n)"

lemma ParseIntQuota_itoa: "ParseIntQuota (itoa (sint q)) = q"
proof -
  have "ParseInt 32 (itoa (sint q)) = (sint q, None)" using sint32_bounds [of q] by (intro ParseInt_itoa) simp_all
  then show ?thesis by (simp add: ParseIntQuota_def)
qed

lemma ParseIntQuota_out_of_range:
  assumes "i < - (2 ^ 31) \<or> 2 ^ 31 \<le> i"
  shows "ParseIntQuota (itoa i) = 0"
proof -
  have "snd (ParseInt 32 (itoa i)) \<noteq> None"
  proof
    assume "snd (ParseInt 32 (itoa i)) = None"
    then obtain n where "ParseUint 32 (digits (nat \<bar>i\<bar>)) = (n, None)" "if i < 0 then n \<le> 2 ^ 31 else n < 2 ^ 31"
      by (cases "i < 0") (auto simp: ParseInt_def itoa_def Let_def ParseUint_def split: if_splits prod.splits sum.splits num_error.splits)
    then show False using assms unfolding ParseUint_Ok by (auto split: if_splits)
  qed
  then show ?thesis by (auto simp: ParseIntQuota_def split: prod.splits)
qed

definition ParseCPU :: "'q QuantityLib \<Rightarrow> string \<Rightarrow> (error, 'q) result" where
  "ParseCPU lib s0 = (let s = trim_space s0 in if s = [] then Ok (ql_Zero lib) else ql_Parse lib s)"

definition ParseMemory :: "'q QuantityLib \<Rightarrow> string \<Rightarrow> (error, 'q) result" where
  "ParseMemory lib s0 = (let s = trim_space s0 in if s = [] then Ok (ql_Zero lib) else ql_Parse lib s)"

definition TeamLabel :: "Workload \<Rightarrow> string" where
  "TeamLabel w =
     (case wl_Tags w of
        Some t \<Rightarrow> if trim_space (wt_Team t) \<noteq> [] then trim_space (wt_Team t)
                  else trim_space (sget (wl_Labels w) ''kranix.io/team'')
      | None \<Rightarrow> trim_space (sget (wl_Labels w) ''kranix.io/team''))"

record 'q Totals =
  qt_cpu :: 'q
  qt_mem :: 'q
  qt_replicas :: int32
  qt_count :: int

fun sum_loop :: "'q QuantityLib \<Rightarrow> string \<Rightarrow> Workload list \<Rightarrow> 'q Totals \<Rightarrow> (error, 'q Totals) result" where
  "sum_loop lib skipID [] t = Ok t"
| "sum_loop lib skipID (wl # wls) t =
     (if skipID \<noteq> [] \<and> wl_ID wl = skipID then sum_loop lib skipID wls t
      else
        let t1 = t\<lparr>qt_count := qt_count t + 1, qt_replicas := qt_replicas t + sp_Replicas (wl_Spec wl)\<rparr>
        in case ParseCPU lib (rr_CPURequest (sp_Resources (wl_Spec wl))) of
             Inl err \<Rightarrow> Err err
           | Inr q \<Rightarrow>
               (case ParseMemory lib (rr_MemoryRequest (sp_Resources (wl_Spec wl))) of
                  Inl err \<Rightarrow> Err err
                | Inr m \<Rightarrow> sum_loop lib skipID wls
                    (t1\<lparr>qt_cpu := ql_Add lib (qt_cpu t1) q, qt_mem := ql_Add lib (qt_mem t1) m\<rparr>)))"

definition SumRequests :: "'q QuantityLib \<Rightarrow> Workload list \<Rightarrow> string \<Rightarrow> (error, 'q Totals) result" where
  "SumRequests lib workloads skipID =
     sum_loop lib skipID workloads \<lparr>qt_cpu = ql_Zero lib, qt_mem = ql_Zero lib, qt_replicas = 0, qt_count = 0\<rparr>"

section \<open>The quota engine\<close>

record QuotaEngine =
  qe_namespace :: "(string, HardResourceQuota) gomap"
  qe_team :: "(string, HardResourceQuota) gomap"

definition add_limit :: "HardResourceQuota \<Rightarrow> QuotaEngine \<Rightarrow> QuotaEngine" where
  "add_limit lmt e =
     (let ns = TrimLower (hq_Namespace lmt); tm = TrimLower (hq_TeamID lmt)
      in if ns \<noteq> [] then e\<lparr>qe_namespace := AList.update ns lmt (qe_namespace e)\<rparr>
         else if tm \<noteq> [] then e\<lparr>qe_team := AList.update tm lmt (qe_team e)\<rparr>
         else e)"

definition quota_New :: "HardResourceQuota list \<Rightarrow> QuotaEngine" where
  "quota_New limits = fold add_limit limits \<lparr>qe_namespace = [], qe_team = []\<rparr>"

definition quota_for :: "QuotaEngine \<Rightarrow> Workload \<Rightarrow> HardResourceQuota option" where
  "quota_for e wl =
     (case map_of (qe_namespace e) (TrimLower (wl_Namespace wl)) of
        Some lmt \<Rightarrow> if wl_Namespace wl \<noteq> [] then Some lmt else None
      | None \<Rightarrow> None)"

definition quota_limit :: "QuotaEngine \<Rightarrow> Workload \<Rightarrow> HardResourceQuota option" where
  "quota_limit e wl =
     (case quota_for e wl of
        Some lmt \<Rightarrow> Some lmt
      | None \<Rightarrow>
          if TeamLabel wl \<noteq> [] then map_of (qe_team e) (TrimLower (TeamLabel wl))
          else (case wl_Tenant wl of
                  None \<Rightarrow> None
                | Some tn \<Rightarrow> if tn_ID tn \<noteq> [] then map_of (qe_team e) (TrimLower (tn_ID tn)) else None))"

definition matchesQuotaKey :: "Workload \<Rightarrow> Workload \<Rightarrow> HardResourceQuota \<Rightarrow> bool" where
  "matchesQuotaKey ref candidate lmt =
     (if TrimLower (hq_Namespace lmt) \<noteq> []
      then TrimLower (wl_Namespace candidate) = TrimLower (hq_Namespace lmt)
      else if TrimLower (hq_TeamID lmt) \<noteq> [] then
        (if TrimLower (TeamLabel candidate) = TrimLower (hq_TeamID lmt) then True
         else (case wl_Tenant candidate of
                 None \<Rightarrow> False | Some tn \<Rightarrow> TrimLower (tn_ID tn) = TrimLower (hq_TeamID lmt)))
      else TrimLower (wl_Namespace candidate) = TrimLower (wl_Namespace ref))"

definition over_cap :: "'q QuantityLib \<Rightarrow> string \<Rightarrow> string \<Rightarrow> string \<Rightarrow> 'q \<Rightarrow> error option" where
  \<comment> \<open>the check of one quantity limit: error formats, limit, aggregate\<close>
  "over_cap lib invalid exceeded lmt ttl =
     (if trim_space lmt = [] then None
      else case ql_Parse lib lmt of
             Inl err \<Rightarrow> Some (Wrapf invalid [] err)
           | Inr capQ \<Rightarrow>
               if ql_Cmp lib ttl capQ > 0
               then Some (Errorf exceeded [Str (ql_String lib ttl), Str (ql_String lib capQ)]) else None)"

definition check_limits :: "'q QuantityLib \<Rightarrow> HardResourceQuota \<Rightarrow> 'q \<Rightarrow> 'q \<Rightarrow> int \<Rightarrow> int32 \<Rightarrow> error option" where
  "check_limits lib lmt cpuTotal memTotal wlCountAfter replicasAfter =
     (if sint (hq_MaxWorkloads lmt) > 0 \<and> sint (word_of_int wlCountAfter :: int32) > sint (hq_MaxWorkloads lmt)
      then Some (Errorf ''namespace/team quota: max workloads %d exceeded (would be %d)''
                   [Num (sint (hq_MaxWorkloads lmt)), Num wlCountAfter])
      else if sint (hq_MaxReplicasTotal lmt) > 0 \<and> sint replicasAfter > sint (hq_MaxReplicasTotal lmt)
      then Some (Errorf ''namespace/team quota: max replicas %d exceeded (would be %d)''
                   [Num (sint (hq_MaxReplicasTotal lmt)), Num (sint replicasAfter)])
      else case over_cap lib ''invalid max_cpu_requests in quota policy: %w''
                  ''namespace/team quota: CPU requests %s would exceed limit %s'' (hq_MaxCPURequests lmt) cpuTotal of
             Some err \<Rightarrow> Some err
           | None \<Rightarrow> over_cap lib ''invalid max_memory_requests in quota policy: %w''
                  ''namespace/team quota: memory requests %s would exceed limit %s'' (hq_MaxMemoryRequests lmt) memTotal)"

definition enforce_limit :: "'q QuantityLib \<Rightarrow> HardResourceQuota \<Rightarrow> Workload list \<Rightarrow> Workload \<Rightarrow> error option" where
  \<comment> \<open>the part of \<open>Enforce\<close> after the list call\<close>
  "enforce_limit lib lmt all wl =
     (case SumRequests lib (filter (\<lambda>wi. matchesQuotaKey wl wi lmt) all) (wl_ID wl) of
        Inl err \<Rightarrow> Some (Wrapf ''quota aggregation: %w'' [] err)
      | Inr peers \<Rightarrow>
          (case ParseCPU lib (rr_CPURequest (sp_Resources (wl_Spec wl))) of
             Inl err \<Rightarrow> Some err
           | Inr cpuNew \<Rightarrow>
               (case ParseMemory lib (rr_MemoryRequest (sp_Resources (wl_Spec wl))) of
                  Inl err \<Rightarrow> Some err
                | Inr mnew \<Rightarrow>
                    check_limits lib lmt (ql_Add lib (qt_cpu peers) cpuNew) (ql_Add lib (qt_mem peers) mnew)
                      (qt_count peers + 1) (qt_replicas peers + sp_Replicas (wl_Spec wl)))))"

definition quota_Enforce ::
  "'q QuantityLib \<Rightarrow> QuotaEngine \<Rightarrow> Store \<Rightarrow> addr \<Rightarrow> world \<Rightarrow> error option \<times> world" where
  "quota_Enforce lib e st a s =
     (let wl = deref s a
      in case quota_limit e wl of
           None \<Rightarrow> (None, s)
         | Some lmt \<Rightarrow>
             let namespaceFilter = (if TrimLower (hq_TeamID lmt) \<noteq> [] then [] else wl_Namespace wl)
             in case store_List st namespaceFilter s of
                  (Inl err, s1) \<Rightarrow> (Some (Wrapf ''quota list workloads: %w'' [] err), s1)
                | (Inr all, s1) \<Rightarrow> (enforce_limit lib lmt (map (deref s1) all) wl, s1))"

section \<open>Administration\<close>

definition SetNamespaceQuota :: "HardResourceQuota \<Rightarrow> QuotaEngine \<Rightarrow> error option \<times> QuotaEngine" where
  "SetNamespaceQuota lmt e =
     (let ns = TrimLower (hq_Namespace lmt)
      in if ns = [] then (Some (Errorf ''namespace is required'' []), e)
         else (None, e\<lparr>qe_namespace := AList.update ns (lmt\<lparr>hq_Namespace := ns\<rparr>) (qe_namespace e)\<rparr>))"

definition GetNamespaceQuota :: "string \<Rightarrow> QuotaEngine \<Rightarrow> HardResourceQuota option" where
  "GetNamespaceQuota ns e = map_of (qe_namespace e) (TrimLower ns)"

definition DeleteNamespaceQuota :: "string \<Rightarrow> QuotaEngine \<Rightarrow> bool \<times> QuotaEngine" where
  "DeleteNamespaceQuota namespace e =
     (let ns = TrimLower namespace
      in if map_of (qe_namespace e) ns = None then (False, e)
         else (True, e\<lparr>qe_namespace := AList.delete ns (qe_namespace e)\<rparr>))"

definition ListNamespaceQuotas :: "QuotaEngine \<Rightarrow> HardResourceQuota list" where
  "ListNamespaceQuotas e = map snd (qe_namespace e)"

record QuotaUsageTotals =
  qu_WorkloadCount :: int
  qu_ReplicaCount :: int32
  qu_CPURequests :: string
  qu_MemoryRequests :: string

record ResourceQuotaUsage =
  ru_Namespace :: string
  ru_Limits :: HardResourceQuota
  ru_Used :: QuotaUsageTotals

definition NamespaceUsage ::
  "'q QuantityLib \<Rightarrow> QuotaEngine \<Rightarrow> Store \<Rightarrow> string \<Rightarrow> world \<Rightarrow> (error, ResourceQuotaUsage) result \<times> world" where
  "NamespaceUsage lib e st namespace s =
     (let ns = trim_space namespace
      in if ns = [] then (Err (Errorf ''namespace is required'' []), s)
         else
           let lmt = (case GetNamespaceQuota ns e of
                        Some l \<Rightarrow> l
                      | None \<Rightarrow> \<lparr>hq_Namespace = ns, hq_TeamID = [], hq_MaxCPURequests = [],
                                 hq_MaxMemoryRequests = [], hq_MaxWorkloads = 0, hq_MaxReplicasTotal = 0\<rparr>)
           in case store_List st ns s of
                (Inl err, s1) \<Rightarrow> (Err err, s1)
              | (Inr all, s1) \<Rightarrow>
                  (case SumRequests lib (map (deref s1) all) [] of
                     Inl err \<Rightarrow> (Err err, s1)
                   | Inr t \<Rightarrow>
                       (Ok \<lparr>ru_Namespace = ns, ru_Limits = lmt,
                            ru_Used = \<lparr>qu_WorkloadCount = qt_count t, qu_ReplicaCount = qt_replicas t,
                              qu_CPURequests = ql_String lib (qt_cpu t), qu_MemoryRequests = ql_String lib (qt_mem t)\<rparr>\<rparr>, s1)))"

section \<open>Aggregates are sums\<close>

definition quantity_laws :: "'q QuantityLib \<Rightarrow> ('q \<Rightarrow> rat) \<Rightarrow> bool" where
  "quantity_laws lib val = (val (ql_Zero lib) = 0 \<and> (\<forall>x y. val (ql_Add lib x y) = val x + val y) \<and>
     (\<forall>x y. 0 < ql_Cmp lib x y \<longleftrightarrow> val y < val x))"

definition val_or_zero :: "('q \<Rightarrow> rat) \<Rightarrow> (error, 'q) result \<Rightarrow> rat" where
  "val_or_zero val r = (case r of Inl _ \<Rightarrow> 0 | Inr q \<Rightarrow> val q)"

abbreviation reps :: "Workload \<Rightarrow> int32" where
  "reps w \<equiv> sp_Replicas (wl_Spec w)"

definition cpu_val :: "'q QuantityLib \<Rightarrow> ('q \<Rightarrow> rat) \<Rightarrow> Workload \<Rightarrow> rat" where
  "cpu_val lib val w = val_or_zero val (ParseCPU lib (rr_CPURequest (sp_Resources (wl_Spec w))))"

definition mem_val :: "'q QuantityLib \<Rightarrow> ('q \<Rightarrow> rat) \<Rightarrow> Workload \<Rightarrow> rat" where
  "mem_val lib val w = val_or_zero val (ParseMemory lib (rr_MemoryRequest (sp_Resources (wl_Spec w))))"

definition others :: "string \<Rightarrow> Workload list \<Rightarrow> Workload list" where
  "others skipID ws = filter (\<lambda>w. \<not> (skipID \<noteq> [] \<and> wl_ID w = skipID)) ws"

lemma sum_loop_ok:
  assumes "sum_loop lib skipID ws t = Ok r"
  shows "qt_count r = qt_count t + int (length (others skipID ws))"
    and "qt_replicas r = qt_replicas t + sum_list (map reps (others skipID ws))"
    and "quantity_laws lib val \<Longrightarrow> val (qt_cpu r) = val (qt_cpu t) + sum_list (map (cpu_val lib val) (others skipID ws))"
    and "quantity_laws lib val \<Longrightarrow> val (qt_mem r) = val (qt_mem t) + sum_list (map (mem_val lib val) (others skipID ws))"
  using assms
  by (induction lib skipID ws t rule: sum_loop.induct)
     (auto simp: others_def cpu_val_def mem_val_def val_or_zero_def quantity_laws_def Let_def
        split: if_splits sum.splits)

lemma SumRequests_ok:
  assumes "SumRequests lib ws skipID = Ok r"
  shows "qt_count r = int (length (others skipID ws))"
    and "qt_replicas r = sum_list (map reps (others skipID ws))"
    and "quantity_laws lib val \<Longrightarrow> val (qt_cpu r) = sum_list (map (cpu_val lib val) (others skipID ws))"
    and "quantity_laws lib val \<Longrightarrow> val (qt_mem r) = sum_list (map (mem_val lib val) (others skipID ws))"
  using sum_loop_ok [OF assms [unfolded SumRequests_def]] by (simp_all add: quantity_laws_def)

lemma sint_sum_list:
  assumes "\<And>x. x \<in> set xs \<Longrightarrow> 0 \<le> sint (x :: int32)" "(\<Sum>x \<leftarrow> xs. sint x) < 2 ^ 31"
  shows "sint (sum_list xs) = (\<Sum>x \<leftarrow> xs. sint x)"
  using assms
proof (induction xs)
  case (Cons x xs)
  have nn: "0 \<le> (\<Sum>x \<leftarrow> xs. sint x)" using Cons.prems(1) by (auto intro!: sum_list_nonneg)
  moreover have "0 \<le> sint x" using Cons.prems(1) by simp
  moreover from this have "(\<Sum>x \<leftarrow> xs. sint x) < 2 ^ 31" using Cons.prems(2) by simp
  ultimately have IH: "sint (sum_list xs) = (\<Sum>x \<leftarrow> xs. sint x)" using Cons.IH Cons.prems(1) by simp
  then show ?case using Cons.prems(2) nn \<open>0 \<le> sint x\<close> sint32_add [of x "sum_list xs"] by simp
qed simp

lemma sint_small: "0 \<le> n \<Longrightarrow> n < 2 ^ 31 \<Longrightarrow> sint (word_of_int n :: int32) = n"
  by (simp add: sint_sbintrunc' signed_take_bit_int_eq_self)

lemma over_cap_None:
  assumes "over_cap lib a b l ttl = None" "quantity_laws lib val" "trim_space l \<noteq> []" "ql_Parse lib l = Ok q"
  shows "val ttl \<le> val q"
  using assms by (auto simp: over_cap_def quantity_laws_def split: if_splits)

lemma check_limits_None:
  assumes "check_limits lib lmt cpu mem n r = None"
  shows "0 < sint (hq_MaxWorkloads lmt) \<Longrightarrow> sint (word_of_int n :: int32) \<le> sint (hq_MaxWorkloads lmt)"
    and "0 < sint (hq_MaxReplicasTotal lmt) \<Longrightarrow> sint r \<le> sint (hq_MaxReplicasTotal lmt)"
    and "quantity_laws lib val \<Longrightarrow> trim_space (hq_MaxCPURequests lmt) \<noteq> [] \<Longrightarrow>
      ql_Parse lib (hq_MaxCPURequests lmt) = Ok q \<Longrightarrow> val cpu \<le> val q"
    and "quantity_laws lib val \<Longrightarrow> trim_space (hq_MaxMemoryRequests lmt) \<noteq> [] \<Longrightarrow>
      ql_Parse lib (hq_MaxMemoryRequests lmt) = Ok q \<Longrightarrow> val mem \<le> val q"
  using assms by (auto simp: check_limits_def intro: over_cap_None split: if_splits option.splits)

definition quota_peers :: "HardResourceQuota \<Rightarrow> Workload list \<Rightarrow> Workload \<Rightarrow> Workload list" where
  "quota_peers lmt all wl = others (wl_ID wl) (filter (\<lambda>wi. matchesQuotaKey wl wi lmt) all)"

lemma enforce_limit_None:
  assumes "enforce_limit lib lmt all wl = None"
  obtains cpu mem where
    "check_limits lib lmt cpu mem (int (length (quota_peers lmt all wl)) + 1)
       (sum_list (map reps (quota_peers lmt all wl)) + reps wl) = None"
    "\<And>val. quantity_laws lib val \<Longrightarrow> val cpu = sum_list (map (cpu_val lib val) (quota_peers lmt all wl)) + cpu_val lib val wl"
    "\<And>val. quantity_laws lib val \<Longrightarrow> val mem = sum_list (map (mem_val lib val) (quota_peers lmt all wl)) + mem_val lib val wl"
proof -
  obtain r q m where r: "SumRequests lib (filter (\<lambda>wi. matchesQuotaKey wl wi lmt) all) (wl_ID wl) = Ok r"
    and q: "ParseCPU lib (rr_CPURequest (sp_Resources (wl_Spec wl))) = Ok q"
    and m: "ParseMemory lib (rr_MemoryRequest (sp_Resources (wl_Spec wl))) = Ok m"
    and c: "check_limits lib lmt (ql_Add lib (qt_cpu r) q) (ql_Add lib (qt_mem r) m) (qt_count r + 1)
      (qt_replicas r + reps wl) = None"
    using assms by (auto simp: enforce_limit_def split: sum.splits)
  note s = SumRequests_ok [OF r, folded quota_peers_def]
  show thesis
    by (rule that [OF c [unfolded s(1,2)]])
       (auto simp: quantity_laws_def s(3,4) cpu_val_def mem_val_def val_or_zero_def q m)
qed


section \<open>Admission runs\<close>

definition quota_admit ::
  "'q QuantityLib \<Rightarrow> QuotaEngine \<Rightarrow> Store \<Rightarrow> addr \<Rightarrow> world \<Rightarrow> world" where
  \<comment> \<open>a client that enforces the quota before it creates the workload; the HTTP create handler does not enforce\<close>
  "quota_admit lib e st a s = (case quota_Enforce lib e st a s of
     (Some _, s1) \<Rightarrow> s1
   | (None, s1) \<Rightarrow> snd (store_Create st a s1))"

definition in_namespace :: "(world \<Rightarrow> string \<Rightarrow> addr option) \<Rightarrow> string \<Rightarrow> world \<Rightarrow> string set" where
  "in_namespace stored ns s = {i. \<exists>a. stored s i = Some a \<and> wl_Namespace (deref s a) = ns}"

definition namespace_quota :: "QuotaEngine \<Rightarrow> string \<Rightarrow> HardResourceQuota \<Rightarrow> bool" where
  "namespace_quota e ns lmt = (map_of (qe_namespace e) (TrimLower ns) = Some lmt \<and>
     TrimLower (hq_Namespace lmt) = TrimLower ns \<and> TrimLower ns \<noteq> [] \<and> TrimLower (hq_TeamID lmt) = [])"

lemma TrimLower_Nil [simp]: "TrimLower [] = []"
  by (simp add: TrimLower_def)

context workload_store
begin

lemma quota_Enforce_unchanged: "valid s \<Longrightarrow> snd (quota_Enforce lib e st a s) = s"
proof (cases "quota_limit e (deref s a)")
  case (Some lmt)
  assume "valid s"
  then have "\<exists>as. store_List st ns s = (Ok as, s)" for ns using List [of s ns] by blast
  then obtain as where
    "store_List st (if TrimLower (hq_TeamID lmt) \<noteq> [] then [] else wl_Namespace (deref s a)) s = (Ok as, s)"
    by blast
  then show ?thesis by (simp add: quota_Enforce_def Some)
qed (simp add: quota_Enforce_def)

lemma Enforce_namespace:
  assumes "valid s" "namespace_quota e (wl_Namespace (deref s a)) lmt" "quota_Enforce lib e st a s = (None, s1)"
  obtains ids where "distinct ids" "set ids = in_namespace stored (wl_Namespace (deref s a)) s"
    "enforce_limit lib lmt (map (\<lambda>i. deref s (the (stored s i))) ids) (deref s a) = None"
proof -
  let ?ns = "wl_Namespace (deref s a)"
  have ns: "?ns \<noteq> []" using assms(2) by (auto simp: namespace_quota_def)
  then have "quota_limit e (deref s a) = Some lmt"
    using assms(2) by (simp add: quota_limit_def quota_for_def namespace_quota_def)
  moreover obtain ids where ids: "distinct ids"
      "set ids = {i. \<exists>a. stored s i = Some a \<and> (?ns = [] \<or> wl_Namespace (deref s a) = ?ns)}"
      "store_List st ?ns s = (Ok (map (\<lambda>i. the (stored s i)) ids), s)"
    using List [OF assms(1)] by blast
  ultimately have "enforce_limit lib lmt (map (\<lambda>i. deref s (the (stored s i))) ids) (deref s a) = None"
    using assms(2,3) by (auto simp: quota_Enforce_def namespace_quota_def comp_def)
  then show thesis using that ids(1,2) ns by (simp add: in_namespace_def)
qed

lemma Enforce_counts_namespace:
  assumes "valid s" "keyed stored s" "namespace_quota e (wl_Namespace (deref s a)) lmt"
    and "quota_Enforce lib e st a s = (None, s1)"
    and "0 < sint (hq_MaxWorkloads lmt)" "sint (hq_MaxWorkloads lmt) < 2 ^ 31 - 1"
    and "int (card (in_namespace stored (wl_Namespace (deref s a)) s)) \<le> sint (hq_MaxWorkloads lmt)"
  shows "int (card (insert (wl_ID (deref s a)) (in_namespace stored (wl_Namespace (deref s a)) s)))
    \<le> sint (hq_MaxWorkloads lmt)"
proof -
  let ?ns = "wl_Namespace (deref s a)"
  let ?id = "wl_ID (deref s a)"
  let ?obj = "\<lambda>i. deref s (the (stored s i))"
  obtain ids where ids: "distinct ids" "set ids = in_namespace stored ?ns s"
    "enforce_limit lib lmt (map ?obj ids) (deref s a) = None"
    by (rule Enforce_namespace [OF assms(1,3,4)])
  let ?ps = "quota_peers lmt (map ?obj ids) (deref s a)"
  have obj: "wl_Namespace (?obj i) = ?ns \<and> wl_ID (?obj i) = i" if "i \<in> set ids" for i
    using that ids(2) assms(2) by (auto simp: in_namespace_def keyed_def)
  have "filter (\<lambda>wi. matchesQuotaKey (deref s a) wi lmt) (map ?obj ids) = map ?obj ids"
    using obj assms(3) by (intro filter_True) (auto simp: matchesQuotaKey_def namespace_quota_def)
  then have "length ?ps = length (filter (\<lambda>i. \<not> (?id \<noteq> [] \<and> wl_ID (?obj i) = ?id)) ids)"
    by (simp add: quota_peers_def others_def filter_map comp_def)
  also have "\<dots> = card (set (filter (\<lambda>i. \<not> (?id \<noteq> [] \<and> wl_ID (?obj i) = ?id)) ids))"
    by (rule distinct_card [symmetric]) (simp add: ids(1))
  also have "card (set (filter (\<lambda>i. \<not> (?id \<noteq> [] \<and> wl_ID (?obj i) = ?id)) ids)) \<ge> card (set ids - {?id})"
    using obj by (intro card_mono) auto
  finally have lower: "card (set ids - {?id}) \<le> length ?ps" .
  have "length ?ps \<le> length ids"
    by (simp add: quota_peers_def others_def)
  also have "\<dots> = card (in_namespace stored ?ns s)" using distinct_card [OF ids(1)] ids(2) by simp
  finally have upper: "int (length ?ps) + 1 < 2 ^ 31" using assms(6,7) by linarith
  obtain cpu mem where "check_limits lib lmt cpu mem (int (length ?ps) + 1) (sum_list (map reps ?ps) + reps (deref s a)) = None"
    by (rule enforce_limit_None [OF ids(3)]) blast
  from check_limits_None(1) [OF this assms(5)] have "int (length ?ps) + 1 \<le> sint (hq_MaxWorkloads lmt)"
    using sint_small [of "int (length ?ps) + 1"] upper by simp
  moreover have "card (insert ?id (set ids)) = Suc (card (set ids - {?id}))" by (simp add: card.insert_remove)
  ultimately show ?thesis using lower by (simp add: ids(2))
qed

lemma quota_admit_keeps_limit:
  assumes "valid s" "keyed stored s" "namespace_quota e ns lmt"
    and "0 < sint (hq_MaxWorkloads lmt)" "sint (hq_MaxWorkloads lmt) < 2 ^ 31 - 1"
    and "int (card (in_namespace stored ns s)) \<le> sint (hq_MaxWorkloads lmt)"
  shows "int (card (in_namespace stored ns (quota_admit lib e st a s))) \<le> sint (hq_MaxWorkloads lmt)"
    and "valid (quota_admit lib e st a s)" "keyed stored (quota_admit lib e st a s)"
proof -
  obtain r where r: "quota_Enforce lib e st a s = (r, s)"
    using quota_Enforce_unchanged [OF assms(1), of lib e a] by (metis prod.collapse)
  show "valid (quota_admit lib e st a s)" "keyed stored (quota_admit lib e st a s)"
    using assms(1,2) by (auto simp: quota_admit_def r valid_Create keyed_Create split: option.split)
  let ?s = "snd (store_Create st a s)"
  show "int (card (in_namespace stored ns (quota_admit lib e st a s))) \<le> sint (hq_MaxWorkloads lmt)"
  proof (cases "r = None \<and> stored s (wl_ID (deref s a)) = None")
    case True
    have ns': "in_namespace stored ns ?s = (if wl_Namespace (deref s a) = ns
        then insert (wl_ID (deref s a)) (in_namespace stored ns s) else in_namespace stored ns s)"
      using True by (auto simp: in_namespace_def Create_stored store_frame_namespace [OF Create_frame])
    show ?thesis
    proof (cases "wl_Namespace (deref s a) = ns")
      case ns: True
      have "int (card (insert (wl_ID (deref s a)) (in_namespace stored (wl_Namespace (deref s a)) s)))
          \<le> sint (hq_MaxWorkloads lmt)"
        by (rule Enforce_counts_namespace [OF assms(1,2)]) (use assms r True ns in auto)
      then show ?thesis using True ns by (simp add: quota_admit_def r ns')
    qed (use True assms(6) in \<open>simp add: quota_admit_def r ns'\<close>)
  next
    case False
    then have "in_namespace stored ns (quota_admit lib e st a s) = in_namespace stored ns s"
      by (auto simp: in_namespace_def quota_admit_def r Create_stored store_frame_namespace [OF Create_frame]
          split: option.splits)
    then show ?thesis using assms(6) by simp
  qed
qed

lemma quota_admits_keep_limit:
  assumes "valid s" "keyed stored s" "namespace_quota e ns lmt"
    and "0 < sint (hq_MaxWorkloads lmt)" "sint (hq_MaxWorkloads lmt) < 2 ^ 31 - 1"
    and "int (card (in_namespace stored ns s)) \<le> sint (hq_MaxWorkloads lmt)"
  shows "int (card (in_namespace stored ns (fold (quota_admit lib e st) as s))) \<le> sint (hq_MaxWorkloads lmt)"
  using assms
proof (induction as arbitrary: s)
  case (Cons a as)
  note step = quota_admit_keeps_limit [OF Cons.prems, of lib a]
  show ?case using Cons.IH [OF step(2,3) Cons.prems(3-5) step(1)] by simp
qed simp

end


text \<open>
  The quota key is case-insensitive but the aggregation is not: when no stored workload has
  exactly the new workload's namespace, \<open>Enforce\<close> counts no peer at all, however many
  workloads are stored under the same namespace in another case or with blanks.
\<close>

theorem case_variant_namespaces_not_counted:
  assumes "mem_valid s" "namespace_quota e (wl_Namespace (deref s a)) lmt"
    and "\<And>i b. mem_stored s i = Some b \<Longrightarrow> wl_Namespace (deref s b) \<noteq> wl_Namespace (deref s a)"
  shows "quota_Enforce lib e (NewVersionedStore MemStore n) a s = (enforce_limit lib lmt [] (deref s a), s)"
proof -
  let ?ns = "wl_Namespace (deref s a)"
  have ns: "?ns \<noteq> []" using assms(2) by (auto simp: namespace_quota_def)
  obtain ids where "set ids = {i. \<exists>b. mem_stored s i = Some b \<and> (?ns = [] \<or> wl_Namespace (deref s b) = ?ns)}"
      "store_List (NewVersionedStore MemStore n) ?ns s = (Ok (map (\<lambda>i. the (mem_stored s i)) ids), s)"
    using vs.List [OF assms(1)] by blast
  moreover from this have "set ids = {}" using ns assms(3) by auto
  then have "ids = []" by simp
  moreover have "quota_limit e (deref s a) = Some lmt"
    using assms(2) ns by (simp add: quota_limit_def quota_for_def namespace_quota_def)
  ultimately show ?thesis using assms(2) by (simp add: quota_Enforce_def namespace_quota_def)
qed

lemma SetNamespaceQuota_quota:
  assumes "SetNamespaceQuota lmt e = (None, e')" "TrimLower (hq_TeamID lmt) = []" "TrimLower ns = TrimLower (hq_Namespace lmt)"
  shows "namespace_quota e' ns (lmt\<lparr>hq_Namespace := TrimLower (hq_Namespace lmt)\<rparr>)"
proof -
  have idem: "TrimLower (TrimLower x) = TrimLower x" for x by (simp add: TrimLower_def trim_space_to_lower)
  show ?thesis
    using assms by (auto simp: SetNamespaceQuota_def namespace_quota_def Let_def update_conv' idem split: if_splits)
qed

section \<open>Witnesses\<close>

definition int_quantities :: "int QuantityLib" where
  "int_quantities = \<lparr>ql_Zero = 0, ql_Parse = (\<lambda>s. Ok (int (length s))), ql_Add = (+), ql_Cmp = (-), ql_String = (\<lambda>_. [])\<rparr>"

definition demo_quota :: HardResourceQuota where
  "demo_quota = \<lparr>hq_Namespace = ''prod'', hq_TeamID = [], hq_MaxCPURequests = [], hq_MaxMemoryRequests = ''123'',
     hq_MaxWorkloads = 1, hq_MaxReplicasTotal = 5\<rparr>"

lemma TrimLower_prod: "TrimLower ''prod'' = ''prod''" "TrimLower ''Prod'' = ''prod''"
  by code_simp+

lemma mem_valid_demo [simp]: "mem_valid (demo_world h m) = wf_map m"
  by (simp add: mem_valid_def demo_world_def)

lemma demo_quota_namespace:
  "namespace_quota (quota_New [demo_quota]) ''prod'' demo_quota" "namespace_quota (quota_New [demo_quota]) ''Prod'' demo_quota"
  by (simp_all add: namespace_quota_def quota_New_def add_limit_def demo_quota_def TrimLower_prod Let_def)

lemma int_quantities_laws: "quantity_laws int_quantities of_int"
  by (simp add: quantity_laws_def int_quantities_def)

definition quota_workload :: "string \<Rightarrow> string \<Rightarrow> int32 \<Rightarrow> Workload" where
  "quota_workload i ns r = zero_workload\<lparr>wl_ID := i, wl_Namespace := ns, wl_Spec := zero_spec\<lparr>sp_Replicas := r\<rparr>\<rparr>"

lemma quota_workload_namespace: "wl_Namespace (quota_workload i ns r) = ns"
  by (simp add: quota_workload_def)

lemma demo_enforce: "enforce_limit int_quantities demo_quota [] (quota_workload i ns 2) = None"
  by (simp add: enforce_limit_def SumRequests_def check_limits_def over_cap_def demo_quota_def ParseCPU_def ParseMemory_def
        quota_workload_def zero_defs int_quantities_def)



theorem case_variant_namespaces_not_counted_witness:
  "fst (quota_Enforce int_quantities (quota_New [demo_quota]) (NewVersionedStore MemStore 5) 1
      (demo_world (\<lambda>a. quota_workload (if a = 0 then ''a'' else ''b'') (if a = 0 then ''prod'' else ''Prod'') 2) [(''a'', 0)])) = None"
  by (subst case_variant_namespaces_not_counted [where lmt = demo_quota])
     (simp_all add: wf_map_def demo_enforce quota_workload_namespace demo_quota_namespace split: if_splits)

end
