(* ===== verification/Scheduler.thy ===== *)
theory Scheduler
  imports World
begin

text \<open>
  \<open>internal/scheduler/\<close>: backend selection and cost-aware placement (\<open>scheduler.go\<close>),
  priority ranks (\<open>priority.go\<close>) and rolling restarts (\<open>restart.go\<close>). The cost provider
  and the node registry are interfaces; the two default implementations of the source are
  instances of their records. Costs are \<open>float64\<close>, compared with \<open>f64_lt\<close>, so a NaN cost
  is smaller than nothing. \<open>fmt.Sscanf(\<dots>, "%f", \<dots>)\<close> in \<open>parseCost\<close> is the parameter
  \<open>scan\<close>. A failed call is an error value; every driver call is recorded in \<open>wd_calls\<close>.

  The lemmas: the selected node is a cheapest affordable one and selection fails exactly
  when there is none; a second placement no longer sees the preferences; a workload is deployed
  on the driver of its backend exactly once or an error says why not; a restart bumps the
  generation once and falls back to a deploy.
\<close>

record ResourceCapacity =
  rc_CPU :: int
  rc_Memory :: int

record NodeInfo =
  ni_ID :: string
  ni_Region :: string
  ni_Zone :: string
  ni_CPU :: int
  ni_Memory :: int
  ni_Labels :: strmap
  ni_Capacity :: ResourceCapacity
  ni_HealthScore :: int
  ni_Architecture :: string
  ni_Draining :: bool
  ni_Unschedulable :: bool

record CostProvider =
  cp_GetNodeCost :: "string \<Rightarrow> (error, float64) result"
  cp_GetRegionCost :: "string \<Rightarrow> (error, float64) result"
  cp_GetZoneCost :: "string \<Rightarrow> string \<Rightarrow> (error, float64) result"

record NodeRegistry =
  reg_ListNodes :: "(error, NodeInfo list) result"
  reg_GetNodesByRegion :: "string \<Rightarrow> (error, NodeInfo list) result"
  reg_GetNodesByZone :: "string \<Rightarrow> string \<Rightarrow> (error, NodeInfo list) result"

type_synonym scan_float = "string \<Rightarrow> (error, float64) result"

record Scheduler =
  sd_runtimeDrivers :: "(string, RuntimeDriver) gomap"
  sd_costProvider :: CostProvider
  sd_nodeRegistry :: NodeRegistry
  sd_scan :: scan_float

definition scheduler_New :: "CostProvider \<Rightarrow> NodeRegistry \<Rightarrow> scan_float \<Rightarrow> Scheduler" where
  "scheduler_New cp nr scan =
     \<lparr>sd_runtimeDrivers = [], sd_costProvider = cp, sd_nodeRegistry = nr, sd_scan = scan\<rparr>"

definition RegisterDriver :: "RuntimeDriver \<Rightarrow> Scheduler \<Rightarrow> Scheduler" where
  "RegisterDriver d sd = sd\<lparr>sd_runtimeDrivers := AList.update (drv_Name d) d (sd_runtimeDrivers sd)\<rparr>"

definition GetDriver :: "Scheduler \<Rightarrow> string \<Rightarrow> RuntimeDriver option" where
  "GetDriver sd name = map_of (sd_runtimeDrivers sd) name"

definition scheduler_ListNodes :: "NodeRegistry option \<Rightarrow> (error, NodeInfo list) result" where
  "scheduler_ListNodes nr = (case nr of None \<Rightarrow> Ok [] | Some reg \<Rightarrow> reg_ListNodes reg)"

section \<open>Placement\<close>

definition normalizeArch :: "string \<Rightarrow> string" where
  "normalizeArch arch =
     (if arch = ''x86_64'' \<or> arch = ''x64'' then ''amd64'' else if arch = ''aarch64'' then ''arm64'' else arch)"

fun contains_string :: "string list \<Rightarrow> string \<Rightarrow> bool" where
  "contains_string [] item = False"
| "contains_string (s # items) item = (if s = item then True else contains_string items item)"

lemma contains_string_iff [simp]: "contains_string items item \<longleftrightarrow> item \<in> set items"
  by (induction items) auto

definition matchesNodeSelectors :: "NodeInfo \<Rightarrow> (string, string) gomap \<Rightarrow> bool" where
  "matchesNodeSelectors node selectors =
     (\<forall>(key, value) \<in> set selectors. gget (ni_Labels node) key = Some value)"

definition node_passes :: "SchedulingConfig \<Rightarrow> NodeInfo \<Rightarrow> bool" where
  \<comment> \<open>the body of the loop of \<open>filterNodes\<close>: false at each \<open>continue\<close>\<close>
  "node_passes sc node =
     (if sc_PreferredRegions sc \<noteq> [] \<and> \<not> contains_string (sc_PreferredRegions sc) (ni_Region node) then False
      else if sc_PreferredZones sc \<noteq> [] \<and> \<not> contains_string (sc_PreferredZones sc) (ni_Zone node) then False
      else if (case sc_NodeSelectors sc of None \<Rightarrow> False
               | Some sel \<Rightarrow> sel \<noteq> [] \<and> \<not> matchesNodeSelectors node sel) then False
      else if sc_AvoidDrainingNodes sc \<and> ni_Draining node then False
      else if sc_Architecture sc \<noteq> [] \<and> ni_Architecture node \<noteq> [] \<and>
              ni_Architecture node \<noteq> normalizeArch (sc_Architecture sc) then False
      else if sc_Architecture sc \<noteq> [] \<and> sget (ni_Labels node) ''kubernetes.io/arch'' \<noteq> [] \<and>
              sget (ni_Labels node) ''kubernetes.io/arch'' \<noteq> normalizeArch (sc_Architecture sc) then False
      else True)"

definition filterNodes :: "NodeInfo list \<Rightarrow> SchedulingConfig \<Rightarrow> NodeInfo list" where
  "filterNodes nodes sc = filter (node_passes sc) nodes"

definition parseCost :: "scan_float \<Rightarrow> string \<Rightarrow> (error, float64) result" where
  \<comment> \<open>\<open>fmt.Sscanf(costStr, "%f", &cost)\<close>\<close>
  "parseCost scan costStr = scan costStr"

definition over_max_cost :: "scan_float \<Rightarrow> SchedulingConfig \<Rightarrow> float64 \<Rightarrow> bool" where
  "over_max_cost scan sc cost =
     (if sc_MaxCostPerHour sc \<noteq> []
      then (case parseCost scan (sc_MaxCostPerHour sc) of Inl _ \<Rightarrow> False | Inr maxCost \<Rightarrow> f64_lt maxCost cost)
      else False)"

fun select_loop ::
  "CostProvider \<Rightarrow> scan_float \<Rightarrow> SchedulingConfig \<Rightarrow> NodeInfo list \<Rightarrow> float64 \<Rightarrow> NodeInfo option \<Rightarrow> NodeInfo option" where
  "select_loop cp scan sc [] minCost cheapest = cheapest"
| "select_loop cp scan sc (node # nodes) minCost cheapest =
     (case cp_GetNodeCost cp (ni_ID node) of
        Inl _ \<Rightarrow> select_loop cp scan sc nodes minCost cheapest
      | Inr cost \<Rightarrow>
          if over_max_cost scan sc cost then select_loop cp scan sc nodes minCost cheapest
          else if f64_lt minCost (Fin 0) \<or> f64_lt cost minCost
          then select_loop cp scan sc nodes cost (Some node)
          else select_loop cp scan sc nodes minCost cheapest)"

definition selectCheapestNode ::
  "CostProvider \<Rightarrow> scan_float \<Rightarrow> NodeInfo list \<Rightarrow> SchedulingConfig \<Rightarrow> (error, NodeInfo) result" where
  "selectCheapestNode cp scan nodes sc =
     (if nodes = [] then Err (Errorf ''no nodes available'' [])
      else case select_loop cp scan sc nodes (Fin (- 1)) None of
             None \<Rightarrow> Err (Errorf ''no suitable node found within cost constraints'' [])
           | Some node \<Rightarrow> Ok node)"

definition place :: "Scheduler \<Rightarrow> SchedulingConfig \<Rightarrow> (error, NodeInfo) result" where
  "place sd sc = (case reg_ListNodes (sd_nodeRegistry sd) of
     Inl err \<Rightarrow> Err (Wrapf ''failed to list nodes: %w'' [] err)
   | Inr nodes \<Rightarrow>
       let candidateNodes = (if filterNodes nodes sc = [] then nodes else filterNodes nodes sc)
       in case selectCheapestNode (sd_costProvider sd) (sd_scan sd) candidateNodes sc of
            Inl err \<Rightarrow> Err (Wrapf ''failed to select cheapest node: %w'' [] err)
          | Inr node \<Rightarrow> Ok node)"

definition pin_to_node :: "NodeInfo \<Rightarrow> SchedulingConfig \<Rightarrow> SchedulingConfig" where
  "pin_to_node node sc = sc\<lparr>sc_NodeSelectors := Some (AList.update ''kubernetes.io/hostname'' (ni_ID node)
     (case sc_NodeSelectors sc of None \<Rightarrow> [] | Some m \<Rightarrow> m))\<rparr>"

definition applyCostAwareScheduling :: "Scheduler \<Rightarrow> SchedulingConfig \<Rightarrow> addr \<Rightarrow> world \<Rightarrow> error option \<times> world" where
  "applyCostAwareScheduling sd sc a s = (case place sd sc of
     Inl err \<Rightarrow> (Some err, s)
   | Inr node \<Rightarrow>
       (None, modify a (\<lambda>w. w\<lparr>wl_Spec := (wl_Spec w)\<lparr>sp_Scheduling := Some (pin_to_node node sc)\<rparr>\<rparr>) s))"

definition cost_aware_step :: "Scheduler \<Rightarrow> addr \<Rightarrow> world \<Rightarrow> error option \<times> world" where
  "cost_aware_step sd a s = (case sp_Scheduling (wl_Spec (deref s a)) of
     Some sc \<Rightarrow> if sc_CostAware sc then applyCostAwareScheduling sd sc a s else (None, s)
   | None \<Rightarrow> (None, s))"

definition Schedule :: "Scheduler \<Rightarrow> addr \<Rightarrow> world \<Rightarrow> error option \<times> world" where
  "Schedule sd a s = (case GetDriver sd (sp_Backend (wl_Spec (deref s a))) of
     None \<Rightarrow> (Some (Errorf ''no runtime driver found for backend: %s'' [Str (sp_Backend (wl_Spec (deref s a)))]), s)
   | Some driver \<Rightarrow>
       (case cost_aware_step sd a s of
          (Some err, s1) \<Rightarrow> (Some (Wrapf ''cost-aware scheduling failed: %w'' [] err), s1)
        | (None, s1) \<Rightarrow>
            (case driver_Deploy driver a s1 of
               (Some err, s2) \<Rightarrow> (Some (Wrapf ''failed to deploy workload: %w'' [] err), s2)
             | (None, s2) \<Rightarrow> (None, s2))))"

section \<open>Priorities and restarts\<close>

definition WorkloadPriorityRank :: "string \<Rightarrow> int" where
  "WorkloadPriorityRank priority =
     (let p = to_lower (trim_space priority)
      in if p = WorkloadPriorityCritical \<or> p = ''crit'' then 1000
         else if p = WorkloadPriorityHigh then 750
         else if p = WorkloadPriorityLow then 250
         else 500)"

definition maxInt :: "int \<Rightarrow> int \<Rightarrow> int" where
  "maxInt a b = (if b < a then a else b)"

lemma maxInt_max [simp]: "maxInt a b = max a b"
  by (simp add: maxInt_def max_def)

definition WorkloadSchedulingRank :: "Workload \<Rightarrow> int" where
  "WorkloadSchedulingRank w = (case sp_Scheduling (wl_Spec w) of
     None \<Rightarrow> WorkloadPriorityRank []
   | Some sc \<Rightarrow>
       if sc_PriorityClassName sc \<noteq> [] then maxInt (WorkloadPriorityRank (sc_WorkloadPriority sc)) 750
       else WorkloadPriorityRank (sc_WorkloadPriority sc))"

definition restart_mark :: "gotime \<Rightarrow> Workload \<Rightarrow> Workload" where
  "restart_mark now w = w\<lparr>wl_Status := (wl_Status w)\<lparr>
     st_RestartGeneration := st_RestartGeneration (wl_Status w) + 1,
     st_LastTransition := now, st_Message := ''rolling restart triggered''\<rparr>\<rparr>"

definition RequestRollingRestart :: "Scheduler \<Rightarrow> addr \<Rightarrow> world \<Rightarrow> error option \<times> world" where
  "RequestRollingRestart sd a s = (case GetDriver sd (sp_Backend (wl_Spec (deref s a))) of
     None \<Rightarrow> (Some (Errorf ''no runtime driver found for backend: %s'' [Str (sp_Backend (wl_Spec (deref s a)))]), s)
   | Some driver \<Rightarrow>
       let (now, s1) = time_Now s;
           s2 = modify a (restart_mark now) s1
       in (case driver_Restart driver a s2 of
             (None, s3) \<Rightarrow> (None, s3)
           | (Some _, s3) \<Rightarrow>
               (case driver_Deploy driver a s3 of
                  (Some err, s4) \<Rightarrow> (Some (Wrapf ''rolling restart failed: %w'' [] err), s4)
                | (None, s4) \<Rightarrow> (None, s4))))"

section \<open>The default providers\<close>

definition ten_cents :: float64 where
  \<comment> \<open>the double nearest to 0.10\<close>
  "ten_cents = Fin (3602879701896397 / 36028797018963968)"

definition DefaultCostProvider :: CostProvider where
  "DefaultCostProvider = \<lparr>cp_GetNodeCost = (\<lambda>_. Ok ten_cents), cp_GetRegionCost = (\<lambda>_. Ok ten_cents),
     cp_GetZoneCost = (\<lambda>_ _. Ok ten_cents)\<rparr>"

definition default_nodes :: "NodeInfo list" where
  "default_nodes =
     [\<lparr>ni_ID = ''node-amd64-1'', ni_Region = ''us-east-1'', ni_Zone = ''us-east-1a'', ni_CPU = 4000, ni_Memory = 16384,
       ni_Labels = Some [(''kubernetes.io/arch'', ''amd64'')], ni_Capacity = \<lparr>rc_CPU = 4000, rc_Memory = 16384\<rparr>,
       ni_HealthScore = 95, ni_Architecture = ''amd64'', ni_Draining = False, ni_Unschedulable = False\<rparr>,
      \<lparr>ni_ID = ''node-arm64-1'', ni_Region = ''us-east-1'', ni_Zone = ''us-east-1b'', ni_CPU = 4000, ni_Memory = 16384,
       ni_Labels = Some [(''kubernetes.io/arch'', ''arm64'')], ni_Capacity = \<lparr>rc_CPU = 4000, rc_Memory = 16384\<rparr>,
       ni_HealthScore = 88, ni_Architecture = ''arm64'', ni_Draining = False, ni_Unschedulable = False\<rparr>,
      \<lparr>ni_ID = ''node-amd64-2'', ni_Region = ''us-west-2'', ni_Zone = ''us-west-2a'', ni_CPU = 4000, ni_Memory = 16384,
       ni_Labels = Some [(''kubernetes.io/arch'', ''amd64''), (''kranix.io/drain'', ''true'')],
       ni_Capacity = \<lparr>rc_CPU = 4000, rc_Memory = 16384\<rparr>,
       ni_HealthScore = 72, ni_Architecture = ''amd64'', ni_Draining = True, ni_Unschedulable = True\<rparr>]"

definition DefaultNodeRegistry :: NodeRegistry where
  "DefaultNodeRegistry = \<lparr>reg_ListNodes = Ok default_nodes,
     reg_GetNodesByRegion = (\<lambda>region. Ok (filter (\<lambda>n. ni_Region n = region) default_nodes)),
     reg_GetNodesByZone = (\<lambda>region zone. Ok (filter (\<lambda>n. ni_Region n = region \<and> ni_Zone n = zone) default_nodes))\<rparr>"

section \<open>Cheapest node\<close>

definition affordable :: "CostProvider \<Rightarrow> scan_float \<Rightarrow> SchedulingConfig \<Rightarrow> NodeInfo \<Rightarrow> rat \<Rightarrow> bool" where
  "affordable cp scan sc node c =
     (cp_GetNodeCost cp (ni_ID node) = Ok (Fin c) \<and> \<not> over_max_cost scan sc (Fin c))"

definition nonneg_costs :: "CostProvider \<Rightarrow> NodeInfo list \<Rightarrow> bool" where
  "nonneg_costs cp nodes = (\<forall>n \<in> set nodes. \<forall>cost. cp_GetNodeCost cp (ni_ID n) = Ok cost \<longrightarrow> (\<exists>c \<ge> 0. cost = Fin c))"

definition cost_floor :: "CostProvider \<Rightarrow> scan_float \<Rightarrow> SchedulingConfig \<Rightarrow> NodeInfo list \<Rightarrow> rat \<Rightarrow> bool" where
  "cost_floor cp scan sc nodes c = (\<forall>n \<in> set nodes. \<forall>c'. affordable cp scan sc n c' \<longrightarrow> c \<le> c')"

lemma affordable_unique: "affordable cp scan sc n c \<Longrightarrow> affordable cp scan sc n c' \<Longrightarrow> c' = c"
  by (simp add: affordable_def)

lemma cost_floor_Cons:
  "cost_floor cp scan sc (n # ns) c \<longleftrightarrow>
     cost_floor cp scan sc ns c \<and> (\<forall>c'. affordable cp scan sc n c' \<longrightarrow> c \<le> c')"
  by (auto simp: cost_floor_def)

lemma select_loop_skip:
  assumes "nonneg_costs cp (n # ns)" "\<And>c. \<not> affordable cp scan sc n c"
  shows "select_loop cp scan sc (n # ns) m best = select_loop cp scan sc ns m best"
proof (cases "cp_GetNodeCost cp (ni_ID n)")
  case (Inr cost)
  then obtain c where "cost = Fin c" using assms(1) by (auto simp: nonneg_costs_def)
  then show ?thesis using assms(2) [of c] Inr by (simp add: affordable_def)
qed simp

lemma select_loop_take:
  assumes "affordable cp scan sc n c"
  shows "select_loop cp scan sc (n # ns) (Fin m) best =
    (if m < 0 \<or> c < m then select_loop cp scan sc ns (Fin c) (Some n) else select_loop cp scan sc ns (Fin m) best)"
  using assms by (simp add: affordable_def)

declare select_loop.simps(2) [simp del]

lemma nonneg_costs_Cons: "nonneg_costs cp (n # ns) \<Longrightarrow> nonneg_costs cp ns"
  by (simp add: nonneg_costs_def)

lemma affordable_nonneg: "nonneg_costs cp nodes \<Longrightarrow> n \<in> set nodes \<Longrightarrow> affordable cp scan sc n c \<Longrightarrow> 0 \<le> c"
  by (auto simp: nonneg_costs_def affordable_def)

lemma select_loop_min:
  assumes "nonneg_costs cp nodes" "0 \<le> m"
  shows "\<exists>n c. select_loop cp scan sc nodes (Fin m) (Some best) = Some n \<and> c \<le> m \<and>
    (n = best \<and> c = m \<or> n \<in> set nodes \<and> affordable cp scan sc n c) \<and> cost_floor cp scan sc nodes c"
  using assms
proof (induction nodes arbitrary: m best)
  case Nil
  then show ?case by (auto simp: cost_floor_def)
next
  case (Cons n ns)
  note ns = nonneg_costs_Cons [OF Cons.prems(1)]
  show ?case
  proof (cases "\<exists>c. affordable cp scan sc n c")
    case True
    then obtain c where c: "affordable cp scan sc n c" by blast
    have "0 \<le> c" using affordable_nonneg [OF Cons.prems(1) _ c] by simp
    show ?thesis
    proof (cases "c < m")
      case True
      obtain n1 c1 where "select_loop cp scan sc ns (Fin c) (Some n) = Some n1" "c1 \<le> c"
        "n1 = n \<and> c1 = c \<or> n1 \<in> set ns \<and> affordable cp scan sc n1 c1" "cost_floor cp scan sc ns c1"
        using Cons.IH [OF ns \<open>0 \<le> c\<close>] by blast
      then show ?thesis
        using True c by (intro exI [of _ n1] exI [of _ c1]) (auto simp: select_loop_take [OF c] cost_floor_Cons dest: affordable_unique)
    next
      case False
      obtain n1 c1 where "select_loop cp scan sc ns (Fin m) (Some best) = Some n1" "c1 \<le> m"
        "n1 = best \<and> c1 = m \<or> n1 \<in> set ns \<and> affordable cp scan sc n1 c1" "cost_floor cp scan sc ns c1"
        using Cons.IH [OF ns Cons.prems(2)] by blast
      then show ?thesis
        using False Cons.prems(2) c
        by (intro exI [of _ n1] exI [of _ c1]) (auto simp: select_loop_take [OF c] cost_floor_Cons dest: affordable_unique [OF c])
    qed
  next
    case False
    then have "select_loop cp scan sc (n # ns) (Fin m) (Some best) = select_loop cp scan sc ns (Fin m) (Some best)"
      using Cons.prems(1) by (intro select_loop_skip) auto
    then show ?thesis using Cons.IH [OF ns Cons.prems(2), of best] False by (auto simp: cost_floor_Cons)
  qed
qed

lemma select_loop_result:
  assumes "nonneg_costs cp nodes"
  shows "(\<exists>n c. select_loop cp scan sc nodes (Fin (- 1)) None = Some n \<and> n \<in> set nodes \<and>
      affordable cp scan sc n c \<and> cost_floor cp scan sc nodes c) \<or>
    (select_loop cp scan sc nodes (Fin (- 1)) None = None \<and> (\<forall>n \<in> set nodes. \<forall>c. \<not> affordable cp scan sc n c))"
  using assms
proof (induction nodes)
  case (Cons n ns)
  note ns = nonneg_costs_Cons [OF Cons.prems]
  show ?case
  proof (cases "\<exists>c. affordable cp scan sc n c")
    case True
    then obtain c where c: "affordable cp scan sc n c" by blast
    have "0 \<le> c" using affordable_nonneg [OF Cons.prems _ c] by simp
    obtain n1 c1 where "select_loop cp scan sc ns (Fin c) (Some n) = Some n1" "c1 \<le> c"
      "n1 = n \<and> c1 = c \<or> n1 \<in> set ns \<and> affordable cp scan sc n1 c1" "cost_floor cp scan sc ns c1"
      using select_loop_min [OF ns \<open>0 \<le> c\<close>] by blast
    then show ?thesis
      using c by (intro disjI1 exI [of _ n1] exI [of _ c1])
         (auto simp: select_loop_take [OF c] cost_floor_Cons dest: affordable_unique [OF c])
  next
    case False
    then have "select_loop cp scan sc (n # ns) (Fin (- 1)) None = select_loop cp scan sc ns (Fin (- 1)) None"
      using Cons.prems by (intro select_loop_skip) auto
    then show ?thesis using Cons.IH [OF ns] False by (auto simp: cost_floor_Cons)
  qed
qed simp

text \<open>
  C18. Cost-aware selection is optimal: when node costs are finite and not negative, the selected
  node is one of the candidates, within the configured maximum cost, and no affordable
  candidate is cheaper; an error is returned exactly when no candidate is affordable.
\<close>

theorem cheapest_affordable_node_is_selected:
  assumes "nonneg_costs cp nodes"
  shows "case selectCheapestNode cp scan nodes sc of
      Inr n \<Rightarrow> \<exists>c. n \<in> set nodes \<and> affordable cp scan sc n c \<and> cost_floor cp scan sc nodes c
    | Inl e \<Rightarrow> (\<forall>n \<in> set nodes. \<forall>c. \<not> affordable cp scan sc n c)"
  using select_loop_result [OF assms, of scan sc] by (auto simp: selectCheapestNode_def)

lemma default_costs: "nonneg_costs DefaultCostProvider nodes"
  by (auto simp: nonneg_costs_def DefaultCostProvider_def ten_cents_def
      intro!: exI [of _ "3602879701896397 / 36028797018963968"])

definition plain_scheduling :: SchedulingConfig where
  "plain_scheduling = \<lparr>sc_CostAware = True, sc_PreferredRegions = [], sc_PreferredZones = [], sc_NodeSelectors = None,
     sc_Affinity = None, sc_Tolerations = [], sc_MaxCostPerHour = [], sc_WorkloadPriority = [],
     sc_PreemptionEnabled = False, sc_PriorityClassName = [], sc_Spot = None, sc_Architecture = ''x86_64'',
     sc_AvoidDrainingNodes = True\<rparr>"

theorem cheapest_affordable_node_is_selected_witness:
  "case selectCheapestNode DefaultCostProvider (\<lambda>_. Ok NaN) default_nodes plain_scheduling of
      Inr n \<Rightarrow> \<exists>c. n \<in> set default_nodes \<and> affordable DefaultCostProvider (\<lambda>_. Ok NaN) plain_scheduling n c \<and>
        cost_floor DefaultCostProvider (\<lambda>_. Ok NaN) plain_scheduling default_nodes c
    | Inl e \<Rightarrow> (\<forall>n \<in> set default_nodes. \<forall>c. \<not> affordable DefaultCostProvider (\<lambda>_. Ok NaN) plain_scheduling n c)"
  by (rule cheapest_affordable_node_is_selected [OF default_costs])

text \<open>
  The running minimum starts at -1 and any negative minimum counts as unset, so a node with a
  negative cost (a credit) is displaced by whatever affordable node comes next.
\<close>

lemma negative_cost_is_displaced:
  assumes "affordable cp scan sc n1 (- 5)" "affordable cp scan sc n2 3"
  shows "selectCheapestNode cp scan [n1, n2] sc = Ok n2"
  using assms by (simp add: selectCheapestNode_def select_loop_take)

section \<open>Deployment\<close>

lemma cost_aware_step_frame:
  "wd_calls (snd (cost_aware_step sd a s)) = wd_calls s" "wd_mem (snd (cost_aware_step sd a s)) = wd_mem s"
  "wd_fresh (snd (cost_aware_step sd a s)) = wd_fresh s" "wd_clock (snd (cost_aware_step sd a s)) = wd_clock s"
  "wd_log (snd (cost_aware_step sd a s)) = wd_log s" "wd_bus (snd (cost_aware_step sd a s)) = wd_bus s"
  "wd_ticks (snd (cost_aware_step sd a s)) = wd_ticks s" "wd_ids (snd (cost_aware_step sd a s)) = wd_ids s"
  by (auto simp: cost_aware_step_def applyCostAwareScheduling_def split: option.split sum.split)

definition rescheduled :: "Workload \<Rightarrow> SchedulingConfig option \<Rightarrow> Workload" where
  "rescheduled w sc = w\<lparr>wl_Spec := (wl_Spec w)\<lparr>sp_Scheduling := sc\<rparr>\<rparr>"

lemma rescheduled_id [simp]: "rescheduled w (sp_Scheduling (wl_Spec w)) = w"
  by (simp add: rescheduled_def)

lemma cost_aware_step_heap:
  "\<exists>sc. wd_heap (snd (cost_aware_step sd a s)) = (wd_heap s)(a := rescheduled (deref s a) sc)"
proof (cases "\<exists>node sc. sp_Scheduling (wl_Spec (deref s a)) = Some sc \<and> sc_CostAware sc \<and> place sd sc = Ok node")
  case True
  then obtain node sc where "sp_Scheduling (wl_Spec (deref s a)) = Some sc" "sc_CostAware sc" "place sd sc = Ok node"
    by blast
  then show ?thesis
    by (auto simp: cost_aware_step_def applyCostAwareScheduling_def rescheduled_def)
next
  case False
  then have "snd (cost_aware_step sd a s) = s"
    by (auto simp: cost_aware_step_def applyCostAwareScheduling_def split: option.split sum.split)
  then show ?thesis
    by (intro exI [of _ "sp_Scheduling (wl_Spec (deref s a))"]) simp
qed

lemma cost_aware_step_ok:
  assumes "cost_aware_step sd a s = (None, s1)" "sp_Scheduling (wl_Spec (deref s a)) = Some sc" "sc_CostAware sc"
  shows "\<exists>node. place sd sc = Ok node \<and> deref s1 a = rescheduled (deref s a) (Some (pin_to_node node sc))"
  using assms by (auto simp: cost_aware_step_def applyCostAwareScheduling_def rescheduled_def split: sum.splits)

definition pinned_to :: "string \<Rightarrow> Workload \<Rightarrow> bool" where
  "pinned_to host w = (case sp_Scheduling (wl_Spec w) of
     None \<Rightarrow> False | Some sc \<Rightarrow> gget (sc_NodeSelectors sc) ''kubernetes.io/hostname'' = Some host)"

definition placed :: "Scheduler \<Rightarrow> Workload \<Rightarrow> Workload \<Rightarrow> bool" where
  "placed sd w w' = (case sp_Scheduling (wl_Spec w) of
     None \<Rightarrow> w' = w
   | Some sc \<Rightarrow> if sc_CostAware sc then \<exists>node. place sd sc = Ok node \<and> pinned_to (ni_ID node) w' else w' = w)"

lemma pinned_pin_to_node: "pinned_to (ni_ID node) (rescheduled w (Some (pin_to_node node sc)))"
  by (simp add: pinned_to_def rescheduled_def pin_to_node_def gget_def update_conv' split: option.split)

lemma Schedule_cases:
  obtains (refused) e s1 where "Schedule sd a s = (Some e, s1)" "wd_calls s1 = wd_calls s"
  | (deployed) d s1 e where "GetDriver sd (sp_Backend (wl_Spec (deref s a))) = Some d"
      "cost_aware_step sd a s = (None, s1)" "Schedule sd a s = (e, call_driver d (CallDeploy (deref s1 a)) s1)"
      "e = None \<longleftrightarrow> drv_Deploy d (wd_calls s) (deref s1 a) = None"
proof (cases "GetDriver sd (sp_Backend (wl_Spec (deref s a)))")
  case None
  then show thesis using refused by (simp add: Schedule_def)
next
  case (Some d)
  obtain e1 s1 where st: "cost_aware_step sd a s = (e1, s1)" by (cases "cost_aware_step sd a s")
  have calls: "wd_calls s1 = wd_calls s" using cost_aware_step_frame(1) [of sd a s] st by simp
  show thesis
  proof (cases e1)
    case None
    then show thesis using deployed Some st calls
      by (cases "drv_Deploy d (wd_calls s) (deref s1 a)") (auto simp: Schedule_def driver_Deploy_def)
  next
    case (Some e)
    then show thesis using refused \<open>GetDriver sd (sp_Backend (wl_Spec (deref s a))) = Some d\<close> st calls
      by (simp add: Schedule_def)
  qed
qed

lemma Schedule_heap:
  "\<exists>sc. wd_heap (snd (Schedule sd a s)) = (wd_heap s)(a := rescheduled (deref s a) sc)"
proof (cases "GetDriver sd (sp_Backend (wl_Spec (deref s a)))")
  case None
  then show ?thesis by (intro exI [of _ "sp_Scheduling (wl_Spec (deref s a))"]) (simp add: Schedule_def)
next
  case (Some d)
  then have "wd_heap (snd (Schedule sd a s)) = wd_heap (snd (cost_aware_step sd a s))"
    by (auto simp: Schedule_def driver_Deploy_def split: prod.split option.split)
  then show ?thesis using cost_aware_step_heap [of sd a s] by simp
qed

lemma Schedule_result_heap:
  assumes "cost_aware_step sd a s = (None, s1)"
  shows "placed sd (deref s a) (deref s1 a)"
proof (cases "\<exists>sc. sp_Scheduling (wl_Spec (deref s a)) = Some sc \<and> sc_CostAware sc")
  case True
  then show ?thesis using cost_aware_step_ok [OF assms] pinned_pin_to_node by (force simp: placed_def)
next
  case False
  then show ?thesis using assms by (auto simp: placed_def cost_aware_step_def split: option.splits)
qed

text \<open>
  \<open>Schedule\<close> touches the runtime at most once: either it fails without any driver call, or
  it makes exactly one \<open>Deploy\<close> call, on the driver registered for the workload's backend and
  with the workload as it is stored afterwards, and succeeds exactly when the driver does. A
  cost-aware workload is deployed pinned to the node that placement chose, and apart from
  the scheduling section nothing of any workload changes.
\<close>

theorem schedule_deploys_at_most_once:
  "case Schedule sd a s of (e, s') \<Rightarrow>
     (\<exists>sc. wd_heap s' = (wd_heap s)(a := rescheduled (deref s a) sc)) \<and>
     (e \<noteq> None \<and> wd_calls s' = wd_calls s \<or>
      (\<exists>d. GetDriver sd (sp_Backend (wl_Spec (deref s a))) = Some d \<and>
         wd_calls s' = wd_calls s @ [(drv_Name d, CallDeploy (deref s' a))] \<and>
         (e = None \<longleftrightarrow> drv_Deploy d (wd_calls s) (deref s' a) = None) \<and>
         placed sd (deref s a) (deref s' a)))"
proof (cases rule: Schedule_cases [of sd a s])
  case (refused e s1)
  then show ?thesis using Schedule_heap [of sd a s] by auto
next
  case (deployed d s1 e)
  moreover have "wd_calls s1 = wd_calls s" using cost_aware_step_frame(1) [of sd a s] deployed(2) by simp
  ultimately show ?thesis using Schedule_heap [of sd a s] Schedule_result_heap [OF deployed(2)] by simp
qed

text \<open>
  A placement is forgotten by the next one: it is recorded as a selector on the label
  \<open>kubernetes.io/hostname\<close>, so unless the registry labels its nodes with it, no node passes the
  filter on the next pass and every node becomes a candidate, whatever regions, zones,
  architecture or draining preferences the workload states.
\<close>

lemma select_loop_pin [simp]: "select_loop cp scan (pin_to_node node sc) nodes m best = select_loop cp scan sc nodes m best"
  by (induction nodes arbitrary: m best)
    (simp_all add: select_loop.simps over_max_cost_def pin_to_node_def split: sum.split)

lemma filterNodes_pin:
  assumes "\<forall>n \<in> set nodes. gget (ni_Labels n) ''kubernetes.io/hostname'' = None"
  shows "filterNodes nodes (pin_to_node node sc) = []"
proof -
  have "\<not> matchesNodeSelectors n (AList.update ''kubernetes.io/hostname'' host al)" if "n \<in> set nodes" for n host al
  proof -
    have "(''kubernetes.io/hostname'', host) \<in> set (AList.update ''kubernetes.io/hostname'' host al)"
      by (rule map_of_SomeD) (simp add: update_conv')
    then show ?thesis using assms that by (force simp: matchesNodeSelectors_def)
  qed
  then show ?thesis
    by (auto simp: filterNodes_def filter_empty_conv node_passes_def pin_to_node_def)
qed

theorem repeated_placement_ignores_preferences:
  assumes "reg_ListNodes (sd_nodeRegistry sd) = Ok nodes"
    and "\<forall>n \<in> set nodes. gget (ni_Labels n) ''kubernetes.io/hostname'' = None"
  shows "place sd (pin_to_node node sc) =
    (case selectCheapestNode (sd_costProvider sd) (sd_scan sd) nodes sc of
       Inl err \<Rightarrow> Err (Wrapf ''failed to select cheapest node: %w'' [] err) | Inr n \<Rightarrow> Ok n)"
  using assms filterNodes_pin [OF assms(2)] by (simp add: place_def selectCheapestNode_def)

theorem repeated_placement_ignores_preferences_witness:
  "place (scheduler_New DefaultCostProvider DefaultNodeRegistry (\<lambda>_. Ok NaN)) (pin_to_node (default_nodes ! 1) plain_scheduling) =
    (case selectCheapestNode DefaultCostProvider (\<lambda>_. Ok NaN) default_nodes plain_scheduling of
       Inl err \<Rightarrow> Err (Wrapf ''failed to select cheapest node: %w'' [] err) | Inr n \<Rightarrow> Ok n)"
  using repeated_placement_ignores_preferences
    [of "scheduler_New DefaultCostProvider DefaultNodeRegistry (\<lambda>_. Ok NaN)" default_nodes "default_nodes ! 1" plain_scheduling]
  by (simp add: scheduler_New_def DefaultNodeRegistry_def default_nodes_def)

section \<open>Rolling restarts\<close>

text \<open>
  A rolling restart with a registered driver always counts one restart generation (in
  32-bit arithmetic) and asks the driver of the workload's backend to restart it; only if
  that fails it redeploys it, on the same driver, and the request fails exactly when both
  calls do. Without a driver nothing changes.
\<close>

theorem rolling_restart_falls_back_to_deploy:
  "case RequestRollingRestart sd a s of (e, s') \<Rightarrow>
     (case GetDriver sd (sp_Backend (wl_Spec (deref s a))) of
        None \<Rightarrow> e \<noteq> None \<and> s' = s
      | Some d \<Rightarrow>
          let w = restart_mark (wd_clock s (wd_ticks s)) (deref s a);
              restart = (drv_Name d, CallRestart w); deploy = (drv_Name d, CallDeploy w);
              failed = drv_Restart d (wd_calls s) w \<noteq> None
          in wd_heap s' = (wd_heap s)(a := w) \<and>
             st_RestartGeneration (wl_Status w) = st_RestartGeneration (wl_Status (deref s a)) + 1 \<and>
             wd_calls s' = wd_calls s @ (if failed then [restart, deploy] else [restart]) \<and>
             (e \<noteq> None \<longleftrightarrow> failed \<and> drv_Deploy d (wd_calls s @ [restart]) w \<noteq> None))"
  by (auto simp: RequestRollingRestart_def driver_Restart_def driver_Deploy_def Let_def split_beta restart_mark_def
      split: option.split)

end
