(* ===== verification/WarmStandby.thy ===== *)
theory WarmStandby
  imports CircuitBreaker StateStore
begin

text \<open>
  \<open>internal/warmstandby/manager.go\<close>: cold standby workloads and their promotion. The
  manager works on any store, so its lemmas are proved in the context of the store
  contract and instantiated on the versioned in-memory store.

  The lemmas: \<open>EnsureColdStandby\<close> leaves a linked standby at zero replicas and touches no
  other workload; \<open>Promote\<close> scales it to the size of the primary; ensuring a standby again
  scales a promoted one back to zero.
\<close>

section \<open>Manager\<close>

abbreviation LabelStandbyFor :: string where
  "LabelStandbyFor \<equiv> ''kranix.io/standby-for''"

abbreviation LabelRole :: string where
  "LabelRole \<equiv> ''kranix.io/role''"

abbreviation RoleStandby :: string where
  "RoleStandby \<equiv> ''standby''"

record StandbyConfig =
  sbc_Enabled :: bool
  sbc_DefaultStandbyReplicas :: int32
  sbc_DefaultAutoPromote :: bool

record StandbyManager =
  sbm_cfg :: StandbyConfig
  sbm_circuits :: "CircuitConfig option"

definition standby_New :: "StandbyConfig \<Rightarrow> CircuitConfig option \<Rightarrow> StandbyManager" where
  "standby_New cfg circuits =
     \<lparr>sbm_cfg = cfg\<lparr>sbc_DefaultStandbyReplicas := positive_or (sbc_DefaultStandbyReplicas cfg) 1\<rparr>,
      sbm_circuits = circuits\<rparr>"

definition IsStandbyWorkload :: "Workload \<Rightarrow> bool" where
  "IsStandbyWorkload w = (sget (wl_Labels w) LabelRole = RoleStandby)"

definition standby_EnabledFor :: "StandbyManager \<Rightarrow> Workload \<Rightarrow> bool" where
  "standby_EnabledFor m w =
     (if IsStandbyWorkload w then False
      else if (case sp_WarmStandby (wl_Spec w) of None \<Rightarrow> False | Some ws \<Rightarrow> ws_Enabled ws) then True
      else sbc_Enabled (sbm_cfg m))"

definition cloneSpecForStandby :: "Workload \<Rightarrow> int32 \<Rightarrow> WorkloadSpec" where
  "cloneSpecForStandby primary replicas = (wl_Spec primary)\<lparr>sp_Replicas := replicas, sp_CronSchedule := None,
     sp_WarmStandby := None, sp_CircuitBreaker := None\<rparr>"

definition standby_labels :: "Workload \<Rightarrow> (string, string) gomap" where
  "standby_labels primary =
     fold (\<lambda>(k, v). AList.update k v) (case wl_Labels primary of None \<Rightarrow> [] | Some m \<Rightarrow> m)
       [(LabelStandbyFor, wl_ID primary), (LabelRole, RoleStandby)]"

definition newStandbyWorkload :: "Workload \<Rightarrow> string \<Rightarrow> gotime \<Rightarrow> Workload" where
  "newStandbyWorkload primary i now = zero_workload\<lparr>wl_ID := i, wl_Name := wl_Name primary @ ''-standby'',
     wl_Namespace := wl_Namespace primary, wl_Labels := Some (standby_labels primary), wl_Tags := wl_Tags primary,
     wl_CreatedAt := now, wl_UpdatedAt := now, wl_Spec := cloneSpecForStandby primary 0,
     wl_Status := zero_status\<lparr>st_Phase := WorkloadPhasePending, st_Replicas := 0, st_LastTransition := now\<rparr>\<rparr>"

definition standbyIDFor :: "Workload \<Rightarrow> string" where
  "standbyIDFor primary =
     (let linked = (case st_WarmStandby (wl_Status primary) of None \<Rightarrow> [] | Some st \<Rightarrow> wss_StandbyWorkloadID st);
          wanted = (case sp_WarmStandby (wl_Spec primary) of None \<Rightarrow> [] | Some ws \<Rightarrow> ws_StandbyWorkloadID ws)
      in if linked \<noteq> [] then linked else if wanted \<noteq> [] then wanted else wl_ID primary @ ''-standby'')"

definition standbyReplicas :: "Workload \<Rightarrow> int32" where
  "standbyReplicas primary = (case sp_WarmStandby (wl_Spec primary) of
     None \<Rightarrow> 1
   | Some ws \<Rightarrow> if sint (ws_Replicas ws) > 0 then ws_Replicas ws else 1)"

definition cold_standby_id :: "Workload \<Rightarrow> string" where
  \<comment> \<open>the id \<open>EnsureColdStandby\<close> works with\<close>
  "cold_standby_id primary =
     (let i = trim_space (case sp_WarmStandby (wl_Spec primary) of None \<Rightarrow> [] | Some ws \<Rightarrow> ws_StandbyWorkloadID ws)
      in if i = [] then wl_ID primary @ ''-standby'' else i)"

definition set_standby_status :: "(WarmStandbyStatus \<Rightarrow> WarmStandbyStatus) \<Rightarrow> Workload \<Rightarrow> Workload" where
  "set_standby_status f w = w\<lparr>wl_Status := (wl_Status w)\<lparr>st_WarmStandby :=
     Some (f (case st_WarmStandby (wl_Status w) of None \<Rightarrow> zero_standby_status | Some st \<Rightarrow> st))\<rparr>\<rparr>"

definition mark_cold :: "string \<Rightarrow> WarmStandbyStatus \<Rightarrow> WarmStandbyStatus" where
  "mark_cold i st = st\<lparr>wss_StandbyWorkloadID := i, wss_Phase := WarmStandbyPhaseCold, wss_ReadyReplicas := 0,
     wss_Message := ''cold standby ready''\<rparr>"

definition mark_promoted :: "gotime \<Rightarrow> WarmStandbyStatus \<Rightarrow> WarmStandbyStatus" where
  "mark_promoted now st = st\<lparr>wss_Phase := WarmStandbyPhasePromoted, wss_LastFailover := Some now,
     wss_Message := ''failover promoted to standby''\<rparr>"

definition cool_down :: "Workload \<Rightarrow> gotime \<Rightarrow> Workload \<Rightarrow> Workload" where
  "cool_down primary now w = w\<lparr>wl_Spec := cloneSpecForStandby primary 0, wl_Namespace := wl_Namespace primary,
     wl_Name := wl_Name primary @ ''-standby'', wl_UpdatedAt := now\<rparr>"

definition provision_standby :: "Store \<Rightarrow> addr \<Rightarrow> string \<Rightarrow> world \<Rightarrow> error option \<times> world" where
  "provision_standby st a standbyID s = (case store_Get st standbyID s of
     (Inr (Some b), s1) \<Rightarrow>
       let primary = deref s1 a;
           (now, s2) = time_Now s1;
           s3 = modify b tags_Apply (modify b (cool_down primary now) s2)
       in (case store_Update st b s3 of
             (Some err, s4) \<Rightarrow> (Some (Wrapf ''update standby workload: %w'' [] err), s4)
           | (None, s4) \<Rightarrow> (None, s4))
   | (_, s1) \<Rightarrow>
       let primary = deref s1 a;
           (now, s2) = time_Now s1;
           (b, s3) = alloc (newStandbyWorkload primary standbyID now) s2;
           s4 = modify b tags_Apply s3
       in (case store_Create st b s4 of
             (Some err, s5) \<Rightarrow> (Some (Wrapf ''create standby workload: %w'' [] err), s5)
           | (None, s5) \<Rightarrow> (None, s5)))"

definition EnsureColdStandby :: "StandbyManager \<Rightarrow> Store \<Rightarrow> addr \<Rightarrow> world \<Rightarrow> error option \<times> world" where
  "EnsureColdStandby m st a s =
     (if \<not> standby_EnabledFor m (deref s a) then (None, s)
      else
        let standbyID = cold_standby_id (deref s a)
        in case provision_standby st a standbyID s of
             (Some err, s1) \<Rightarrow> (Some err, s1)
           | (None, s1) \<Rightarrow> store_Update st a (modify a (set_standby_status (mark_cold standbyID)) s1))"

definition promoted_replicas :: "Workload \<Rightarrow> int32" where
  "promoted_replicas primary =
     (let replicas = sp_Replicas (wl_Spec primary); r = standbyReplicas primary
      in if sint r > 0 \<and> sint replicas < sint r then r else replicas)"

definition heat_up :: "Workload \<Rightarrow> gotime \<Rightarrow> Workload \<Rightarrow> Workload" where
  "heat_up primary now w = w\<lparr>wl_Spec := cloneSpecForStandby primary (promoted_replicas primary),
     wl_Status := (wl_Status w)\<lparr>st_Phase := WorkloadPhasePending\<rparr>, wl_UpdatedAt := now\<rparr>"

definition Promote :: "StandbyManager \<Rightarrow> Store \<Rightarrow> addr \<Rightarrow> world \<Rightarrow> (error, addr) result \<times> world" where
  "Promote m st a s =
     (if \<not> standby_EnabledFor m (deref s a) then (Err (Errorf ''warm standby not enabled'' []), s)
      else
        let standbyID = standbyIDFor (deref s a)
        in if standbyID = [] then (Err (Errorf ''no standby workload linked'' []), s)
           else
             (case store_Get st standbyID s of
                (Inr (Some b), s1) \<Rightarrow>
                  let primary = deref s1 a;
                      (now, s2) = time_Now s1;
                      s3 = modify b tags_Apply (modify b (heat_up primary now) s2)
                  in (case store_Update st b s3 of
                        (Some err, s4) \<Rightarrow> (Err err, s4)
                      | (None, s4) \<Rightarrow>
                          let (now2, s5) = time_Now s4;
                              s6 = modify a (set_standby_status (mark_promoted now2)) s5
                          in (Ok b, snd (store_Update st a s6)))
              | (_, s1) \<Rightarrow> (Err (Errorf ''standby workload %s not found'' [Str standbyID]), s1)))"

definition ShouldAutoPromote :: "StandbyManager \<Rightarrow> Workload \<Rightarrow> gotime \<Rightarrow> Workload \<times> bool" where
  \<comment> \<open>the workload comes back with the circuit status the call may have set\<close>
  "ShouldAutoPromote m w now =
     (if \<not> standby_EnabledFor m w then (w, False)
      else if \<not> (sbc_DefaultAutoPromote (sbm_cfg m) \<or>
                 (case sp_WarmStandby (wl_Spec w) of None \<Rightarrow> False | Some ws \<Rightarrow> ws_AutoPromote ws)) then (w, False)
      else
        let by_phase = (w, phase w = WorkloadPhaseDegraded \<or> phase w = WorkloadPhaseFailed)
        in case sbm_circuits m of
             None \<Rightarrow> by_phase
           | Some e \<Rightarrow>
               if \<not> circuit_EnabledFor e (Some w) then by_phase
               else
                 let w' = (if st_CircuitBreaker (wl_Status w) = None then fst (SyncFromWorkload e w now) else w)
                 in (w', case st_CircuitBreaker (wl_Status w') of
                           None \<Rightarrow> False | Some st \<Rightarrow> cbs_State st = CircuitStateOpen))"

section \<open>Lemmas on every store\<close>

definition allocated :: "(world \<Rightarrow> string \<Rightarrow> addr option) \<Rightarrow> world \<Rightarrow> bool" where
  "allocated stored s = (\<forall>i a. stored s i = Some a \<longrightarrow> a < wd_fresh s)"

lemma core_standby_status: "core_of (set_standby_status f w) = set_standby_status f (core_of w)"
  by (simp add: core_of_def set_standby_status_def)

context workload_store
begin

lemma stored_frames [simp]:
  "stored (modify a f s) = stored s" "stored (assign a w s) = stored s" "stored (snd (time_Now s)) = stored s"
  "stored (snd (alloc w s)) = stored s" "stored (publish ev s) = stored s" "stored (call_driver d c s) = stored s"
  by (rule stored_mem, simp)+

lemma provision_standby_ok:
  assumes "keyed stored s" "allocated stored s" "stored s (wl_ID (deref s a)) = Some a" "sid \<noteq> wl_ID (deref s a)"
  obtains b s' where "provision_standby st a sid s = (None, s')" "stored s' = (stored s)(sid \<mapsto> b)" "b \<noteq> a"
    "wl_ID (deref s' b) = sid" "wl_Spec (deref s' b) = cloneSpecForStandby (deref s a) 0"
    "\<And>c. c \<noteq> b \<Longrightarrow> core_of (deref s' c) = core_of (deref s c)" "wd_calls s' = wd_calls s"
proof (cases "stored s sid")
  case None
  let ?s = "modify (wd_fresh s) tags_Apply (snd (alloc (newStandbyWorkload (deref s a) sid (wd_clock s (wd_ticks s))) (snd (time_Now s))))"
  obtain s' where s': "store_Create st (wd_fresh s) ?s = (None, s')" "stored s' = (stored s)(sid \<mapsto> wd_fresh s)"
    "store_frame ?s s'"
    using Create_new [of ?s "wd_fresh s"] None by (auto simp: newStandbyWorkload_def)
  show thesis
  proof
    show "provision_standby st a sid s = (None, s')"
      using None s'(1) by (simp add: provision_standby_def Get split_beta Let_def)
    show "wd_fresh s \<noteq> a" using assms by (auto simp: allocated_def)
    show "wl_ID (deref s' (wd_fresh s)) = sid" "wl_Spec (deref s' (wd_fresh s)) = cloneSpecForStandby (deref s a) 0"
      using store_frame_id [OF s'(3)] store_frame_spec [OF s'(3)] by (simp_all add: newStandbyWorkload_def)
    show "core_of (deref s' c) = core_of (deref s c)" if "c \<noteq> wd_fresh s" for c
      using store_frame_core [OF s'(3), of c] that by simp
    show "wd_calls s' = wd_calls s" using s'(3) by (simp add: store_frame_def)
  qed (rule s')
next
  case (Some b)
  let ?s = "modify b tags_Apply (modify b (cool_down (deref s a) (wd_clock s (wd_ticks s))) (snd (time_Now s)))"
  have b: "wl_ID (deref s b) = sid" using assms(1) Some by (simp add: keyed_def)
  then have id: "wl_ID (deref ?s b) = sid" by (simp add: cool_down_def)
  obtain s' where s': "store_Update st b ?s = (None, s')" "stored s' = (stored s)(sid \<mapsto> b)" "store_frame ?s s'"
    using Update_known [of ?s b b] Some id by auto
  show thesis
  proof
    show "provision_standby st a sid s = (None, s')"
      using Some s'(1) by (simp add: provision_standby_def Get split_beta Let_def)
    show "b \<noteq> a" using assms(4) b by auto
    show "wl_ID (deref s' b) = sid" "wl_Spec (deref s' b) = cloneSpecForStandby (deref s a) 0"
      using store_frame_id [OF s'(3), of b] store_frame_spec [OF s'(3), of b] id by (simp_all add: cool_down_def)
    show "core_of (deref s' c) = core_of (deref s c)" if "c \<noteq> b" for c
      using store_frame_core [OF s'(3), of c] that by simp
    show "wd_calls s' = wd_calls s" using s'(3) by (simp add: store_frame_def)
  qed (rule s')
qed

lemma EnsureColdStandby_ok:
  assumes "keyed stored s" "allocated stored s" "stored s (wl_ID (deref s a)) = Some a"
    and "standby_EnabledFor m (deref s a)" "cold_standby_id (deref s a) = sid" "sid \<noteq> wl_ID (deref s a)"
  obtains b s' where "EnsureColdStandby m st a s = (None, s')" "stored s' = (stored s)(sid \<mapsto> b)" "b \<noteq> a"
    "wl_ID (deref s' b) = sid" "wl_Spec (deref s' b) = cloneSpecForStandby (deref s a) 0"
    "core_of (deref s' a) = core_of (set_standby_status (mark_cold sid) (deref s a))"
    "\<And>c. c \<noteq> a \<Longrightarrow> c \<noteq> b \<Longrightarrow> core_of (deref s' c) = core_of (deref s c)" "wd_calls s' = wd_calls s"
proof -
  obtain b s1 where p: "provision_standby st a sid s = (None, s1)" "stored s1 = (stored s)(sid \<mapsto> b)" "b \<noteq> a"
    "wl_ID (deref s1 b) = sid" "wl_Spec (deref s1 b) = cloneSpecForStandby (deref s a) 0"
    "\<And>c. c \<noteq> b \<Longrightarrow> core_of (deref s1 c) = core_of (deref s c)" "wd_calls s1 = wd_calls s"
    using provision_standby_ok [OF assms(1-3) assms(6)] by blast
  let ?s = "modify a (set_standby_status (mark_cold sid)) s1"
  have a: "core_of (deref s1 a) = core_of (deref s a)" using p(3,6) by metis
  have ida: "wl_ID (deref ?s a) = wl_ID (deref s a)" using core_of_eqD(1) [OF a] by (simp add: set_standby_status_def)
  have "stored ?s (wl_ID (deref ?s a)) = Some a" unfolding ida using p(2) assms(3,6) by simp
  from Update_known [OF this] obtain s' where s': "store_Update st a ?s = (None, s')" "stored s' = (stored ?s)(wl_ID (deref ?s a) \<mapsto> a)" "store_frame ?s s'"
    by blast
  show thesis
  proof (rule that [of s' b])
    show "EnsureColdStandby m st a s = (None, s')"
      using assms(4,5) p(1) s'(1) by (simp add: EnsureColdStandby_def)
    show "stored s' = (stored s)(sid \<mapsto> b)"
      using s'(2) p(2) ida assms(3,6) by (simp add: fun_upd_twist fun_upd_idem)
    show "wl_ID (deref s' b) = sid" "wl_Spec (deref s' b) = cloneSpecForStandby (deref s a) 0"
      using store_frame_id [OF s'(3), of b] store_frame_spec [OF s'(3), of b] p(3-5) by simp_all
    show "core_of (deref s' a) = core_of (set_standby_status (mark_cold sid) (deref s a))"
      using store_frame_core [OF s'(3), of a] a by (simp add: core_standby_status)
    show "core_of (deref s' c) = core_of (deref s c)" if "c \<noteq> a" "c \<noteq> b" for c
      using store_frame_core [OF s'(3), of c] p(6) [OF that(2)] that(1) by simp
    show "wd_calls s' = wd_calls s" using s'(3) p(7) by (simp add: store_frame_def)
  qed (rule p)
qed

lemma Promote_missing:
  "stored s (standbyIDFor (deref s a)) = None \<Longrightarrow> standby_EnabledFor m (deref s a) \<Longrightarrow>
   \<exists>e. Promote m st a s = (Err e, s)"
  by (simp add: Promote_def Get Let_def)

lemma Promote_ok:
  assumes "keyed stored s" "stored s (wl_ID (deref s a)) = Some a" "standby_EnabledFor m (deref s a)"
    and "stored s (standbyIDFor (deref s a)) = Some b" "b \<noteq> a" "standbyIDFor (deref s a) \<noteq> []"
  obtains s' now where "Promote m st a s = (Ok b, s')" "stored s' = stored s"
    "wl_Spec (deref s' b) = cloneSpecForStandby (deref s a) (promoted_replicas (deref s a))"
    "phase (deref s' b) = WorkloadPhasePending"
    "core_of (deref s' a) = core_of (set_standby_status (mark_promoted now) (deref s a))"
    "\<And>c. c \<noteq> a \<Longrightarrow> c \<noteq> b \<Longrightarrow> core_of (deref s' c) = core_of (deref s c)" "wd_calls s' = wd_calls s"
    "wd_fresh s' = wd_fresh s" "wl_ID (deref s' b) = wl_ID (deref s b)"
proof -
  let ?s3 = "modify b tags_Apply (modify b (heat_up (deref s a) (wd_clock s (wd_ticks s))) (snd (time_Now s)))"
  have b: "wl_ID (deref s b) = standbyIDFor (deref s a)" using assms(1,4) by (simp add: keyed_def)
  then have id: "wl_ID (deref ?s3 b) = standbyIDFor (deref s a)" by (simp add: heat_up_def)
  then obtain s4 where s4: "store_Update st b ?s3 = (None, s4)" "stored s4 = stored s" "store_frame ?s3 s4"
    using Update_known [of ?s3 b b] assms(4) by (auto simp: fun_upd_idem)
  let ?now = "wd_clock s4 (wd_ticks s4)"
  let ?s6 = "modify a (set_standby_status (mark_promoted ?now)) (snd (time_Now s4))"
  have a: "core_of (deref s4 a) = core_of (deref s a)" using store_frame_core [OF s4(3), of a] assms(5) by simp
  have ida: "wl_ID (deref ?s6 a) = wl_ID (deref s a)" using core_of_eqD(1) [OF a] by (simp add: set_standby_status_def)
  have known: "stored ?s6 (wl_ID (deref ?s6 a)) = Some a" unfolding ida using s4(2) assms(2) by simp
  then have same: "(stored ?s6)(wl_ID (deref ?s6 a) \<mapsto> a) = stored s" using s4(2) by (simp add: fun_upd_idem)
  from Update_known [OF known] obtain s' where s': "store_Update st a ?s6 = (None, s')" "stored s' = stored s" "store_frame ?s6 s'"
    unfolding same by blast
  show thesis
  proof (rule that [of s' ?now])
    show "Promote m st a s = (Ok b, s')"
      using assms(3,4,6) s4(1) s'(1) by (simp add: Promote_def Get split_beta Let_def)
    show "wl_Spec (deref s' b) = cloneSpecForStandby (deref s a) (promoted_replicas (deref s a))"
      "phase (deref s' b) = WorkloadPhasePending"
      using store_frame_spec [OF s'(3), of b] store_frame_spec [OF s4(3), of b]
        store_frame_phase [OF s'(3), of b] store_frame_phase [OF s4(3), of b] assms(5) by (simp_all add: heat_up_def)
    show "wl_ID (deref s' b) = wl_ID (deref s b)"
      using store_frame_id [OF s'(3), of b] store_frame_id [OF s4(3), of b] assms(5) by (simp add: heat_up_def)
    show "core_of (deref s' a) = core_of (set_standby_status (mark_promoted ?now) (deref s a))"
      using store_frame_core [OF s'(3), of a] a by (simp add: core_standby_status)
    show "core_of (deref s' c) = core_of (deref s c)" if "c \<noteq> a" "c \<noteq> b" for c
      using store_frame_core [OF s'(3), of c] store_frame_core [OF s4(3), of c] that by simp
    show "wd_calls s' = wd_calls s" "wd_fresh s' = wd_fresh s" using s'(3) s4(3) by (simp_all add: store_frame_def)
  qed (rule s')
qed

end

lemma mark_standby_ids:
  "wl_ID (set_standby_status f w) = wl_ID w" "wl_Spec (set_standby_status f w) = wl_Spec w"
  by (simp_all add: set_standby_status_def)

lemma core_status:
  assumes "core_of w = core_of (set_standby_status f v)"
  shows "wl_ID w = wl_ID v" "wl_Spec w = wl_Spec v" "wl_Namespace w = wl_Namespace v" "wl_Name w = wl_Name v"
    "st_WarmStandby (wl_Status w) = Some (f (case st_WarmStandby (wl_Status v) of None \<Rightarrow> zero_standby_status | Some st \<Rightarrow> st))"
  using core_of_eqD [OF assms] by (simp_all add: set_standby_status_def)

lemma promoted_replicas_max: "sint (promoted_replicas w) = max (sint (sp_Replicas (wl_Spec w))) (sint (standbyReplicas w))"
  by (auto simp: promoted_replicas_def standbyReplicas_def Let_def max_def split: option.split)

section \<open>Failover on the versioned store\<close>

lemma versioned_Update_in_place_heap:
  assumes "mem_stored s (wl_ID (deref s c)) = Some c"
  shows "wd_heap (snd (store_Update (NewVersionedStore MemStore n) c s)) = (wd_heap s)(c := SyncFromLabels (tags_Apply (deref s c)))"
  by (simp only: versioned_Update_known [OF assms] same_object_records_nothing versions_or_default_not if_False
      mem_Update_heap modify_frame fun_upd_same fun_upd_upd)

lemma tags_Apply_labels_status: "wl_Labels (tags_Apply (w\<lparr>wl_Status := st\<rparr>)) = wl_Labels (tags_Apply w)"
  by (simp add: tags_Apply_def Let_def split: option.split)

lemma Promote_labels:
  assumes "mem_stored s (wl_ID (deref s a)) = Some a" "mem_stored s (standbyIDFor (deref s a)) = Some b" "b \<noteq> a"
    and "wl_ID (deref s b) = standbyIDFor (deref s a)"
    and "Promote m (NewVersionedStore MemStore n) a s = (Ok b, s1)"
  shows "wl_Labels (deref s1 a) = wl_Labels (tags_Apply (deref s a))"
proof -
  let ?st = "NewVersionedStore MemStore n"
  let ?s3 = "modify b tags_Apply (modify b (heat_up (deref s a) (wd_clock s (wd_ticks s))) (snd (time_Now s)))"
  let ?s4 = "snd (store_Update ?st b ?s3)"
  have "mem_stored ?s3 (wl_ID (deref ?s3 b)) = Some b" using assms(2,4) by (simp add: heat_up_def)
  from versioned_Update_in_place_heap [OF this, of n] vs.Update_in_place(2) [OF this refl, of n]
  have s4: "deref ?s4 a = deref s a" "mem_stored ?s4 = mem_stored s" using assms(3) by simp_all
  let ?s6 = "modify a (set_standby_status (mark_promoted (wd_clock ?s4 (wd_ticks ?s4)))) (snd (time_Now ?s4))"
  have "s1 = snd (store_Update ?st a ?s6)"
    using assms(2,5) by (simp add: Promote_def vs.Get split_beta Let_def split: if_splits option.splits)
  moreover have "mem_stored ?s6 (wl_ID (deref ?s6 a)) = Some a" using assms(1) s4 by (simp add: mark_standby_ids)
  ultimately have "deref s1 a = SyncFromLabels (tags_Apply (deref ?s6 a))" using versioned_Update_in_place_heap by simp
  then show ?thesis using s4(1) by (simp add: set_standby_status_def tags_Apply_labels_status)
qed

text \<open>
  Ensuring a cold standby works for every enabled primary in the store: it succeeds, the standby id
  then holds a workload with the primary's spec at zero replicas and without cron schedule,
  circuit breaker and standby of its own, the primary is linked to it in phase \<open>Cold\<close> with
  its own spec untouched, no other workload changes and no driver is called.
\<close>

theorem cold_standby_is_provisioned:
  assumes "keyed mem_stored s" "allocated mem_stored s" "mem_stored s (wl_ID (deref s a)) = Some a"
    and "standby_EnabledFor m (deref s a)" "cold_standby_id (deref s a) \<noteq> wl_ID (deref s a)"
  shows "\<exists>b s'. EnsureColdStandby m (NewVersionedStore MemStore n) a s = (None, s') \<and>
    mem_stored s' = (mem_stored s)(cold_standby_id (deref s a) \<mapsto> b) \<and> b \<noteq> a \<and>
    wl_Spec (deref s' b) = (wl_Spec (deref s a))\<lparr>sp_Replicas := 0, sp_CronSchedule := None,
      sp_WarmStandby := None, sp_CircuitBreaker := None\<rparr> \<and>
    wl_Spec (deref s' a) = wl_Spec (deref s a) \<and>
    (\<exists>st. st_WarmStandby (wl_Status (deref s' a)) = Some st \<and> wss_Phase st = WarmStandbyPhaseCold \<and>
       wss_StandbyWorkloadID st = cold_standby_id (deref s a)) \<and>
    (\<forall>c. c \<noteq> a \<and> c \<noteq> b \<longrightarrow> core_of (deref s' c) = core_of (deref s c)) \<and> wd_calls s' = wd_calls s"
proof -
  obtain b s' where e: "EnsureColdStandby m (NewVersionedStore MemStore n) a s = (None, s')"
    "mem_stored s' = (mem_stored s)(cold_standby_id (deref s a) \<mapsto> b)" "b \<noteq> a"
    "wl_Spec (deref s' b) = cloneSpecForStandby (deref s a) 0"
    "core_of (deref s' a) = core_of (set_standby_status (mark_cold (cold_standby_id (deref s a))) (deref s a))"
    "\<And>c. c \<noteq> a \<Longrightarrow> c \<noteq> b \<Longrightarrow> core_of (deref s' c) = core_of (deref s c)" "wd_calls s' = wd_calls s"
    using vs.EnsureColdStandby_ok [OF assms(1-4) refl assms(5), of n] by blast
  show ?thesis
    using e core_status [OF e(5)] by (intro exI [of _ b] exI [of _ s']) (simp add: cloneSpecForStandby_def mark_cold_def)
qed

text \<open>
  Promotion is a complete failover: with a linked standby in the store, \<open>Promote\<close> returns
  it, pending, with the primary's spec at the larger of the primary's and the configured
  standby size, marks the primary \<open>Promoted\<close>, changes no other workload and calls no driver.
\<close>

theorem promote_scales_standby:
  assumes "keyed mem_stored s" "mem_stored s (wl_ID (deref s a)) = Some a" "standby_EnabledFor m (deref s a)"
    and "mem_stored s (standbyIDFor (deref s a)) = Some b" "b \<noteq> a" "standbyIDFor (deref s a) \<noteq> []"
  shows "\<exists>s'. Promote m (NewVersionedStore MemStore n) a s = (Ok b, s') \<and> mem_stored s' = mem_stored s \<and>
    sint (sp_Replicas (wl_Spec (deref s' b))) = max (sint (sp_Replicas (wl_Spec (deref s a)))) (sint (standbyReplicas (deref s a))) \<and>
    sp_Image (wl_Spec (deref s' b)) = sp_Image (wl_Spec (deref s a)) \<and> sp_Backend (wl_Spec (deref s' b)) = sp_Backend (wl_Spec (deref s a)) \<and>
    phase (deref s' b) = WorkloadPhasePending \<and> wl_Spec (deref s' a) = wl_Spec (deref s a) \<and>
    (\<exists>st. st_WarmStandby (wl_Status (deref s' a)) = Some st \<and> wss_Phase st = WarmStandbyPhasePromoted) \<and>
    (\<forall>c. c \<noteq> a \<and> c \<noteq> b \<longrightarrow> core_of (deref s' c) = core_of (deref s c)) \<and> wd_calls s' = wd_calls s"
proof -
  obtain s' now where e: "Promote m (NewVersionedStore MemStore n) a s = (Ok b, s')" "mem_stored s' = mem_stored s"
    "wl_Spec (deref s' b) = cloneSpecForStandby (deref s a) (promoted_replicas (deref s a))"
    "phase (deref s' b) = WorkloadPhasePending"
    "core_of (deref s' a) = core_of (set_standby_status (mark_promoted now) (deref s a))"
    "\<And>c. c \<noteq> a \<Longrightarrow> c \<noteq> b \<Longrightarrow> core_of (deref s' c) = core_of (deref s c)" "wd_calls s' = wd_calls s"
    using vs.Promote_ok [OF assms, of n] by blast
  show ?thesis
    using e core_status [OF e(5)] by (intro exI [of _ s']) (simp add: cloneSpecForStandby_def mark_promoted_def promoted_replicas_max)
qed

text \<open>
  A failover is undone by the next pass that ensures the standby: after a promotion,
  \<open>EnsureColdStandby\<close> (which the reconciler calls whenever the primary is reported running,
  also while its circuit is still open) puts the promoted standby back to zero replicas.
\<close>

theorem promotion_is_undone_by_ensure:
  assumes "keyed mem_stored s" "allocated mem_stored s" "mem_stored s (wl_ID (deref s a)) = Some a"
    and "standby_EnabledFor m (deref s a)" "mem_stored s (standbyIDFor (deref s a)) = Some b" "b \<noteq> a"
    and "standbyIDFor (deref s a) \<noteq> []" "cold_standby_id (deref s a) = standbyIDFor (deref s a)"
    and "Promote m (NewVersionedStore MemStore n) a s = (Ok b, s1)" "\<not> IsStandbyWorkload (tags_Apply (deref s a))"
  shows "\<exists>s2. EnsureColdStandby m (NewVersionedStore MemStore n) a s1 = (None, s2) \<and>
    (\<exists>c. mem_stored s2 (standbyIDFor (deref s a)) = Some c \<and> sp_Replicas (wl_Spec (deref s2 c)) = 0)"
proof -
  obtain now where p: "mem_stored s1 = mem_stored s"
    "core_of (deref s1 a) = core_of (set_standby_status (mark_promoted now) (deref s a))"
    "\<And>c. c \<noteq> a \<Longrightarrow> c \<noteq> b \<Longrightarrow> core_of (deref s1 c) = core_of (deref s c)"
    "wd_fresh s1 = wd_fresh s" "wl_ID (deref s1 b) = wl_ID (deref s b)"
    using vs.Promote_ok [OF assms(1,3-7), of n] assms(9) by (metis prod.inject)
  have "wl_Labels (deref s1 a) = wl_Labels (tags_Apply (deref s a))"
    using Promote_labels [OF assms(3,5,6) _ assms(9)] assms(1,5) by (simp add: keyed_def)
  then have enabled: "standby_EnabledFor m (deref s1 a)"
    using assms(4,10) core_status(2) [OF p(2)] by (simp add: standby_EnabledFor_def IsStandbyWorkload_def split: if_splits)
  have ids: "wl_ID (deref s1 c) = wl_ID (deref s c)" for c
    using core_status(1) [OF p(2)] p(5) core_of_eqD(1) [OF p(3)] by (cases "c = a"; cases "c = b") auto
  have "cold_standby_id (deref s1 a) = cold_standby_id (deref s a)"
    using core_status(1,2) [OF p(2)] by (simp add: cold_standby_id_def Let_def)
  moreover have "standbyIDFor (deref s a) \<noteq> wl_ID (deref s a)" using assms(3,5,6) by auto
  moreover have "keyed mem_stored s1" using assms(1) by (simp add: keyed_def p(1) ids)
  moreover have "allocated mem_stored s1" using assms(2) by (simp add: allocated_def p(1,4))
  moreover have "mem_stored s1 (wl_ID (deref s1 a)) = Some a" using assms(3) by (simp add: p(1) ids)
  ultimately obtain c s2 where "EnsureColdStandby m (NewVersionedStore MemStore n) a s1 = (None, s2)"
    "mem_stored s2 = (mem_stored s1)(standbyIDFor (deref s a) \<mapsto> c)"
    "wl_Spec (deref s2 c) = cloneSpecForStandby (deref s1 a) 0"
    using vs.EnsureColdStandby_ok [of s1 a m "standbyIDFor (deref s a)" n] assms(8) enabled ids by metis
  then show ?thesis by (intro exI [of _ s2] conjI exI [of _ c]) (simp_all add: cloneSpecForStandby_def)
qed

section \<open>Witnesses\<close>

definition standby_manager :: StandbyManager where
  "standby_manager = standby_New \<lparr>sbc_Enabled = True, sbc_DefaultStandbyReplicas = 0, sbc_DefaultAutoPromote = True\<rparr> None"

definition standby_demo :: "(string \<times> addr) list \<Rightarrow> world" where
  "standby_demo = demo_world (\<lambda>a. if a = 0 then (demo_workload ''a'' ''v1'') else demo_workload ''a-standby'' ''v1'')"

lemma standby_demo_simps [simp]:
  "standby_EnabledFor standby_manager (demo_workload i img)" "cold_standby_id (demo_workload i img) = i @ ''-standby''"
  "standbyIDFor (demo_workload i img) = i @ ''-standby''"
  by (simp_all add: standby_EnabledFor_def standby_manager_def standby_New_def IsStandbyWorkload_def demo_workload_def
      cold_standby_id_def standbyIDFor_def zero_defs)

lemma standby_demo_ok:
  "keyed mem_stored (standby_demo [(''a'', 0)])" "allocated mem_stored (standby_demo [(''a'', 0)])"
  "keyed mem_stored (standby_demo [(''a'', 0), (''a-standby'', 2)])"
  "allocated mem_stored (standby_demo [(''a'', 0), (''a-standby'', 2)])"
  "mem_stored (standby_demo m) = map_of m" "deref (standby_demo m) 0 = demo_workload ''a'' ''v1''"
  by (auto simp: standby_demo_def keyed_def allocated_def split: if_splits)

theorem cold_standby_is_provisioned_witness:
  "\<exists>b s'. EnsureColdStandby standby_manager (NewVersionedStore MemStore 5) 0 (standby_demo [(''a'', 0)]) = (None, s') \<and>
     mem_stored s' ''a-standby'' = Some b \<and> sp_Replicas (wl_Spec (deref s' b)) = 0"
proof -
  obtain b s' where e: "EnsureColdStandby standby_manager (NewVersionedStore MemStore 5) 0 (standby_demo [(''a'', 0)]) = (None, s')"
    "mem_stored s' = (map_of [(''a'', 0)])(''a-standby'' \<mapsto> b)"
    "wl_Spec (deref s' b) = (wl_Spec (demo_workload ''a'' ''v1''))\<lparr>sp_Replicas := 0, sp_CronSchedule := None,
      sp_WarmStandby := None, sp_CircuitBreaker := None\<rparr>"
    using cold_standby_is_provisioned [of "standby_demo [(''a'', 0)]" 0 standby_manager 5]
    by (auto simp: standby_demo_ok)
  then show ?thesis by (intro exI [of _ b] exI [of _ s']) simp
qed

theorem promote_scales_standby_witness:
  "\<exists>s'. Promote standby_manager (NewVersionedStore MemStore 5) 0 (standby_demo [(''a'', 0), (''a-standby'', 2)]) = (Ok 2, s') \<and>
     phase (deref s' 2) = WorkloadPhasePending"
  using promote_scales_standby [of "standby_demo [(''a'', 0), (''a-standby'', 2)]" 0 standby_manager 2 5]
  by (auto simp: standby_demo_ok)

theorem promotion_is_undone_by_ensure_witness:
  "\<exists>s1 s2 c. Promote standby_manager (NewVersionedStore MemStore 5) 0 (standby_demo [(''a'', 0), (''a-standby'', 2)]) = (Ok 2, s1) \<and>
     EnsureColdStandby standby_manager (NewVersionedStore MemStore 5) 0 s1 = (None, s2) \<and>
     mem_stored s2 ''a-standby'' = Some c \<and> sp_Replicas (wl_Spec (deref s2 c)) = 0"
proof -
  let ?s = "standby_demo [(''a'', 0), (''a-standby'', 2)]"
  have not: "\<not> IsStandbyWorkload (tags_Apply (demo_workload i img))" for i img
    by (simp add: IsStandbyWorkload_def tags_Apply_def SyncFromLabels_def demo_workload_def zero_defs)
  obtain s1 where s1: "Promote standby_manager (NewVersionedStore MemStore 5) 0 ?s = (Ok 2, s1)"
    using vs.Promote_ok [of ?s 0 standby_manager 2 5] by (auto simp: standby_demo_ok)
  then show ?thesis
    using promotion_is_undone_by_ensure [of ?s 0 standby_manager 2 5 s1] not by (auto simp: standby_demo_ok)
qed

end
