(* ===== verification/SecretRotation.thy ===== *)
theory SecretRotation
  imports StateStore
begin

text \<open>
  \<open>internal/secretrotation/\<close>: the registry of secret versions and of the workloads that
  reference each secret (\<open>registry.go\<close>), and the engine that marks the dependents of a
  rotated secret for a rolling restart (\<open>engine.go\<close>). The set of workload ids of a secret
  is a list without repetitions; its order stands for Go's map iteration order.

  The lemmas: a version change is reported once and never for the first observation; a
  rotation marks exactly the registered, stored and enabled dependents and nothing else.
\<close>

section \<open>Registry\<close>

record SecretKey =
  sk_Namespace :: string
  sk_Name :: string

definition secretKey :: "string \<Rightarrow> string \<Rightarrow> SecretKey" where
  "secretKey namespace name =
     (let ns = trim_space namespace
      in \<lparr>sk_Namespace = (if ns = [] then ''default'' else ns), sk_Name = trim_space name\<rparr>)"

record SecretRegistry =
  sg_versions :: "(SecretKey, string) gomap"
  sg_workloads :: "(SecretKey, string list) gomap"

definition secret_NewRegistry :: SecretRegistry where
  "secret_NewRegistry = \<lparr>sg_versions = [], sg_workloads = []\<rparr>"

definition secret_dependents :: "SecretRegistry \<Rightarrow> SecretKey \<Rightarrow> string list" where
  "secret_dependents r k = (case map_of (sg_workloads r) k of None \<Rightarrow> [] | Some ids \<Rightarrow> ids)"

definition register_ref :: "string \<Rightarrow> string \<Rightarrow> string \<Rightarrow> SecretRegistry \<Rightarrow> SecretRegistry" where
  "register_ref workloadID namespace name r =
     (if name = [] then r
      else
        let k = secretKey namespace name; ids = secret_dependents r k
        in r\<lparr>sg_workloads := AList.update k (if workloadID \<in> set ids then ids else ids @ [workloadID]) (sg_workloads r)\<rparr>)"

definition RegisterWorkload :: "string \<Rightarrow> string \<Rightarrow> string list \<Rightarrow> SecretRegistry \<Rightarrow> SecretRegistry" where
  "RegisterWorkload workloadID namespace refs r = fold (register_ref workloadID namespace) refs r"

definition WorkloadsForSecret :: "SecretRegistry \<Rightarrow> string \<Rightarrow> string \<Rightarrow> string list" where
  "WorkloadsForSecret r namespace name = secret_dependents r (secretKey namespace name)"

definition CurrentVersion :: "SecretRegistry \<Rightarrow> string \<Rightarrow> string \<Rightarrow> string" where
  "CurrentVersion r namespace name =
     (case map_of (sg_versions r) (secretKey namespace name) of None \<Rightarrow> [] | Some v \<Rightarrow> v)"

definition ObserveVersion :: "string \<Rightarrow> string \<Rightarrow> string \<Rightarrow> SecretRegistry \<Rightarrow> (bool \<times> string) \<times> SecretRegistry" where
  "ObserveVersion namespace name version r =
     (let prev = CurrentVersion r namespace name
      in if prev = version then ((False, prev), r)
         else ((prev \<noteq> [], prev), r\<lparr>sg_versions := AList.update (secretKey namespace name) version (sg_versions r)\<rparr>))"

definition SecretKey_String :: "SecretKey \<Rightarrow> string" where
  "SecretKey_String k = sk_Namespace k @ ''/'' @ sk_Name k"

section \<open>Engine\<close>

record SecretEngine =
  sre_Enabled :: bool
  sre_eventStore :: bool
  sre_eventBus :: bool

definition secret_New :: "bool \<Rightarrow> SecretRegistry option \<Rightarrow> bool \<Rightarrow> bool \<Rightarrow> SecretEngine \<times> SecretRegistry" where
  \<comment> \<open>the registry is threaded beside the engine; the flags tell whether event store and bus are given\<close>
  "secret_New enabled registry eventStore bus =
     (\<lparr>sre_Enabled = enabled, sre_eventStore = eventStore, sre_eventBus = bus\<rparr>,
      case registry of None \<Rightarrow> secret_NewRegistry | Some r \<Rightarrow> r)"

definition secret_EnabledFor :: "SecretEngine \<Rightarrow> Workload \<Rightarrow> bool" where
  "secret_EnabledFor e w = ((case sp_SecretRotation (wl_Spec w) of None \<Rightarrow> False | Some sr \<Rightarrow> ss_Enabled sr) \<or> sre_Enabled e)"

definition SecretRefNames :: "Workload \<Rightarrow> string list" where
  "SecretRefNames w = (case sp_SecretRotation (wl_Spec w) of
     None \<Rightarrow> [] | Some sr \<Rightarrow> filter (\<lambda>n. n \<noteq> []) (map sr_Name (ss_SecretRefs sr)))"

definition IndexWorkload :: "SecretEngine \<Rightarrow> Workload \<Rightarrow> SecretRegistry \<Rightarrow> SecretRegistry" where
  "IndexWorkload e w r =
     (if \<not> secret_EnabledFor e w then r
      else RegisterWorkload (wl_ID w) (wl_Namespace w) (SecretRefNames w) r)"

record RotationNotification =
  rn_Namespace :: string
  rn_Name :: string
  rn_Version :: string
  rn_ResourceVersion :: string

definition mark_rotated :: "string \<Rightarrow> string \<Rightarrow> gotime \<Rightarrow> Workload \<Rightarrow> Workload" where
  "mark_rotated name version now w =
     (let st = (case st_SecretRotation (wl_Status w) of None \<Rightarrow> zero_secret_status | Some x \<Rightarrow> x)
      in w\<lparr>wl_Status := (wl_Status w)\<lparr>st_SecretRotation := Some (st\<lparr>srs_PendingRestart := True, srs_SecretName := name,
             srs_SecretVersion := version, srs_LastRotation := Some now,
             srs_Message := ''secret rotated; rolling restart pending''\<rparr>)\<rparr>,
           wl_UpdatedAt := now\<rparr>)"

definition rotated_event :: "addr \<Rightarrow> string \<Rightarrow> string \<Rightarrow> Event" where
  "rotated_event a name version = \<lparr>ev_Type = WorkloadSecretRotated, ev_Workload = Some a, ev_Timestamp = 0,
     ev_Metadata = [(''secret_name'', AStr name), (''secret_version'', AStr version)]\<rparr>"

definition rotate_one :: "SecretEngine \<Rightarrow> Store \<Rightarrow> string \<Rightarrow> string \<Rightarrow> gotime \<Rightarrow> string \<Rightarrow> world \<Rightarrow> bool \<times> world" where
  \<comment> \<open>one round of the loop of \<open>HandleRotation\<close>: whether the id is appended to \<open>restarted\<close>\<close>
  "rotate_one e st name version now i s = (case store_Get st i s of
     (Inr (Some a), s1) \<Rightarrow>
       if \<not> secret_EnabledFor e (deref s1 a) then (False, s1)
       else
         (case store_Update st a (modify a (mark_rotated name version now) s1) of
            (Some _, s2) \<Rightarrow> (False, s2)
          | (None, s2) \<Rightarrow>
              let s3 = (if sre_eventStore e then RecordSecretRotated a name version s2 else s2);
                  s4 = (if sre_eventBus e then publish (rotated_event a name version) s3 else s3)
              in (True, s4))
   | (_, s1) \<Rightarrow> (False, s1))"

fun rotate_loop :: "SecretEngine \<Rightarrow> Store \<Rightarrow> string \<Rightarrow> string \<Rightarrow> gotime \<Rightarrow> string list \<Rightarrow> world \<Rightarrow> string list \<times> world" where
  "rotate_loop e st name version now [] s = ([], s)"
| "rotate_loop e st name version now (i # ids) s =
     (let (restarted, s1) = rotate_one e st name version now i s;
          (rest, s2) = rotate_loop e st name version now ids s1
      in (if restarted then i # rest else rest, s2))"

definition notified_version :: "RotationNotification \<Rightarrow> string" where
  "notified_version n =
     (if trim_space (rn_Version n) = [] then trim_space (rn_ResourceVersion n) else trim_space (rn_Version n))"

definition HandleRotation ::
  "SecretEngine \<Rightarrow> Store \<Rightarrow> RotationNotification \<Rightarrow> SecretRegistry \<Rightarrow> world \<Rightarrow> (error, string list) result \<times> SecretRegistry \<times> world" where
  "HandleRotation e st n r s =
     (if trim_space (rn_Name n) = [] then (Err (Errorf ''secret name required'' []), r, s)
      else if notified_version n = [] then (Err (Errorf ''version or resource_version required'' []), r, s)
      else
        let ((changed, _), r1) = ObserveVersion (rn_Namespace n) (rn_Name n) (notified_version n) r
        in if \<not> changed then (Ok [], r1, s)
           else
             let affected = WorkloadsForSecret r1 (rn_Namespace n) (rn_Name n);
                 (now, s1) = time_Now s;
                 (restarted, s2) = rotate_loop e st (rn_Name n) (notified_version n) now affected s1
             in (Ok restarted, r1, s2))"

section \<open>The registry\<close>

lemma secret_dependents_register:
  "secret_dependents (register_ref i ns name r) k =
     (let ids = secret_dependents r k
      in if name \<noteq> [] \<and> k = secretKey ns name \<and> i \<notin> set ids then ids @ [i] else ids)"
  by (auto simp: register_ref_def secret_dependents_def Let_def update_conv' split: option.splits)

lemma set_dependents_RegisterWorkload:
  "set (secret_dependents (RegisterWorkload i ns refs r) k) =
     set (secret_dependents r k) \<union> (if \<exists>n \<in> set refs. n \<noteq> [] \<and> k = secretKey ns n then {i} else {})"
  unfolding RegisterWorkload_def
  by (induction refs arbitrary: r) (auto simp: secret_dependents_register Let_def)

lemma SecretRefNames_nonempty: "n \<in> set (SecretRefNames w) \<Longrightarrow> n \<noteq> []"
  by (auto simp: SecretRefNames_def split: option.splits)

lemma set_dependents_IndexWorkload:
  "set (WorkloadsForSecret (IndexWorkload e w r) ns name) =
     set (WorkloadsForSecret r ns name) \<union>
     (if secret_EnabledFor e w \<and> (\<exists>n \<in> set (SecretRefNames w). secretKey (wl_Namespace w) n = secretKey ns name)
      then {wl_ID w} else {})"
  unfolding WorkloadsForSecret_def IndexWorkload_def by (auto simp: set_dependents_RegisterWorkload dest: SecretRefNames_nonempty)

lemma ObserveVersion_current:
  "CurrentVersion (snd (ObserveVersion ns name v r)) ns' name' =
     (if secretKey ns' name' = secretKey ns name then v else CurrentVersion r ns' name')"
  by (auto simp: ObserveVersion_def Let_def CurrentVersion_def update_conv' split: option.splits)

lemma ObserveVersion_changed:
  "fst (fst (ObserveVersion ns name v r)) \<longleftrightarrow> CurrentVersion r ns name \<noteq> v \<and> CurrentVersion r ns name \<noteq> []"
  by (simp add: ObserveVersion_def Let_def)

lemma ObserveVersion_dependents [simp]:
  "WorkloadsForSecret (snd (ObserveVersion ns name v r)) = WorkloadsForSecret r"
  by (intro ext) (simp add: ObserveVersion_def Let_def WorkloadsForSecret_def secret_dependents_def)

section \<open>Marking the dependents\<close>

lemma mark_rotated_frame [simp, frame_simps]:
  "wl_ID (mark_rotated n v now w) = wl_ID w" "wl_Spec (mark_rotated n v now w) = wl_Spec w"
  "core_of (mark_rotated n v now w) = mark_rotated n v now (core_of w)"
  "mark_rotated n v now (mark_rotated n v now w) = mark_rotated n v now w"
  "secret_EnabledFor e (mark_rotated n v now w) = secret_EnabledFor e w"
  by (simp_all add: mark_rotated_def core_of_def secret_EnabledFor_def Let_def)

lemma RecordSecretRotated_frame [simp, frame_simps]:
  "wd_heap (RecordSecretRotated a n v s) = wd_heap s" "wd_mem (RecordSecretRotated a n v s) = wd_mem s"
  "wd_calls (RecordSecretRotated a n v s) = wd_calls s"
  by (simp_all add: RecordSecretRotated_def Let_def)

definition rotation_hits :: "SecretEngine \<Rightarrow> (world \<Rightarrow> string \<Rightarrow> addr option) \<Rightarrow> string list \<Rightarrow> world \<Rightarrow> addr \<Rightarrow> bool" where
  "rotation_hits e stored ids s a =
     (wl_ID (deref s a) \<in> set ids \<and> stored s (wl_ID (deref s a)) = Some a \<and> secret_EnabledFor e (deref s a))"

definition restartable :: "SecretEngine \<Rightarrow> (world \<Rightarrow> string \<Rightarrow> addr option) \<Rightarrow> world \<Rightarrow> string \<Rightarrow> bool" where
  "restartable e stored s i = (\<exists>a. stored s i = Some a \<and> secret_EnabledFor e (deref s a))"

context workload_store
begin

lemma rotate_one_ok:
  assumes "keyed stored s"
  obtains s' where "rotate_one e st name v now i s = (restartable e stored s i, s')" "stored s' = stored s"
    "wd_calls s' = wd_calls s"
    "\<And>a. core_of (deref s' a) = (if stored s i = Some a \<and> secret_EnabledFor e (deref s a)
       then mark_rotated name v now (core_of (deref s a)) else core_of (deref s a))"
proof (cases "restartable e stored s i")
  case True
  then obtain a where a: "stored s i = Some a" "secret_EnabledFor e (deref s a)" by (auto simp: restartable_def)
  let ?s = "modify a (mark_rotated name v now) s"
  have id: "wl_ID (deref s a) = i" using assms a(1) by (simp add: keyed_def)
  have "stored ?s (wl_ID (deref ?s a)) = Some a" using a(1) id stored_mem [of ?s s] by simp
  from Update_known [OF this] obtain s2 where
    s2: "store_Update st a ?s = (None, s2)" "stored s2 = stored s" "store_frame ?s s2"
    using a(1) id stored_mem [of ?s s] by (auto simp: fun_upd_idem)
  let ?s3 = "if sre_eventStore e then RecordSecretRotated a name v s2 else s2"
  let ?s4 = "if sre_eventBus e then publish (rotated_event a name v) ?s3 else ?s3"
  show thesis
  proof (rule that [of ?s4])
    show "rotate_one e st name v now i s = (restartable e stored s i, ?s4)"
      using a s2(1) True by (simp add: rotate_one_def Get Let_def)
    have "wd_mem ?s4 = wd_mem s2" by simp
    then show "stored ?s4 = stored s" using stored_mem s2(2) by metis
    show "wd_calls ?s4 = wd_calls s" using s2(3) by (simp add: store_frame_def)
    have "wd_heap ?s4 = wd_heap s2" by simp
    then show "core_of (deref ?s4 c) = (if stored s i = Some c \<and> secret_EnabledFor e (deref s c)
       then mark_rotated name v now (core_of (deref s c)) else core_of (deref s c))" for c
      using store_frame_core [OF s2(3), of c] a by auto
  qed
next
  case False
  show thesis
  proof (rule that [of s])
    show "rotate_one e st name v now i s = (restartable e stored s i, s)"
      using False by (auto simp: rotate_one_def Get restartable_def split: option.split)
    show "core_of (deref s c) = (if stored s i = Some c \<and> secret_EnabledFor e (deref s c)
       then mark_rotated name v now (core_of (deref s c)) else core_of (deref s c))" for c
      using False by (auto simp: restartable_def)
  qed simp_all
qed

lemma rotate_loop_ok:
  assumes "keyed stored s"
  shows "\<exists>s'. rotate_loop e st name v now ids s = (filter (restartable e stored s) ids, s') \<and> stored s' = stored s \<and>
    wd_calls s' = wd_calls s \<and>
    (\<forall>a. core_of (deref s' a) = (if rotation_hits e stored ids s a
       then mark_rotated name v now (core_of (deref s a)) else core_of (deref s a)))"
  using assms
proof (induction ids arbitrary: s)
  case Nil
  then show ?case by (simp add: rotation_hits_def)
next
  case (Cons i ids)
  obtain s1 where s1: "rotate_one e st name v now i s = (restartable e stored s i, s1)" "stored s1 = stored s"
    "wd_calls s1 = wd_calls s"
    "\<And>a. core_of (deref s1 a) = (if stored s i = Some a \<and> secret_EnabledFor e (deref s a)
       then mark_rotated name v now (core_of (deref s a)) else core_of (deref s a))"
    using rotate_one_ok [OF Cons.prems] by blast
  have same: "wl_ID (deref s1 a) = wl_ID (deref s a) \<and> wl_Spec (deref s1 a) = wl_Spec (deref s a)" for a
    using arg_cong [OF s1(4) [of a], of wl_ID] arg_cong [OF s1(4) [of a], of wl_Spec]
    by (simp add: core_of_def split: if_splits)
  then have en: "secret_EnabledFor e (deref s1 a) = secret_EnabledFor e (deref s a)" for a
    by (simp add: secret_EnabledFor_def)
  have "keyed stored s1" using Cons.prems same s1(2) by (simp add: keyed_def)
  from Cons.IH [OF this] obtain s2 where
    s2: "rotate_loop e st name v now ids s1 = (filter (restartable e stored s1) ids, s2)" "stored s2 = stored s1"
    "wd_calls s2 = wd_calls s1"
    "\<And>a. core_of (deref s2 a) = (if rotation_hits e stored ids s1 a
       then mark_rotated name v now (core_of (deref s1 a)) else core_of (deref s1 a))" by blast
  have "restartable e stored s1 = restartable e stored s" by (simp add: restartable_def fun_eq_iff s1(2) en)
  moreover have "rotation_hits e stored (i # ids) s a \<longleftrightarrow>
      rotation_hits e stored ids s1 a \<or> (stored s i = Some a \<and> secret_EnabledFor e (deref s a))" for a
    using Cons.prems same en s1(2) by (auto simp: rotation_hits_def keyed_def)
  ultimately show ?case
    using s1 s2 by (intro exI [of _ s2]) (auto simp: split_beta)
qed

end

section \<open>Rotations on the versioned store\<close>

definition restart_pending :: "string \<Rightarrow> string \<Rightarrow> Workload \<Rightarrow> bool" where
  "restart_pending name version w = (\<exists>x. st_SecretRotation (wl_Status w) = Some x \<and> srs_PendingRestart x \<and>
     srs_SecretName x = name \<and> srs_SecretVersion x = version)"

lemma core_mark_rotated:
  assumes "core_of v = mark_rotated name version now (core_of w)"
  shows "restart_pending name version v" "wl_Spec v = wl_Spec w" "phase v = phase w"
proof -
  have "core_of v = core_of (mark_rotated name version now w)" using assms by simp
  note eq = core_of_eqD [OF this]
  show "restart_pending name version v" "wl_Spec v = wl_Spec w" "phase v = phase w"
    using eq(4,6,12) by (simp_all add: restart_pending_def mark_rotated_def Let_def)
qed

text \<open>
  C22. A rotation restarts exactly its dependents: when a known secret gets a new version, the
  workloads marked for a rolling restart are exactly those that are registered for the
  secret, stored and enabled for rotation; each is marked with the secret's name and the
  new version, no other workload changes, the set of stored workloads stays the same and
  the registry remembers the version.
\<close>

theorem rotation_marks_exactly_dependents:
  assumes "keyed mem_stored s" "trim_space (rn_Name n) \<noteq> []" "notified_version n \<noteq> []"
    and "CurrentVersion r (rn_Namespace n) (rn_Name n) \<notin> {[], notified_version n}"
  shows "\<exists>ids r' s'. HandleRotation e (NewVersionedStore MemStore k) n r s = (Ok ids, r', s') \<and>
    ids = filter (restartable e mem_stored s) (WorkloadsForSecret r (rn_Namespace n) (rn_Name n)) \<and>
    CurrentVersion r' (rn_Namespace n) (rn_Name n) = notified_version n \<and> mem_stored s' = mem_stored s \<and>
    (\<forall>i a. mem_stored s i = Some a \<longrightarrow>
       (if i \<in> set ids
        then restart_pending (rn_Name n) (notified_version n) (deref s' a) \<and>
             wl_Spec (deref s' a) = wl_Spec (deref s a) \<and> phase (deref s' a) = phase (deref s a)
        else core_of (deref s' a) = core_of (deref s a))) \<and> wd_calls s' = wd_calls s"
proof -
  let ?ids = "WorkloadsForSecret r (rn_Namespace n) (rn_Name n)"
  let ?r = "snd (ObserveVersion (rn_Namespace n) (rn_Name n) (notified_version n) r)"
  let ?now = "wd_clock s (wd_ticks s)" and ?s = "snd (time_Now s)"
  have k: "keyed mem_stored ?s" "mem_stored ?s = mem_stored s" using assms(1) by (simp_all add: keyed_def mem_stored_def)
  obtain s' where s': "rotate_loop e (NewVersionedStore MemStore k) (rn_Name n) (notified_version n) ?now ?ids ?s
      = (filter (restartable e mem_stored ?s) ?ids, s')" "mem_stored s' = mem_stored ?s" "wd_calls s' = wd_calls s"
    "\<And>a. core_of (deref s' a) = (if rotation_hits e mem_stored ?ids ?s a
       then mark_rotated (rn_Name n) (notified_version n) ?now (core_of (deref s a)) else core_of (deref s a))"
    using vs.rotate_loop_ok [OF k(1), of e k "rn_Name n" "notified_version n" ?now ?ids] by auto
  have res: "restartable e mem_stored ?s = restartable e mem_stored s" by (simp add: restartable_def fun_eq_iff k(2))
  have run: "HandleRotation e (NewVersionedStore MemStore k) n r s = (Ok (filter (restartable e mem_stored s) ?ids), ?r, s')"
    using assms(2-4) s'(1) by (simp add: HandleRotation_def split_beta Let_def ObserveVersion_changed res del: time_Now_frame(2-11))
  have hits: "rotation_hits e mem_stored ?ids ?s a \<longleftrightarrow> i \<in> set (filter (restartable e mem_stored s) ?ids)"
    if "mem_stored s i = Some a" for i a
    using that assms(1) by (auto simp: rotation_hits_def restartable_def keyed_def k(2))
  have "if i \<in> set (filter (restartable e mem_stored s) ?ids)
      then restart_pending (rn_Name n) (notified_version n) (deref s' a) \<and>
           wl_Spec (deref s' a) = wl_Spec (deref s a) \<and> phase (deref s' a) = phase (deref s a)
      else core_of (deref s' a) = core_of (deref s a)" if "mem_stored s i = Some a" for i a
    using s'(4) [of a] core_mark_rotated [of "deref s' a" "rn_Name n" "notified_version n" ?now "deref s a"] hits [OF that]
    by (simp split: if_splits)
  then show ?thesis
    using run s'(2,3) k(2) by (intro exI [of _ "filter (restartable e mem_stored s) ?ids"] exI [of _ ?r] exI [of _ s'])
      (simp add: ObserveVersion_current)
qed

text \<open>
  Rotations are idempotent: handling the same notification a second time returns no
  workload, changes nothing and raises no event, and so does the first notification ever
  seen for a secret, which only records the version.
\<close>

theorem rotation_is_idempotent:
  assumes "HandleRotation e st n r s = (Ok ids, r', s')"
  shows "HandleRotation e st n r' s2 = (Ok [], r', s2) \<and>
    (CurrentVersion r (rn_Namespace n) (rn_Name n) = [] \<longrightarrow> ids = [] \<and> s' = s)"
proof -
  let ?o = "ObserveVersion (rn_Namespace n) (rn_Name n) (notified_version n) r"
  have n: "trim_space (rn_Name n) \<noteq> []" "notified_version n \<noteq> []" and r': "r' = snd ?o"
    and first: "\<not> fst (fst ?o) \<Longrightarrow> ids = [] \<and> s' = s"
    using assms by (auto simp: HandleRotation_def split_beta Let_def split: if_splits)
  have "CurrentVersion r' (rn_Namespace n) (rn_Name n) = notified_version n"
    by (simp add: r' ObserveVersion_current)
  then have "ObserveVersion (rn_Namespace n) (rn_Name n) (notified_version n) r' = ((False, notified_version n), r')"
    by (simp add: ObserveVersion_def)
  then show ?thesis using n first by (simp add: HandleRotation_def ObserveVersion_changed)
qed

section \<open>Witnesses\<close>

definition rotation_demo :: RotationNotification where
  "rotation_demo = \<lparr>rn_Namespace = [], rn_Name = ''db'', rn_Version = ''2'', rn_ResourceVersion = []\<rparr>"

definition registry_demo :: SecretRegistry where
  "registry_demo = snd (ObserveVersion [] ''db'' ''1'' (RegisterWorkload ''a'' [] [''db''] secret_NewRegistry))"

definition engine_demo :: SecretEngine where
  "engine_demo = \<lparr>sre_Enabled = True, sre_eventStore = True, sre_eventBus = True\<rparr>"

lemma rotation_demo_simps:
  "trim_space (rn_Name rotation_demo) = ''db''" "notified_version rotation_demo = ''2''"
  "CurrentVersion registry_demo (rn_Namespace rotation_demo) (rn_Name rotation_demo) = ''1''"
  "WorkloadsForSecret registry_demo (rn_Namespace rotation_demo) (rn_Name rotation_demo) = [''a'']"
  by code_simp+

theorem rotation_marks_exactly_dependents_witness:
  "\<exists>r' s'. HandleRotation engine_demo (NewVersionedStore MemStore 5) rotation_demo registry_demo
      (demo_world (\<lambda>_. demo_workload ''a'' ''v1'') [(''a'', 0)]) = (Ok [''a''], r', s') \<and>
    restart_pending ''db'' ''2'' (deref s' 0)"
proof -
  let ?s = "demo_world (\<lambda>_. demo_workload ''a'' ''v1'') [(''a'', 0)]"
  have en: "secret_EnabledFor engine_demo w" for w by (simp add: secret_EnabledFor_def engine_demo_def)
  have k: "keyed mem_stored ?s" by (simp add: keyed_def)
  have ids: "filter (restartable engine_demo mem_stored ?s) [''a''] = [''a'']" by (simp add: restartable_def en)
  obtain r' s' where "HandleRotation engine_demo (NewVersionedStore MemStore 5) rotation_demo registry_demo ?s = (Ok [''a''], r', s')"
    "restart_pending (rn_Name rotation_demo) ''2'' (deref s' 0)"
    using rotation_marks_exactly_dependents [OF k, of rotation_demo registry_demo engine_demo 5]
    unfolding rotation_demo_simps ids by auto
  then show ?thesis by (auto simp: rotation_demo_def)
qed

theorem rotation_is_idempotent_witness:
  "HandleRotation engine_demo MemStore rotation_demo
      (snd (ObserveVersion [] ''db'' ''2'' secret_NewRegistry)) (demo_world (\<lambda>_. demo_workload ''a'' ''v1'') []) =
    (Ok [], snd (ObserveVersion [] ''db'' ''2'' secret_NewRegistry), demo_world (\<lambda>_. demo_workload ''a'' ''v1'') [])"
proof -
  have "HandleRotation engine_demo MemStore rotation_demo secret_NewRegistry s =
      (Ok [], snd (ObserveVersion [] ''db'' ''2'' secret_NewRegistry), s)" for s
    by (simp add: HandleRotation_def rotation_demo_simps ObserveVersion_def CurrentVersion_def secret_NewRegistry_def)
      (simp add: rotation_demo_def)
  from rotation_is_idempotent [OF this] show ?thesis by blast
qed

end
