(* ===== verification/HealthGate.thy ===== *)
theory HealthGate
  imports World GoStd
begin

text \<open>
  \<open>internal/healthgate/engine.go\<close>: the checks evaluated before a rollout. The HTTP client is
  the environment: \<open>ht_Do\<close> answers a request, given the deadline of its context and the
  moment it is sent, with an error or a status code; \<open>ht_NewRequest\<close> is the validation of
  \<open>http.NewRequestWithContext\<close>. \<open>Start\<close> is given the signals its loop receives.

  The lemmas: a gate blocks exactly when its mode is \<open>block\<close> and some check fails, it
  publishes one verdict, and only HTTP checks can fail; the deadline of its checks is the
  configured timeout when that can be read and the current time otherwise.
\<close>

record HttpLib =
  ht_NewRequest :: "string \<Rightarrow> string \<Rightarrow> error option"
  ht_Do :: "gotime \<Rightarrow> string \<Rightarrow> string \<Rightarrow> nat \<Rightarrow> (error, int) result"

record HealthEngine =
  hge_Enabled :: bool
  hge_DefaultTimeout :: int
  hge_CheckInterval :: int
  hge_http :: HttpLib

definition healthgate_New :: "bool \<Rightarrow> int \<Rightarrow> int \<Rightarrow> HttpLib \<Rightarrow> HealthEngine" where
  \<comment> \<open>the three fields of the configuration, and the HTTP library of the process\<close>
  "healthgate_New enabled defaultTimeout checkInterval lib =
     \<lparr>hge_Enabled = enabled, hge_DefaultTimeout = defaultTimeout, hge_CheckInterval = checkInterval, hge_http = lib\<rparr>"

section \<open>Checks\<close>

definition time_Since :: "gotime \<Rightarrow> world \<Rightarrow> int \<times> world" where
  "time_Since t s = (let (now, s1) = time_Now s in (now - t, s1))"

definition check_result :: "HealthCheck \<Rightarrow> string \<Rightarrow> gotext \<Rightarrow> gotime \<Rightarrow> strmap \<Rightarrow> world \<Rightarrow> HealthCheckResult \<times> world" where
  \<comment> \<open>the composite literals the checks return\<close>
  "check_result check status msg startTime metadata s =
     (let (d, s1) = time_Since startTime s
      in (\<lparr>hr_CheckName = hc_Name check, hr_Status = status, hr_Message = msg, hr_LastChecked = startTime,
           hr_Duration = d, hr_Metadata = metadata\<rparr>, s1))"

definition executeHTTPCheck :: "HttpLib \<Rightarrow> gotime \<Rightarrow> HealthCheck \<Rightarrow> gotime \<Rightarrow> world \<Rightarrow> HealthCheckResult \<times> world" where
  "executeHTTPCheck lib deadline check startTime s =
     (let url = sget (hc_Config check) ''url'';
          method = (if sget (hc_Config check) ''method'' = [] then ''GET'' else sget (hc_Config check) ''method'');
          expectedStatus = (if sget (hc_Config check) ''expected_status'' = [] then ''200''
                            else sget (hc_Config check) ''expected_status'')
      in case ht_NewRequest lib method url of
           Some err \<Rightarrow> check_result check ''failing'' (Sprintf ''Failed to create request: %v'' [ErrText err]) startTime None s
         | None \<Rightarrow>
             (case ht_Do lib deadline method url (wd_ticks s) of
                Inl err \<Rightarrow> check_result check ''failing'' (Sprintf ''Request failed: %v'' [ErrText err]) startTime None s
              | Inr code \<Rightarrow>
                  if itoa code \<noteq> expectedStatus
                  then check_result check ''failing'' (Sprintf ''Expected status %s, got %d'' [Str expectedStatus, Num code])
                         startTime (Some [(''status_code'', itoa code)]) s
                  else check_result check ''passing'' (Str ''HTTP check passed'') startTime
                         (Some [(''status_code'', itoa code)]) s))"

definition executeTCPCheck :: "HealthCheck \<Rightarrow> gotime \<Rightarrow> world \<Rightarrow> HealthCheckResult \<times> world" where
  "executeTCPCheck check startTime s =
     check_result check ''unknown'' (Str ''TCP check not yet implemented'') startTime
       (Some [(''address'', sget (hc_Config check) ''host'' @ '':'' @ sget (hc_Config check) ''port'')]) s"

definition executeCommandCheck :: "HealthCheck \<Rightarrow> gotime \<Rightarrow> world \<Rightarrow> HealthCheckResult \<times> world" where
  "executeCommandCheck check startTime s =
     check_result check ''unknown'' (Str ''Command check not yet implemented'') startTime
       (Some [(''command'', sget (hc_Config check) ''command'')]) s"

definition executePrometheusCheck :: "HealthCheck \<Rightarrow> gotime \<Rightarrow> world \<Rightarrow> HealthCheckResult \<times> world" where
  "executePrometheusCheck check startTime s =
     check_result check ''unknown'' (Str ''Prometheus check not yet implemented'') startTime
       (Some [(''query'', sget (hc_Config check) ''query''), (''prometheus_url'', sget (hc_Config check) ''prometheus_url'')]) s"

definition run_check :: "HttpLib \<Rightarrow> gotime \<Rightarrow> HealthCheck \<Rightarrow> gotime \<Rightarrow> gotime \<Rightarrow> world \<Rightarrow> HealthCheckResult \<times> world" where
  \<comment> \<open>the switch of \<open>executeCheck\<close>\<close>
  "run_check lib deadline check startTime lastChecked s =
     (if hc_Type check = ''http'' then executeHTTPCheck lib deadline check startTime s
      else if hc_Type check = ''tcp'' then executeTCPCheck check startTime s
      else if hc_Type check = ''command'' then executeCommandCheck check startTime s
      else if hc_Type check = ''prometheus'' then executePrometheusCheck check startTime s
      else (\<lparr>hr_CheckName = hc_Name check, hr_Status = ''unknown'',
             hr_Message = Sprintf ''Unknown check type: %s'' [Str (hc_Type check)],
             hr_LastChecked = lastChecked, hr_Duration = 0, hr_Metadata = Some []\<rparr>, s))"

definition check_event :: "EventType \<Rightarrow> HealthCheck \<Rightarrow> HealthCheckResult \<Rightarrow> world \<Rightarrow> world" where
  "check_event t check result s =
     (let (now, s1) = time_Now s
      in publish \<lparr>ev_Type = t, ev_Workload = None, ev_Timestamp = Unix now,
           ev_Metadata = [(''check_name'', AStr (hc_Name check)), (''result'', ACheck result)]\<rparr> s1)"

definition executeCheck :: "HttpLib \<Rightarrow> gotime \<Rightarrow> HealthCheck \<Rightarrow> world \<Rightarrow> HealthCheckResult \<times> world" where
  "executeCheck lib deadline check s =
     (let (startTime, s1) = time_Now s;
          (lastChecked, s2) = time_Now s1;
          (result0, s3) = run_check lib deadline check startTime lastChecked s2;
          (d, s4) = time_Since startTime s3;
          result = result0\<lparr>hr_Duration := d\<rparr>
      in (result,
          if hr_Status result = ''passing'' then check_event HealthCheckPassed check result s4
          else if hr_Status result = ''failing'' then check_event HealthCheckFailed check result s4
          else s4))"

section \<open>Gates\<close>

definition fold_result :: "HealthGateConfig \<Rightarrow> HealthCheck \<Rightarrow> HealthCheckResult \<Rightarrow> HealthGateStatus \<Rightarrow> HealthGateStatus" where
  "fold_result cfg check result status0 =
     (let status = status0\<lparr>hs_Results := hs_Results status0 @ [result]\<rparr>
      in if hr_Status result = ''failing'' then
           let status1 = status\<lparr>hs_OverallStatus := ''failing''\<rparr>
           in if hg_FailureMode cfg = ''block''
              then status1\<lparr>hs_Blocked := True,
                     hs_BlockReason := Sprintf ''Health check '%s' failed: %s'' [Str (hc_Name check), hr_Message result]\<rparr>
              else status1
         else status)"

fun check_loop :: "HttpLib \<Rightarrow> gotime \<Rightarrow> HealthGateConfig \<Rightarrow> HealthCheck list \<Rightarrow> HealthGateStatus \<Rightarrow> world \<Rightarrow> HealthGateStatus \<times> world" where
  "check_loop lib deadline cfg [] status s = (status, s)"
| "check_loop lib deadline cfg (check # checks) status s =
     (let (result, s1) = executeCheck lib deadline check s
      in check_loop lib deadline cfg checks (fold_result cfg check result status) s1)"

definition gate_timeout :: "HealthEngine \<Rightarrow> HealthGateConfig \<Rightarrow> int" where
  \<comment> \<open>a failed \<open>ParseDuration\<close> still assigns its zero result\<close>
  "gate_timeout e cfg =
     (if hg_Timeout cfg = [] then hge_DefaultTimeout e
      else case ParseDuration (hg_Timeout cfg) of Inl _ \<Rightarrow> 0 | Inr d \<Rightarrow> d)"

definition gate_status :: "Workload \<Rightarrow> gotime \<Rightarrow> HealthGateStatus" where
  "gate_status w now = \<lparr>hs_WorkloadID = wl_ID w, hs_OverallStatus = ''passing'', hs_Results = [],
     hs_LastEvaluated = now, hs_Blocked = False, hs_BlockReason = Str []\<rparr>"

definition gate_event :: "addr \<Rightarrow> HealthGateStatus \<Rightarrow> world \<Rightarrow> world" where
  "gate_event a status s =
     (let (now, s1) = time_Now s
      in publish \<lparr>ev_Type = (if hs_Blocked status then HealthGateBlocked else HealthGatePassed), ev_Workload = Some a,
           ev_Timestamp = Unix now, ev_Metadata = [(''health_gate_status'', AHealth status)]\<rparr> s1)"

definition EvaluateHealthGates :: "HealthEngine \<Rightarrow> addr \<Rightarrow> world \<Rightarrow> HealthGateStatus \<times> world" where
  \<comment> \<open>the error result of the source is always nil\<close>
  "EvaluateHealthGates e a s = (case sp_HealthGate (wl_Spec (deref s a)) of
     None \<Rightarrow> let (now, s1) = time_Now s in (gate_status (deref s a) now, s1)
   | Some cfg \<Rightarrow>
       let (now, s1) = time_Now s
       in if \<not> hg_Enabled cfg then (gate_status (deref s a) now, s1)
          else
            let (start, s2) = time_Now s1;
                (status, s3) = check_loop (hge_http e) (start + gate_timeout e cfg) cfg (hg_Checks cfg)
                                 (gate_status (deref s a) now) s2
            in (status, gate_event a status s3))"

section \<open>The monitoring loop\<close>

datatype loop_signal = CtxDone | StopClosed | TickerFired

fun monitor_loop :: "loop_signal list \<Rightarrow> bool" where
  \<comment> \<open>whether the loop has returned after receiving these signals; a tick does nothing\<close>
  "monitor_loop [] = False"
| "monitor_loop (CtxDone # sigs) = True"
| "monitor_loop (StopClosed # sigs) = True"
| "monitor_loop (TickerFired # sigs) = monitor_loop sigs"

definition healthgate_Start :: "HealthEngine \<Rightarrow> loop_signal list \<Rightarrow> bool option" where
  \<comment> \<open>\<open>None\<close>: \<open>time.NewTicker\<close> panics on a non-positive interval\<close>
  "healthgate_Start e sigs =
     (if \<not> hge_Enabled e then Some True
      else if hge_CheckInterval e \<le> 0 then None
      else Some (monitor_loop sigs))"

definition healthgate_Stop :: "bool \<Rightarrow> bool option" where
  \<comment> \<open>whether the channel is closed; closing it again panics\<close>
  "healthgate_Stop stopped = (if stopped then None else Some True)"

lemma monitor_loop_returns: "monitor_loop sigs \<longleftrightarrow> CtxDone \<in> set sigs \<or> StopClosed \<in> set sigs"
  by (induction sigs rule: monitor_loop.induct) simp_all

lemma gate_timeout_exact:
  "hg_Timeout cfg = [] \<Longrightarrow> gate_timeout e cfg = hge_DefaultTimeout e"
  "(u, unit) \<in> set unitMap \<Longrightarrow> hg_Timeout cfg = itoa n @ u \<Longrightarrow> - (2 ^ 63) \<le> n * int unit \<Longrightarrow> n * int unit < 2 ^ 63 \<Longrightarrow>
     gate_timeout e cfg = n * int unit"
  "hg_Timeout cfg \<noteq> [] \<Longrightarrow> ParseDuration (hg_Timeout cfg) = Err err \<Longrightarrow> gate_timeout e cfg = 0"
  by (simp_all add: gate_timeout_def ParseDuration_itoa)

section \<open>What a gate decides\<close>

definition same_world :: "world \<Rightarrow> world \<Rightarrow> bool" where
  \<comment> \<open>only the clock and the event bus moved\<close>
  "same_world s s' = (wd_heap s' = wd_heap s \<and> wd_calls s' = wd_calls s \<and> wd_mem s' = wd_mem s \<and>
     wd_fresh s' = wd_fresh s \<and> wd_log s' = wd_log s \<and> wd_clock s' = wd_clock s)"

lemma same_world_refl [simp]: "same_world s s"
  by (simp add: same_world_def)

lemma same_world_trans: "same_world s t \<Longrightarrow> same_world t u \<Longrightarrow> same_world s u"
  by (simp add: same_world_def)

lemma time_Now_same [simp]: "same_world s (snd (time_Now s))"
  by (simp add: same_world_def)

lemma check_result_spec [simp]:
  "same_world s (snd (check_result c st msg t m s))" "hr_Status (fst (check_result c st msg t m s)) = st"
  "hr_CheckName (fst (check_result c st msg t m s)) = hc_Name c"
  by (simp_all add: check_result_def time_Since_def same_world_def split_beta Let_def)

definition check_answer :: "HealthCheck \<Rightarrow> HealthCheckResult \<Rightarrow> bool" where
  \<comment> \<open>a result belongs to its check, and only HTTP checks fail\<close>
  "check_answer c r = (hr_CheckName r = hc_Name c \<and> (hr_Status r = ''failing'' \<longrightarrow> hc_Type c = ''http''))"

lemma executeHTTPCheck_spec:
  "same_world s (snd (executeHTTPCheck lib dl c t s)) \<and> hr_CheckName (fst (executeHTTPCheck lib dl c t s)) = hc_Name c"
  by (simp add: executeHTTPCheck_def Let_def split: option.split sum.split)

lemma run_check_spec:
  "same_world s (snd (run_check lib dl c t0 t1 s)) \<and> check_answer c (fst (run_check lib dl c t0 t1 s))"
  using executeHTTPCheck_spec
  by (simp add: run_check_def check_answer_def executeTCPCheck_def executeCommandCheck_def executePrometheusCheck_def)

lemma check_event_same [simp]: "same_world s (check_event t c r s)"
  by (simp add: check_event_def same_world_def split_beta Let_def)

lemma executeCheck_spec:
  "same_world s (snd (executeCheck lib dl c s)) \<and> check_answer c (fst (executeCheck lib dl c s))"
proof -
  let ?s2 = "snd (time_Now (snd (time_Now s)))"
  let ?r = "run_check lib dl c (fst (time_Now s)) (fst (time_Now (snd (time_Now s)))) ?s2"
  have r: "same_world ?s2 (snd ?r)" "check_answer c (fst ?r)" using run_check_spec by blast+
  let ?d = "time_Since (fst (time_Now s)) (snd ?r)"
  have d: "same_world (snd ?r) (snd ?d)" by (simp add: time_Since_def split_beta Let_def)
  have s: "same_world s (snd ?d)" using r(1) d by (blast intro: same_world_trans time_Now_same)
  have "executeCheck lib dl c s = (let result = (fst ?r)\<lparr>hr_Duration := fst ?d\<rparr> in (result,
      if hr_Status result = ''passing'' then check_event HealthCheckPassed c result (snd ?d)
      else if hr_Status result = ''failing'' then check_event HealthCheckFailed c result (snd ?d) else snd ?d))"
    unfolding executeCheck_def by (simp add: split_beta Let_def)
  then show ?thesis
    using r(2) s same_world_trans [OF s check_event_same] by (auto simp: check_answer_def Let_def)
qed

lemma fold_result_spec [simp]:
  "hs_Results (fold_result cfg c r st) = hs_Results st @ [r]"
  "hs_Blocked (fold_result cfg c r st) \<longleftrightarrow> hs_Blocked st \<or> (hg_FailureMode cfg = ''block'' \<and> hr_Status r = ''failing'')"
  "hs_OverallStatus (fold_result cfg c r st) = (if hr_Status r = ''failing'' then ''failing'' else hs_OverallStatus st)"
  by (simp_all add: fold_result_def Let_def)

lemma check_loop_spec:
  "\<exists>rs st' s'. check_loop lib dl cfg checks st s = (st', s') \<and> same_world s s' \<and> list_all2 check_answer checks rs \<and>
     hs_Results st' = hs_Results st @ rs \<and>
     (hs_Blocked st' \<longleftrightarrow> hs_Blocked st \<or> (hg_FailureMode cfg = ''block'' \<and> (\<exists>r \<in> set rs. hr_Status r = ''failing''))) \<and>
     hs_OverallStatus st' = (if \<exists>r \<in> set rs. hr_Status r = ''failing'' then ''failing'' else hs_OverallStatus st)"
proof (induction checks arbitrary: st s)
  case (Cons c checks)
  let ?r = "executeCheck lib dl c s"
  obtain rs st' s' where "check_loop lib dl cfg checks (fold_result cfg c (fst ?r) st) (snd ?r) = (st', s')"
    "same_world (snd ?r) s'" "list_all2 check_answer checks rs" "hs_Results st' = hs_Results (fold_result cfg c (fst ?r) st) @ rs"
    "hs_Blocked st' \<longleftrightarrow> hs_Blocked (fold_result cfg c (fst ?r) st) \<or> (hg_FailureMode cfg = ''block'' \<and> (\<exists>r \<in> set rs. hr_Status r = ''failing''))"
    "hs_OverallStatus st' = (if \<exists>r \<in> set rs. hr_Status r = ''failing'' then ''failing'' else hs_OverallStatus (fold_result cfg c (fst ?r) st))"
    using Cons.IH by blast
  then show ?case
    using executeCheck_spec [of s lib dl c] same_world_trans
    by (intro exI [of _ "fst ?r # rs"] exI [of _ st'] exI [of _ s']) (auto simp: split_beta)
qed simp

definition enabled_gate :: "Workload \<Rightarrow> HealthGateConfig option" where
  "enabled_gate w = (case sp_HealthGate (wl_Spec w) of None \<Rightarrow> None | Some cfg \<Rightarrow> if hg_Enabled cfg then Some cfg else None)"

lemma gate_status_fields:
  "hs_Results (gate_status w now) = []" "hs_Blocked (gate_status w now) = False"
  "hs_OverallStatus (gate_status w now) = ''passing''"
  by (simp_all add: gate_status_def)

lemma gate_event_same [simp]: "same_world s (gate_event a st s)"
  by (simp add: gate_event_def same_world_def split_beta Let_def)

lemma EvaluateHealthGates_enabled:
  assumes "enabled_gate (deref s a) = Some cfg"
  obtains status s' where "EvaluateHealthGates e a s = (status, gate_event a status s')" "same_world s s'"
    "list_all2 check_answer (hg_Checks cfg) (hs_Results status)"
    "hs_Blocked status \<longleftrightarrow> hg_FailureMode cfg = ''block'' \<and> (\<exists>r \<in> set (hs_Results status). hr_Status r = ''failing'')"
    "hs_OverallStatus status = (if \<exists>r \<in> set (hs_Results status). hr_Status r = ''failing'' then ''failing'' else ''passing'')"
proof -
  have cfg: "sp_HealthGate (wl_Spec (deref s a)) = Some cfg" "hg_Enabled cfg"
    using assms by (auto simp: enabled_gate_def split: option.splits if_splits)
  let ?s2 = "snd (time_Now (snd (time_Now s)))"
  let ?dl = "fst (time_Now (snd (time_Now s))) + gate_timeout e cfg"
  obtain st' s' where l: "check_loop (hge_http e) ?dl cfg (hg_Checks cfg) (gate_status (deref s a) (fst (time_Now s))) ?s2 = (st', s')"
    "same_world ?s2 s'" "list_all2 check_answer (hg_Checks cfg) (hs_Results st')"
    "hs_Blocked st' \<longleftrightarrow> hg_FailureMode cfg = ''block'' \<and> (\<exists>r \<in> set (hs_Results st'). hr_Status r = ''failing'')"
    "hs_OverallStatus st' = (if \<exists>r \<in> set (hs_Results st'). hr_Status r = ''failing'' then ''failing'' else ''passing'')"
    using check_loop_spec [of "hge_http e" ?dl cfg "hg_Checks cfg" "gate_status (deref s a) (fst (time_Now s))" ?s2]
    unfolding gate_status_fields append_Nil simp_thms by blast
  have "EvaluateHealthGates e a s = (st', gate_event a st' s')"
    using l(1) cfg unfolding EvaluateHealthGates_def by (simp add: split_beta Let_def del: time_Now_frame)
  moreover have "same_world s s'" using l(2) by (blast intro: same_world_trans time_Now_same)
  ultimately show thesis using l(3-5) by (rule that)
qed

lemma EvaluateHealthGates_disabled:
  "enabled_gate (deref s a) = None \<Longrightarrow> EvaluateHealthGates e a s = (gate_status (deref s a) (fst (time_Now s)), snd (time_Now s))"
  by (auto simp: EvaluateHealthGates_def enabled_gate_def split_beta Let_def split: option.splits if_splits)

lemma EvaluateHealthGates_same: "same_world s (snd (EvaluateHealthGates e a s))"
proof (cases "enabled_gate (deref s a)")
  case (Some cfg)
  then show ?thesis by (auto elim!: EvaluateHealthGates_enabled [of s a cfg e] intro: same_world_trans)
qed (simp add: EvaluateHealthGates_disabled)

text \<open>
  A health gate blocks exactly when it should: it evaluates every configured check once, in
  order, and blocks a rollout exactly when it is enabled with failure mode \<open>block\<close> and some
  check reports a failure. Only HTTP checks ever fail, so a gate made of TCP, command or
  Prometheus checks never blocks. No workload, store entry or driver is touched.
\<close>

theorem health_gate_blocks_exactly:
  "case EvaluateHealthGates e a s of (status, s') \<Rightarrow>
     same_world s s' \<and>
     list_all2 check_answer (case enabled_gate (deref s a) of None \<Rightarrow> [] | Some cfg \<Rightarrow> hg_Checks cfg) (hs_Results status) \<and>
     (hs_Blocked status \<longleftrightarrow>
        (\<exists>cfg. enabled_gate (deref s a) = Some cfg \<and> hg_FailureMode cfg = ''block'' \<and>
           (\<exists>r \<in> set (hs_Results status). hr_Status r = ''failing''))) \<and>
     hs_OverallStatus status = (if \<exists>r \<in> set (hs_Results status). hr_Status r = ''failing'' then ''failing'' else ''passing'')"
proof (cases "enabled_gate (deref s a)")
  case None
  then show ?thesis by (simp add: EvaluateHealthGates_disabled gate_status_fields)
next
  case (Some cfg)
  obtain status s' where st: "EvaluateHealthGates e a s = (status, gate_event a status s')" "same_world s s'"
    "list_all2 check_answer (hg_Checks cfg) (hs_Results status)"
    "hs_Blocked status \<longleftrightarrow> hg_FailureMode cfg = ''block'' \<and> (\<exists>r \<in> set (hs_Results status). hr_Status r = ''failing'')"
    "hs_OverallStatus status = (if \<exists>r \<in> set (hs_Results status). hr_Status r = ''failing'' then ''failing'' else ''passing'')"
    using Some by (rule EvaluateHealthGates_enabled)
  have "same_world s (gate_event a status s')" using st(2) by (rule same_world_trans) simp
  then show ?thesis using st Some by simp
qed

end
