(* ===== verification/Rollout.thy ===== *)
theory Rollout
  imports HealthGate Scheduler EventSourcing
begin

text \<open>
  \<open>internal/rollout/rollout.go\<close>: the rollout strategies. The replica arithmetic is on
  \<open>int32\<close>, with the wrap-around of the multiplication and division rounding towards zero.
  A canary or variant workload is a struct copy, so its \<open>Scheduling\<close> pointer is the one of
  the original: what placement writes through it is written back to the original.
  \<open>time.Sleep\<close> only lets the clock move, which the clock of the model may do anyway.

  The lemmas: a blocked health gate stops a rollout before any driver call; a rollout that
  succeeds has made exactly the deployments of its strategy; an A/B test splits the
  replicas without loss.
\<close>

record RolloutManager =
  rm_scheduler :: Scheduler
  rm_healthGate :: "HealthEngine option"

definition rollout_New :: "Scheduler \<Rightarrow> HealthEngine option \<Rightarrow> RolloutManager" where
  \<comment> \<open>the store is kept by the source and not used; the bus is the world's\<close>
  "rollout_New sched healthGate = \<lparr>rm_scheduler = sched, rm_healthGate = healthGate\<rparr>"

definition publishEvent :: "addr \<Rightarrow> EventType \<Rightarrow> metadata \<Rightarrow> world \<Rightarrow> world" where
  "publishEvent a t meta s =
     (let (now, s1) = time_Now s
      in publish \<lparr>ev_Type = t, ev_Workload = Some a, ev_Timestamp = Unix now, ev_Metadata = meta\<rparr> s1)"

definition i32_div :: "int32 \<Rightarrow> int \<Rightarrow> int32" where
  \<comment> \<open>Go's division by a positive constant\<close>
  "i32_div x c = word_of_int (if sint x < 0 then - ((- sint x) div c) else sint x div c)"

definition rollout_step :: "RolloutManager \<Rightarrow> addr \<Rightarrow> addr \<Rightarrow> string \<Rightarrow> world \<Rightarrow> error option \<times> world" where
  \<comment> \<open>\<open>if err := m.scheduler.Schedule(ctx, c); err != nil { publish failed; return err }\<close>\<close>
  "rollout_step m a c strategy s = (case Schedule (rm_scheduler m) c s of
     (None, s1) \<Rightarrow> (None, s1)
   | (Some err, s1) \<Rightarrow>
       (Some err, publishEvent a WorkloadRolloutFailed [(''strategy'', AStr strategy), (''error'', AErr err)] s1))"

definition and_then :: "error option \<times> world \<Rightarrow> (world \<Rightarrow> error option \<times> world) \<Rightarrow> error option \<times> world" where
  "and_then r f = (case r of (Some err, s) \<Rightarrow> (Some err, s) | (None, s) \<Rightarrow> f s)"

definition completed :: "addr \<Rightarrow> string \<Rightarrow> world \<Rightarrow> error option \<times> world" where
  "completed a strategy s = (None, publishEvent a WorkloadRolloutCompleted [(''strategy'', AStr strategy)] s)"

definition schedule_now :: "RolloutManager \<Rightarrow> addr \<Rightarrow> string \<Rightarrow> world \<Rightarrow> error option \<times> world" where
  "schedule_now m a strategy s =
     and_then (rollout_step m a a strategy (publishEvent a WorkloadRolloutStarted [(''strategy'', AStr strategy)] s))
       (completed a strategy)"

definition executeRollingUpdate :: "RolloutManager \<Rightarrow> addr \<Rightarrow> world \<Rightarrow> error option \<times> world" where
  "executeRollingUpdate m a s = schedule_now m a ''rolling'' s"

definition executeRecreate :: "RolloutManager \<Rightarrow> addr \<Rightarrow> world \<Rightarrow> error option \<times> world" where
  "executeRecreate m a s = schedule_now m a ''recreate'' s"

definition executeBlueGreen :: "RolloutManager \<Rightarrow> addr \<Rightarrow> world \<Rightarrow> error option \<times> world" where
  "executeBlueGreen m a s = schedule_now m a ''bluegreen'' s"

definition schedule_copy :: "RolloutManager \<Rightarrow> addr \<Rightarrow> Workload \<Rightarrow> string \<Rightarrow> world \<Rightarrow> error option \<times> world" where
  \<comment> \<open>schedules a struct copy of the workload at \<open>a\<close>; the copy shares its \<open>Scheduling\<close>\<close>
  "schedule_copy m a copy strategy s =
     (let (c, s1) = alloc copy s;
          (e, s2) = rollout_step m a c strategy s1
      in (e, modify a (\<lambda>w. rescheduled w (sp_Scheduling (wl_Spec (deref s2 c)))) s2))"

definition canary_replicas :: "CanaryConfig \<Rightarrow> Workload \<Rightarrow> int32" where
  "canary_replicas cfg w =
     (if sint (cc_Percentage cfg) > 0 then i32_div (sp_Replicas (wl_Spec w) * cc_Percentage cfg) 100 else cc_Replicas cfg)"

definition canary_copy :: "CanaryConfig \<Rightarrow> Workload \<Rightarrow> Workload" where
  "canary_copy cfg w = w\<lparr>wl_ID := wl_ID w @ ''-canary'',
     wl_Spec := (wl_Spec w)\<lparr>sp_Replicas := canary_replicas cfg w\<rparr>,
     wl_Labels := Some [(''rollout'', ''canary''), (''parent'', wl_ID w), (''version'', ''canary'')]\<rparr>"

definition executeCanary :: "RolloutManager \<Rightarrow> addr \<Rightarrow> world \<Rightarrow> error option \<times> world" where
  "executeCanary m a s = (case rs_CanaryConfig (sp_RolloutStrategy (wl_Spec (deref s a))) of
     None \<Rightarrow> (Some (Errorf ''canary config is required for canary strategy'' []), s)
   | Some cfg \<Rightarrow>
       let s1 = publishEvent a WorkloadRolloutStarted [(''strategy'', AStr ''canary''), (''replicas'', AI32 (cc_Replicas cfg)),
                  (''percentage'', AI32 (cc_Percentage cfg))] s
       in and_then (schedule_copy m a (canary_copy cfg (deref s1 a)) ''canary'' s1)
            (\<lambda>s2. and_then (if cc_AutoPromote cfg then rollout_step m a a ''canary'' s2 else (None, s2))
               (completed a ''canary'')))"

definition variantB_replicas :: "ABTestConfig \<Rightarrow> Workload \<Rightarrow> int32" where
  "variantB_replicas cfg w = i32_div (sp_Replicas (wl_Spec w) * ab_TrafficSplit cfg) 100"

definition variantA_replicas :: "ABTestConfig \<Rightarrow> Workload \<Rightarrow> int32" where
  "variantA_replicas cfg w = sp_Replicas (wl_Spec w) - variantB_replicas cfg w"

definition variant_copy :: "string \<Rightarrow> string \<Rightarrow> int32 \<Rightarrow> Workload \<Rightarrow> Workload" where
  "variant_copy variant img replicas w = w\<lparr>wl_ID := wl_ID w @ ''-variant-'' @ variant,
     wl_Spec := (wl_Spec w)\<lparr>sp_Image := img, sp_Replicas := replicas\<rparr>,
     wl_Labels := Some [(''abtest'', ''true''), (''variant'', variant), (''parent'', wl_ID w)]\<rparr>"

definition set_image :: "string \<Rightarrow> Workload \<Rightarrow> Workload" where
  "set_image img w = w\<lparr>wl_Spec := (wl_Spec w)\<lparr>sp_Image := img\<rparr>\<rparr>"

definition executeABTest :: "RolloutManager \<Rightarrow> addr \<Rightarrow> world \<Rightarrow> error option \<times> world" where
  "executeABTest m a s = (case rs_ABTestConfig (sp_RolloutStrategy (wl_Spec (deref s a))) of
     None \<Rightarrow> (Some (Errorf ''abtest config is required for abtest strategy'' []), s)
   | Some cfg \<Rightarrow>
       let s1 = publishEvent a WorkloadRolloutStarted [(''strategy'', AStr ''abtest''), (''variant_a'', AStr (ab_VariantA cfg)),
                  (''variant_b'', AStr (ab_VariantB cfg)), (''traffic_split'', AI32 (ab_TrafficSplit cfg))] s;
           nB = variantB_replicas cfg (deref s1 a);
           nA = variantA_replicas cfg (deref s1 a)
       in and_then (schedule_copy m a (variant_copy ''a'' (ab_VariantA cfg) nA (deref s1 a)) ''abtest'' s1)
            (\<lambda>s2. and_then (schedule_copy m a (variant_copy ''b'' (ab_VariantB cfg) nB (deref s2 a)) ''abtest'' s2)
               (\<lambda>s3. and_then (if ab_AutoSelectWinner cfg
                               then rollout_step m a a ''abtest'' (modify a (set_image (ab_VariantA cfg)) s3) else (None, s3))
                  (completed a ''abtest''))))"

definition execute_strategy :: "RolloutManager \<Rightarrow> addr \<Rightarrow> world \<Rightarrow> error option \<times> world" where
  "execute_strategy m a s =
     (let t = rs_Type (sp_RolloutStrategy (wl_Spec (deref s a)))
      in if t = [] then executeRollingUpdate m a s
         else if t = ''rolling'' then executeRollingUpdate m a s
         else if t = ''recreate'' then executeRecreate m a s
         else if t = ''bluegreen'' then executeBlueGreen m a s
         else if t = ''canary'' then executeCanary m a s
         else if t = ''abtest'' then executeABTest m a s
         else (Some (Errorf ''unknown rollout strategy: %s'' [Str t]), s))"

definition ExecuteRollout :: "RolloutManager \<Rightarrow> addr \<Rightarrow> world \<Rightarrow> error option \<times> world" where
  "ExecuteRollout m a s = (case rm_healthGate m of
     None \<Rightarrow> execute_strategy m a s
   | Some e \<Rightarrow>
       let (status, s1) = EvaluateHealthGates e a s
       in if hs_Blocked status
          then (Some (Errorf ''rollout blocked by health gate: %s'' [hs_BlockReason status]), s1)
          else execute_strategy m a s1)"

section \<open>The deployments of a strategy\<close>

definition strategy_deploys :: "Workload \<Rightarrow> Workload list option" where
  \<comment> \<open>the workloads a strategy hands to the driver, in order; \<open>None\<close> for a configuration error\<close>
  "strategy_deploys w =
     (let rs = sp_RolloutStrategy (wl_Spec w)
      in if rs_Type rs \<in> {[], ''rolling'', ''recreate'', ''bluegreen''} then Some [w]
         else if rs_Type rs = ''canary'' then
           map_option (\<lambda>cfg. canary_copy cfg w # (if cc_AutoPromote cfg then [w] else [])) (rs_CanaryConfig rs)
         else if rs_Type rs = ''abtest'' then
           map_option (\<lambda>cfg. [variant_copy ''a'' (ab_VariantA cfg) (variantA_replicas cfg w) w,
                              variant_copy ''b'' (ab_VariantB cfg) (variantB_replicas cfg w) w] @
                             (if ab_AutoSelectWinner cfg then [set_image (ab_VariantA cfg) w] else [])) (rs_ABTestConfig rs)
         else None)"

fun run_deploys :: "RuntimeDriver \<Rightarrow> driver_trace \<Rightarrow> Workload list \<Rightarrow> driver_trace \<times> bool" where
  \<comment> \<open>deploys in order until the driver refuses one\<close>
  "run_deploys d tr [] = (tr, True)"
| "run_deploys d tr (w # ws) =
     (let tr' = tr @ [(drv_Name d, CallDeploy w)]
      in if drv_Deploy d tr w = None then run_deploys d tr' ws else (tr', False))"

definition outcome :: "error option \<times> world \<Rightarrow> driver_trace \<times> bool" where
  "outcome r = (wd_calls (snd r), fst r = None)"

definition not_cost_aware :: "Workload \<Rightarrow> bool" where
  "not_cost_aware w = (case sp_Scheduling (wl_Spec w) of None \<Rightarrow> True | Some sc \<Rightarrow> \<not> sc_CostAware sc)"

lemma publishEvent_frame [simp, frame_simps]:
  "wd_heap (publishEvent a t meta s) = wd_heap s" "wd_calls (publishEvent a t meta s) = wd_calls s"
  "wd_fresh (publishEvent a t meta s) = wd_fresh s" "wd_mem (publishEvent a t meta s) = wd_mem s"
  by (simp_all add: publishEvent_def split_beta Let_def)

lemma run_deploys_append:
  "run_deploys d tr (ws @ vs) = (if snd (run_deploys d tr ws) then run_deploys d (fst (run_deploys d tr ws)) vs else run_deploys d tr ws)"
  by (induction ws arbitrary: tr) (auto simp: Let_def)

lemma outcome_and_then:
  assumes "outcome r = run_deploys d tr ws" "\<And>s. r = (None, s) \<Longrightarrow> outcome (f s) = run_deploys d (wd_calls s) vs"
  shows "outcome (and_then r f) = run_deploys d tr (ws @ vs)"
proof (cases r)
  case (Pair e s)
  have "run_deploys d tr ws = (wd_calls s, e = None)" using assms(1) Pair by (simp add: outcome_def)
  then show ?thesis
    using assms(2) Pair by (cases e) (simp_all add: run_deploys_append and_then_def outcome_def)
qed

lemma outcome_completed [simp]: "outcome (completed a strategy s) = run_deploys d (wd_calls s) []"
  by (simp add: outcome_def completed_def)

lemma Schedule_plain:
  assumes "GetDriver sd (sp_Backend (wl_Spec (deref s c))) = Some d" "not_cost_aware (deref s c)"
  shows "Schedule sd c s = (map_option (Wrapf ''failed to deploy workload: %w'' []) (drv_Deploy d (wd_calls s) (deref s c)),
    call_driver d (CallDeploy (deref s c)) s)"
proof -
  have "cost_aware_step sd c s = (None, s)"
    using assms(2) by (auto simp: cost_aware_step_def not_cost_aware_def split: option.splits)
  then show ?thesis using assms(1) by (simp add: Schedule_def driver_Deploy_def split: option.split)
qed

lemma rollout_step_spec:
  assumes "GetDriver (rm_scheduler m) (sp_Backend (wl_Spec (deref s c))) = Some d" "not_cost_aware (deref s c)"
  shows "outcome (rollout_step m a c strategy s) = run_deploys d (wd_calls s) [deref s c]"
    "wd_heap (snd (rollout_step m a c strategy s)) = wd_heap s" "wd_fresh (snd (rollout_step m a c strategy s)) = wd_fresh s"
    "wd_mem (snd (rollout_step m a c strategy s)) = wd_mem s"
  by (auto simp: Schedule_plain [OF assms] rollout_step_def outcome_def Let_def split: option.split)

lemma schedule_copy_spec:
  assumes "GetDriver (rm_scheduler m) (sp_Backend (wl_Spec copy)) = Some d" "not_cost_aware copy" "a < wd_fresh s"
    and "sp_Scheduling (wl_Spec copy) = sp_Scheduling (wl_Spec (deref s a))"
  shows "outcome (schedule_copy m a copy strategy s) = run_deploys d (wd_calls s) [copy]"
    "deref (snd (schedule_copy m a copy strategy s)) a = deref s a"
    "wd_fresh (snd (schedule_copy m a copy strategy s)) = Suc (wd_fresh s)"
proof -
  let ?s = "snd (alloc copy s)"
  have "GetDriver (rm_scheduler m) (sp_Backend (wl_Spec (deref ?s (wd_fresh s)))) = Some d" "not_cost_aware (deref ?s (wd_fresh s))"
    using assms(1,2) by simp_all
  note step = rollout_step_spec [OF this, of a strategy]
  have r: "rescheduled (deref s a) (sp_Scheduling (wl_Spec copy)) = deref s a" unfolding assms(4) by simp
  show "outcome (schedule_copy m a copy strategy s) = run_deploys d (wd_calls s) [copy]"
    "deref (snd (schedule_copy m a copy strategy s)) a = deref s a"
    "wd_fresh (snd (schedule_copy m a copy strategy s)) = Suc (wd_fresh s)"
    using step assms(3) r by (simp_all add: schedule_copy_def outcome_def split_beta Let_def)
qed

lemma schedule_now_spec:
  assumes "GetDriver (rm_scheduler m) (sp_Backend (wl_Spec (deref s a))) = Some d" "not_cost_aware (deref s a)"
  shows "outcome (schedule_now m a strategy s) = run_deploys d (wd_calls s) [deref s a]"
    "wd_heap (snd (schedule_now m a strategy s)) = wd_heap s" "wd_mem (snd (schedule_now m a strategy s)) = wd_mem s"
proof -
  let ?s = "publishEvent a WorkloadRolloutStarted [(''strategy'', AStr strategy)] s"
  have step: "outcome (rollout_step m a a strategy ?s) = run_deploys d (wd_calls s) [deref s a]"
    "wd_heap (snd (rollout_step m a a strategy ?s)) = wd_heap s" "wd_mem (snd (rollout_step m a a strategy ?s)) = wd_mem s"
    using rollout_step_spec [of m ?s a d a strategy] assms by simp_all
  from outcome_and_then [OF step(1) outcome_completed]
  show "outcome (schedule_now m a strategy s) = run_deploys d (wd_calls s) [deref s a]" by (simp add: schedule_now_def)
  show "wd_heap (snd (schedule_now m a strategy s)) = wd_heap s" "wd_mem (snd (schedule_now m a strategy s)) = wd_mem s"
    using step(2,3) by (auto simp: schedule_now_def and_then_def completed_def split: prod.split option.split)
qed

lemma copies_simps [simp]:
  "sp_Backend (wl_Spec (canary_copy cfg w)) = sp_Backend (wl_Spec w)"
  "sp_Scheduling (wl_Spec (canary_copy cfg w)) = sp_Scheduling (wl_Spec w)"
  "sp_Backend (wl_Spec (variant_copy v img n w)) = sp_Backend (wl_Spec w)"
  "sp_Scheduling (wl_Spec (variant_copy v img n w)) = sp_Scheduling (wl_Spec w)"
  "sp_Backend (wl_Spec (set_image img w)) = sp_Backend (wl_Spec w)"
  "sp_Scheduling (wl_Spec (set_image img w)) = sp_Scheduling (wl_Spec w)"
  by (simp_all add: canary_copy_def variant_copy_def set_image_def)

lemma not_cost_aware_copies [simp]:
  "not_cost_aware (canary_copy cfg w) = not_cost_aware w" "not_cost_aware (variant_copy v img n w) = not_cost_aware w"
  "not_cost_aware (set_image img w) = not_cost_aware w"
  by (simp_all add: not_cost_aware_def)

lemma last_step_spec:
  assumes "GetDriver (rm_scheduler m) (sp_Backend (wl_Spec (deref s a))) = Some d" "not_cost_aware (deref s a)"
  shows "outcome (and_then (if p then rollout_step m a a strategy s else (None, s)) (completed a strategy)) =
    run_deploys d (wd_calls s) (if p then [deref s a] else [])"
proof -
  have "outcome (if p then rollout_step m a a strategy s else (None, s)) = run_deploys d (wd_calls s) (if p then [deref s a] else [])"
    using rollout_step_spec(1) [OF assms] by (simp add: outcome_def)
  from outcome_and_then [OF this outcome_completed] show ?thesis by simp
qed

lemma executeCanary_spec:
  assumes "GetDriver (rm_scheduler m) (sp_Backend (wl_Spec (deref s a))) = Some d" "not_cost_aware (deref s a)" "a < wd_fresh s"
    and "rs_CanaryConfig (sp_RolloutStrategy (wl_Spec (deref s a))) = Some cfg"
  shows "outcome (executeCanary m a s) =
    run_deploys d (wd_calls s) (canary_copy cfg (deref s a) # (if cc_AutoPromote cfg then [deref s a] else []))"
proof -
  let ?s = "publishEvent a WorkloadRolloutStarted [(''strategy'', AStr ''canary''), (''replicas'', AI32 (cc_Replicas cfg)),
     (''percentage'', AI32 (cc_Percentage cfg))] s"
  let ?r = "schedule_copy m a (canary_copy cfg (deref ?s a)) ''canary'' ?s"
  have c: "outcome ?r = run_deploys d (wd_calls s) [canary_copy cfg (deref s a)]" "deref (snd ?r) a = deref s a"
    using schedule_copy_spec [of m "canary_copy cfg (deref ?s a)" d a ?s "''canary''"] assms(1-3) by simp_all
  have "outcome (and_then ?r (\<lambda>s2. and_then (if cc_AutoPromote cfg then rollout_step m a a ''canary'' s2 else (None, s2)) (completed a ''canary''))) =
      run_deploys d (wd_calls s) ([canary_copy cfg (deref s a)] @ (if cc_AutoPromote cfg then [deref s a] else []))"
  proof (rule outcome_and_then [OF c(1)])
    fix s2 assume "?r = (None, s2)"
    then have "deref s2 a = deref s a" using c(2) by simp
    then show "outcome (and_then (if cc_AutoPromote cfg then rollout_step m a a ''canary'' s2 else (None, s2)) (completed a ''canary'')) =
        run_deploys d (wd_calls s2) (if cc_AutoPromote cfg then [deref s a] else [])"
      using last_step_spec [of m s2 a d "cc_AutoPromote cfg" "''canary''"] assms(1,2) by simp
  qed
  then show ?thesis using assms(4) by (simp add: executeCanary_def Let_def)
qed

lemma winner_spec:
  assumes "GetDriver (rm_scheduler m) (sp_Backend (wl_Spec (deref s a))) = Some d" "not_cost_aware (deref s a)"
  shows "outcome (and_then (if p then rollout_step m a a strategy (modify a (set_image img) s) else (None, s)) (completed a strategy)) =
    run_deploys d (wd_calls s) (if p then [set_image img (deref s a)] else [])"
  using last_step_spec [of m "modify a (set_image img) s" a d True strategy] last_step_spec [OF assms, of False strategy] assms
  by simp

lemma executeABTest_spec:
  assumes "GetDriver (rm_scheduler m) (sp_Backend (wl_Spec (deref s a))) = Some d" "not_cost_aware (deref s a)" "a < wd_fresh s"
    and "rs_ABTestConfig (sp_RolloutStrategy (wl_Spec (deref s a))) = Some cfg"
  shows "outcome (executeABTest m a s) = run_deploys d (wd_calls s)
    ([variant_copy ''a'' (ab_VariantA cfg) (variantA_replicas cfg (deref s a)) (deref s a),
      variant_copy ''b'' (ab_VariantB cfg) (variantB_replicas cfg (deref s a)) (deref s a)] @
     (if ab_AutoSelectWinner cfg then [set_image (ab_VariantA cfg) (deref s a)] else []))"
proof -
  let ?w = "deref s a"
  let ?s = "publishEvent a WorkloadRolloutStarted [(''strategy'', AStr ''abtest''), (''variant_a'', AStr (ab_VariantA cfg)),
     (''variant_b'', AStr (ab_VariantB cfg)), (''traffic_split'', AI32 (ab_TrafficSplit cfg))] s"
  let ?A = "variant_copy ''a'' (ab_VariantA cfg) (variantA_replicas cfg ?w) ?w"
  let ?B = "variant_copy ''b'' (ab_VariantB cfg) (variantB_replicas cfg ?w) ?w"
  let ?fin = "\<lambda>s3. and_then (if ab_AutoSelectWinner cfg then rollout_step m a a ''abtest'' (modify a (set_image (ab_VariantA cfg)) s3)
     else (None, s3)) (completed a ''abtest'')"
  let ?second = "\<lambda>s2. and_then (schedule_copy m a (variant_copy ''b'' (ab_VariantB cfg) (variantB_replicas cfg ?w) (deref s2 a)) ''abtest'' s2) ?fin"
  let ?r = "schedule_copy m a ?A ''abtest'' ?s"
  have r: "outcome ?r = run_deploys d (wd_calls s) [?A]" "deref (snd ?r) a = ?w" "wd_fresh (snd ?r) = Suc (wd_fresh s)"
    using schedule_copy_spec [of m ?A d a ?s "''abtest''"] assms(1-3) by simp_all
  have fin: "outcome (?fin s3) = run_deploys d (wd_calls s3) (if ab_AutoSelectWinner cfg then [set_image (ab_VariantA cfg) ?w] else [])"
    if "deref s3 a = ?w" for s3
    using winner_spec [of m s3 a d] that assms(1,2) by simp
  have second: "outcome (?second s2) = run_deploys d (wd_calls s2) ([?B] @ (if ab_AutoSelectWinner cfg then [set_image (ab_VariantA cfg) ?w] else []))"
    if s2: "deref s2 a = ?w" "a < wd_fresh s2" for s2
  proof (rule outcome_and_then)
    show "outcome (schedule_copy m a (variant_copy ''b'' (ab_VariantB cfg) (variantB_replicas cfg ?w) (deref s2 a)) ''abtest'' s2) =
        run_deploys d (wd_calls s2) [?B]"
      using schedule_copy_spec(1) [of m ?B d a s2 "''abtest''"] s2 assms(1,2) by simp
    fix s3 assume "schedule_copy m a (variant_copy ''b'' (ab_VariantB cfg) (variantB_replicas cfg ?w) (deref s2 a)) ''abtest'' s2 = (None, s3)"
    then have "deref s3 a = ?w" using schedule_copy_spec(2) [of m ?B d a s2 "''abtest''"] s2 assms(1,2) by simp
    then show "outcome (?fin s3) = run_deploys d (wd_calls s3) (if ab_AutoSelectWinner cfg then [set_image (ab_VariantA cfg) ?w] else [])"
      by (rule fin)
  qed
  have "outcome (and_then ?r ?second) = run_deploys d (wd_calls s) ([?A] @ [?B] @ (if ab_AutoSelectWinner cfg then [set_image (ab_VariantA cfg) ?w] else []))"
    using r assms(3) by (intro outcome_and_then second) auto
  then show ?thesis using assms(4) by (simp add: executeABTest_def Let_def)
qed

text \<open>
  C14. A rollout makes exactly the deployments of its strategy: when the health gate blocks it
  fails without any driver call; an unknown strategy or a missing configuration fails the
  same way; otherwise the workloads of the strategy (the canary copy and, with automatic
  promotion, the workload; both variants and, with a chosen winner, the workload with the
  winning image; or just the workload) are deployed in order on the driver of the backend
  up to the first refusal, and the rollout succeeds exactly when all are accepted.
\<close>

theorem rollout_makes_exactly_its_deployments:
  assumes "GetDriver (rm_scheduler m) (sp_Backend (wl_Spec (deref s a))) = Some d" "not_cost_aware (deref s a)" "a < wd_fresh s"
  shows "(wd_calls (snd (ExecuteRollout m a s)), fst (ExecuteRollout m a s) = None) =
    (if case rm_healthGate m of None \<Rightarrow> False | Some e \<Rightarrow> hs_Blocked (fst (EvaluateHealthGates e a s)) then (wd_calls s, False)
     else case strategy_deploys (deref s a) of None \<Rightarrow> (wd_calls s, False) | Some ws \<Rightarrow> run_deploys d (wd_calls s) ws)"
proof -
  have strategy: "outcome (execute_strategy m a s') =
      (case strategy_deploys (deref s' a) of None \<Rightarrow> (wd_calls s', False) | Some ws \<Rightarrow> run_deploys d (wd_calls s') ws)"
    if "GetDriver (rm_scheduler m) (sp_Backend (wl_Spec (deref s' a))) = Some d" "not_cost_aware (deref s' a)" "a < wd_fresh s'" for s'
    using schedule_now_spec(1) [OF that(1,2)] executeCanary_spec [OF that] executeABTest_spec [OF that]
    by (auto simp: execute_strategy_def strategy_deploys_def executeRollingUpdate_def executeRecreate_def executeBlueGreen_def
        Let_def outcome_def executeCanary_def executeABTest_def split: option.split simp del: run_deploys.simps)
  show ?thesis
  proof (cases "rm_healthGate m")
    case None
    then show ?thesis using strategy [OF assms] by (simp add: ExecuteRollout_def outcome_def)
  next
    case (Some e)
    obtain st s1 where ev: "EvaluateHealthGates e a s = (st, s1)" by fastforce
    then have "same_world s s1" using EvaluateHealthGates_same [of s e a] by simp
    then show ?thesis using strategy [of s1] assms ev Some
      by (auto simp: ExecuteRollout_def outcome_def same_world_def cong: option.case_cong)
  qed
qed

definition accepting_driver :: RuntimeDriver where
  "accepting_driver = \<lparr>drv_Name = ''docker'', drv_Deploy = (\<lambda>_ _. None), drv_Update = (\<lambda>_ _. None), drv_Delete = (\<lambda>_ _. None),
     drv_GetStatus = (\<lambda>_ _. Ok zero_status), drv_Restart = (\<lambda>_ _. None)\<rparr>"

definition demo_scheduler :: Scheduler where
  "demo_scheduler = RegisterDriver accepting_driver (scheduler_New DefaultCostProvider DefaultNodeRegistry (\<lambda>_. Ok NaN))"

definition abtest_workload :: Workload where
  "abtest_workload = zero_workload\<lparr>wl_ID := ''w'', wl_Spec := zero_spec\<lparr>sp_Backend := ''docker'', sp_Replicas := 7,
     sp_RolloutStrategy := zero_strategy\<lparr>rs_Type := ''abtest'', rs_ABTestConfig := Some \<lparr>ab_VariantA = ''a:1'', ab_VariantB = ''b:2'',
       ab_TrafficSplit = 30, ab_AnalysisDuration = [], ab_Metrics = [], ab_AutoSelectWinner = True\<rparr>\<rparr>\<rparr>\<rparr>"

theorem rollout_makes_exactly_its_deployments_witness:
  "map (\<lambda>(d, c). case c of CallDeploy w \<Rightarrow> (d, sp_Image (wl_Spec w), sint (sp_Replicas (wl_Spec w))) | _ \<Rightarrow> (d, [], 0))
     (wd_calls (snd (ExecuteRollout \<lparr>rm_scheduler = demo_scheduler, rm_healthGate = None\<rparr> 0
        ((empty_world (eventsourcing_New True 0))\<lparr>wd_heap := \<lambda>_. abtest_workload, wd_fresh := 5\<rparr>)))) =
   [(''docker'', ''a:1'', 5), (''docker'', ''b:2'', 2), (''docker'', ''a:1'', 7)]"
proof -
  let ?m = "\<lparr>rm_scheduler = demo_scheduler, rm_healthGate = None\<rparr>"
  let ?s = "(empty_world (eventsourcing_New True 0))\<lparr>wd_heap := \<lambda>_. abtest_workload, wd_fresh := 5\<rparr>"
  have d: "GetDriver (rm_scheduler ?m) (sp_Backend (wl_Spec (deref ?s 0))) = Some accepting_driver"
    by (simp add: GetDriver_def demo_scheduler_def RegisterDriver_def scheduler_New_def accepting_driver_def abtest_workload_def)
  have n: "not_cost_aware (deref ?s 0)" "(0 :: addr) < wd_fresh ?s" by (simp_all add: not_cost_aware_def abtest_workload_def zero_defs)
  have "sint (variantB_replicas cfg abtest_workload) = 2" "sint (variantA_replicas cfg abtest_workload) = 5"
    if "ab_TrafficSplit cfg = 30" for cfg
    using that by (simp_all add: variantA_replicas_def variantB_replicas_def abtest_workload_def i32_div_def)
  then show ?thesis
    using rollout_makes_exactly_its_deployments [OF d n]
    by (simp add: strategy_deploys_def abtest_workload_def variant_copy_def set_image_def accepting_driver_def empty_world_def Let_def)
qed

section \<open>Replica arithmetic\<close>

lemma abtest_split_is_exact: "variantA_replicas cfg w + variantB_replicas cfg w = sp_Replicas (wl_Spec w)"
  by (simp add: variantA_replicas_def)

lemma canary_percentage_overflows:
  \<comment> \<open>the product is computed in 32 bits before the division\<close>
  assumes "sp_Replicas (wl_Spec w) = 30000000" "cc_Percentage cfg = 100"
  shows "sint (canary_replicas cfg w) = - 12949672"
  using assms by (simp add: canary_replicas_def i32_div_def)

end
