(* ===== verification/Autoscaler.thy ===== *)
theory Autoscaler
  imports StateStore
begin

text \<open>
  \<open>internal/autoscaler/autoscaler.go\<close>: replica scaling from utilisation metrics. The metrics
  provider is an interface; the default implementation of the source is an instance. A
  metric is a \<open>float64\<close>; half of an integer target is exact in it. Replica counts are
  \<open>int32\<close>. \<open>Start\<close> only repeats \<open>checkAllWorkloads\<close> on a ticker.

  The lemmas: a decision moves the count by one step inside the configured bounds or not at
  all, whatever the metrics say, and the history gets one entry per change.
\<close>

record MetricsProvider =
  mp_GetCPUUtilization :: "string \<Rightarrow> (error, float64) result"
  mp_GetMemoryUtilization :: "string \<Rightarrow> (error, float64) result"
  mp_GetCustomMetric :: "string \<Rightarrow> string \<Rightarrow> (error, float64) result"

definition DefaultMetricsProvider :: MetricsProvider where
  "DefaultMetricsProvider = \<lparr>mp_GetCPUUtilization = (\<lambda>_. Ok (Fin 50)), mp_GetMemoryUtilization = (\<lambda>_. Ok (Fin 50)),
     mp_GetCustomMetric = (\<lambda>_ _. Ok (Fin 50))\<rparr>"

record Autoscaler =
  au_store :: Store
  au_metricsProvider :: MetricsProvider
  au_checkInterval :: int

definition autoscaler_New :: "int \<Rightarrow> Store \<Rightarrow> MetricsProvider \<Rightarrow> Autoscaler" where
  \<comment> \<open>the interval is the only field of the configuration\<close>
  "autoscaler_New checkInterval store metricsProvider =
     \<lparr>au_store = store, au_metricsProvider = metricsProvider, au_checkInterval = checkInterval\<rparr>"

definition min_i32 :: "int32 \<Rightarrow> int32 \<Rightarrow> int32" where
  "min_i32 a b = (if sint a < sint b then a else b)"

definition max_i32 :: "int32 \<Rightarrow> int32 \<Rightarrow> int32" where
  "max_i32 a b = (if sint a > sint b then a else b)"

definition scale_up :: "AutoScalingConfig \<Rightarrow> int32 \<Rightarrow> int32 option" where
  "scale_up cfg cur = (let n = min_i32 (as_MaxReplicas cfg) (cur + 1) in if sint n > sint cur then Some n else None)"

definition scale_down :: "AutoScalingConfig \<Rightarrow> int32 \<Rightarrow> int32 option" where
  "scale_down cfg cur = (let n = max_i32 (as_MinReplicas cfg) (cur - 1) in if sint n < sint cur then Some n else None)"

definition utilization_decision :: "AutoScalingConfig \<Rightarrow> int32 \<Rightarrow> int32 \<Rightarrow> float64 \<Rightarrow> int32 option" where
  \<comment> \<open>one of the two utilisation blocks; \<open>None\<close> falls through\<close>
  "utilization_decision cfg target cur util =
     (if f64_lt (Fin (of_int (sint target))) util then scale_up cfg cur
      else if f64_lt util (Fin (of_int (sint target) / 2)) then scale_down cfg cur
      else None)"

fun custom_decision :: "MetricsProvider \<Rightarrow> AutoScalingConfig \<Rightarrow> string \<Rightarrow> int32 \<Rightarrow> CustomMetric list \<Rightarrow> (int32 \<times> CustomMetric) option" where
  "custom_decision mp cfg i cur [] = None"
| "custom_decision mp cfg i cur (metric # metrics) = (case mp_GetCustomMetric mp i (cm_MetricName metric) of
     Inl _ \<Rightarrow> custom_decision mp cfg i cur metrics
   | Inr v \<Rightarrow>
       if f64_lt (Fin 100) v
       then (case scale_up cfg cur of Some n \<Rightarrow> Some (n, metric) | None \<Rightarrow> custom_decision mp cfg i cur metrics)
       else custom_decision mp cfg i cur metrics)"

definition scaling_message :: "int32 \<Rightarrow> int32 \<Rightarrow> gotext \<Rightarrow> gotext" where
  "scaling_message old new reason = Sprintf ''Scaled from %d to %d replicas: %s'' [Num (sint old), Num (sint new), reason]"

definition scaleWorkload :: "Store \<Rightarrow> addr \<Rightarrow> int32 \<Rightarrow> gotext \<Rightarrow> world \<Rightarrow> error option \<times> world" where
  "scaleWorkload st a newReplicas reason s =
     (let oldReplicas = sp_Replicas (wl_Spec (deref s a));
          (now, s1) = time_Now s;
          s2 = modify a (\<lambda>w. w\<lparr>wl_Spec := (wl_Spec w)\<lparr>sp_Replicas := newReplicas\<rparr>, wl_UpdatedAt := now\<rparr>) s1
      in case store_Update st a s2 of
           (Some err, s3) \<Rightarrow> (Some (Wrapf ''failed to update workload replicas: %w'' [] err), s3)
         | (None, s3) \<Rightarrow>
             let (now2, s4) = time_Now s3
             in (None, modify a (\<lambda>w. w\<lparr>wl_History := wl_History w @ [\<lparr>tr_FromPhase = phase w, tr_ToPhase = phase w,
                   tr_Timestamp = now2, tr_Reason = ''AutoScaling'',
                   tr_Message = scaling_message oldReplicas newReplicas reason\<rparr>]\<rparr>) s4))"

definition metric_reason :: "string \<Rightarrow> int32 \<Rightarrow> int32 \<Rightarrow> gotext" where
  "metric_reason metric cur new =
     Str (metric @ (if sint new > sint cur then '' utilization above target'' else '' utilization below target''))"

definition utilization_check ::
  "(string \<Rightarrow> (error, float64) result) \<Rightarrow> string \<Rightarrow> AutoScalingConfig \<Rightarrow> int32 \<Rightarrow> Workload \<Rightarrow> (error, int32 option) result" where
  "utilization_check getMetric failed cfg target w =
     (if sint target > 0
      then (case getMetric (wl_ID w) of
              Inl err \<Rightarrow> Err (Wrapf failed [] err)
            | Inr util \<Rightarrow> Ok (utilization_decision cfg target (sp_Replicas (wl_Spec w)) util))
      else Ok None)"

definition evaluateScaling :: "MetricsProvider \<Rightarrow> Store \<Rightarrow> AutoScalingConfig \<Rightarrow> addr \<Rightarrow> world \<Rightarrow> error option \<times> world" where
  "evaluateScaling mp st cfg a s =
     (let w = deref s a; cur = sp_Replicas (wl_Spec w)
      in case utilization_check (mp_GetCPUUtilization mp) ''failed to get CPU utilization: %w'' cfg (as_TargetCPUUtilization cfg) w of
           Inl err \<Rightarrow> (Some err, s)
         | Inr (Some n) \<Rightarrow> scaleWorkload st a n (metric_reason ''CPU'' cur n) s
         | Inr None \<Rightarrow>
             (case utilization_check (mp_GetMemoryUtilization mp) ''failed to get memory utilization: %w'' cfg (as_TargetMemoryUtilization cfg) w of
                Inl err \<Rightarrow> (Some err, s)
              | Inr (Some n) \<Rightarrow> scaleWorkload st a n (metric_reason ''Memory'' cur n) s
              | Inr None \<Rightarrow>
                  (case custom_decision mp cfg (wl_ID w) cur (as_CustomMetrics cfg) of
                     Some (n, metric) \<Rightarrow> scaleWorkload st a n (Sprintf ''Custom metric %s above threshold'' [Str (cm_Name metric)]) s
                   | None \<Rightarrow> (None, s))))"

fun autoscale_loop :: "MetricsProvider \<Rightarrow> Store \<Rightarrow> addr list \<Rightarrow> world \<Rightarrow> world" where
  "autoscale_loop mp st [] s = s"
| "autoscale_loop mp st (a # as) s = autoscale_loop mp st as
     (case sp_AutoScaling (wl_Spec (deref s a)) of
        None \<Rightarrow> s
      | Some cfg \<Rightarrow> if as_Enabled cfg then snd (evaluateScaling mp st cfg a s) else s)"

definition checkAllWorkloads :: "MetricsProvider \<Rightarrow> Store \<Rightarrow> world \<Rightarrow> world" where
  "checkAllWorkloads mp st s = (case store_List st [] s of
     (Inl err, s1) \<Rightarrow> s1
   | (Inr workloads, s1) \<Rightarrow> autoscale_loop mp st workloads s1)"

section \<open>One step inside the bounds\<close>

definition step_in_bounds :: "AutoScalingConfig \<Rightarrow> int32 \<Rightarrow> int32 \<Rightarrow> bool" where
  "step_in_bounds cfg cur n \<longleftrightarrow>
     sint n = sint cur + 1 \<and> sint n \<le> sint (as_MaxReplicas cfg) \<or>
     sint n = sint cur - 1 \<and> sint (as_MinReplicas cfg) \<le> sint n"

lemma scale_up_step:
  assumes "scale_up cfg cur = Some n"
  shows "step_in_bounds cfg cur n"
proof -
  have n: "n = min_i32 (as_MaxReplicas cfg) (cur + 1)" "sint cur < sint n"
    using assms by (auto simp: scale_up_def Let_def split: if_splits)
  then have "sint cur < 2 ^ 31 - 1" using sint32_bounds(2) [of n] by simp
  from sint32_inc [OF this] show ?thesis using n by (auto simp: min_i32_def step_in_bounds_def split: if_splits)
qed

lemma scale_down_step:
  assumes "scale_down cfg cur = Some n"
  shows "step_in_bounds cfg cur n"
proof -
  have n: "n = max_i32 (as_MinReplicas cfg) (cur - 1)" "sint n < sint cur"
    using assms by (auto simp: scale_down_def Let_def split: if_splits)
  have "sint (cur - 1) = sint cur - 1"
    using sint32_sub [of cur 1] sint32_bounds [of cur] sint32_bounds(1) [of n] n(2) by simp
  then show ?thesis using n by (auto simp: max_i32_def step_in_bounds_def split: if_splits)
qed

lemma custom_decision_step: "custom_decision mp cfg i cur ms = Some (n, m) \<Longrightarrow> step_in_bounds cfg cur n"
  by (induction ms) (auto split: sum.splits if_splits option.splits intro: scale_up_step)

lemma utilization_check_step:
  "utilization_check f msg cfg target w = Inr (Some n) \<Longrightarrow> step_in_bounds cfg (sp_Replicas (wl_Spec w)) n"
  by (auto simp: utilization_check_def utilization_decision_def split: if_splits sum.splits intro: scale_up_step scale_down_step)

lemma evaluateScaling_cases:
  obtains (scaled) n reason where "evaluateScaling mp st cfg a s = scaleWorkload st a n reason s"
      "step_in_bounds cfg (sp_Replicas (wl_Spec (deref s a))) n"
  | (unchanged) e where "evaluateScaling mp st cfg a s = (e, s)"
proof (cases "utilization_check (mp_GetCPUUtilization mp) ''failed to get CPU utilization: %w'' cfg (as_TargetCPUUtilization cfg) (deref s a)")
  case (Inl err)
  then show thesis using unchanged by (simp add: evaluateScaling_def Let_def)
next
  case cpu: (Inr d)
  show thesis
  proof (cases d)
    case (Some n)
    then show thesis using cpu scaled utilization_check_step [of _ _ _ _ _ n] by (simp add: evaluateScaling_def Let_def)
  next
    case None
    note cpu_none = cpu [unfolded None]
    show thesis
    proof (cases "utilization_check (mp_GetMemoryUtilization mp) ''failed to get memory utilization: %w'' cfg (as_TargetMemoryUtilization cfg) (deref s a)")
      case (Inl err)
      then show thesis using unchanged cpu_none by (simp add: evaluateScaling_def Let_def)
    next
      case (Inr d2)
      then show thesis
        using cpu_none unchanged scaled utilization_check_step custom_decision_step
        by (cases d2; cases "custom_decision mp cfg (wl_ID (deref s a)) (sp_Replicas (wl_Spec (deref s a))) (as_CustomMetrics cfg)")
          (auto simp: evaluateScaling_def Let_def)
    qed
  qed
qed

lemma scaleWorkload_in_place:
  assumes "mem_stored s (wl_ID (deref s a)) = Some a"
  shows "\<exists>s'. scaleWorkload (NewVersionedStore MemStore k) a n reason s = (None, s') \<and> mem_stored s' = mem_stored s \<and>
    wl_Spec (deref s' a) = (wl_Spec (deref s a))\<lparr>sp_Replicas := n\<rparr> \<and> wl_ID (deref s' a) = wl_ID (deref s a) \<and>
    phase (deref s' a) = phase (deref s a) \<and>
    length (wl_History (deref s' a)) = Suc (length (wl_History (deref s a))) \<and> wd_calls s' = wd_calls s"
proof -
  let ?now = "wd_clock s (wd_ticks s)"
  let ?s2 = "modify a (\<lambda>w. w\<lparr>wl_Spec := (wl_Spec w)\<lparr>sp_Replicas := n\<rparr>, wl_UpdatedAt := ?now\<rparr>) (snd (time_Now s))"
  have k: "mem_stored ?s2 (wl_ID (deref ?s2 a)) = Some a" using assms by (simp add: mem_stored_def)
  obtain s3 where s3: "store_Update (NewVersionedStore MemStore k) a ?s2 = (None, s3)" "mem_stored s3 = mem_stored ?s2"
    using versioned_Update_in_place [OF k, of k] by auto
  have frame: "store_frame ?s2 s3" using vs.Update_frame [of ?s2 k a] s3(1) by simp
  note core = core_of_eqD [OF store_frame_core [OF frame, of a]]
  have now: "time_Now s = (?now, snd (time_Now s))" by (simp add: time_Now_def)
  have eq: "scaleWorkload (NewVersionedStore MemStore k) a n reason s = (let (now2, s4) = time_Now s3 in
      (None, modify a (\<lambda>w. w\<lparr>wl_History := wl_History w @ [\<lparr>tr_FromPhase = phase w, tr_ToPhase = phase w,
         tr_Timestamp = now2, tr_Reason = ''AutoScaling'',
         tr_Message = scaling_message (sp_Replicas (wl_Spec (deref s a))) n reason\<rparr>]\<rparr>) s4))"
    unfolding scaleWorkload_def Let_def by (subst now) (simp only: prod.case s3(1) option.case)
  have "wd_calls s3 = wd_calls s" using frame by (simp add: store_frame_def)
  then show ?thesis
    using core(1,4,6,7) s3(2) unfolding eq by (simp add: split_beta Let_def mem_stored_def)
qed


definition busy_metrics :: MetricsProvider where
  "busy_metrics = DefaultMetricsProvider\<lparr>mp_GetCPUUtilization := (\<lambda>_. Ok (Fin 90))\<rparr>"

definition demo_scaling :: AutoScalingConfig where
  "demo_scaling = \<lparr>as_Enabled = True, as_MinReplicas = 1, as_MaxReplicas = 3, as_TargetCPUUtilization = 70,
     as_TargetMemoryUtilization = 0, as_CustomMetrics = [], as_ScaleDownCooldownSeconds = 0, as_ScaleUpCooldownSeconds = 0\<rparr>"


end
