(* ===== verification/Reconciler.thy ===== *)
theory Reconciler
  imports Policy Quota Cron SecretRotation WarmStandby Rollout
begin

text \<open>
  \<open>internal/reconciler/reconciler.go\<close> and the controller registry of
  \<open>internal/plugin/controller.go\<close>: one pass over the stored workloads, each taken through
  the custom controllers, policy, quota, circuit breaker and standby, secret rotation, cron
  and finally the rollout. A custom controller is code outside the repository and may do
  anything to the world; it is a parameter. The registry of secret references is threaded
  beside the world. \<open>Start\<close> and \<open>Stop\<close> only repeat \<open>reconcileAll\<close> on a ticker and start
  the background engines.

  The lemmas: a pass takes every listed workload once, by descending priority; a workload
  that policy or quota rejects never reaches the runtime; a failing workload is counted twice
  per pass by its circuit breaker. Theory \<open>Equipped\<close> shows that an admitted pending workload is
  deployed once.
\<close>

section \<open>Controllers\<close>

record Controller =
  ct_Name :: string
  ct_Reconcile :: "addr \<Rightarrow> world \<Rightarrow> error option \<times> world"
  ct_ShouldHandle :: "Workload \<Rightarrow> bool"

definition plugin_NewRegistry :: "Controller list" where
  "plugin_NewRegistry = []"

definition plugin_Register :: "Controller \<Rightarrow> Controller list \<Rightarrow> Controller list" where
  "plugin_Register c cs = cs @ [c]"

definition GetControllers :: "Controller list \<Rightarrow> Controller list" where
  "GetControllers cs = cs"

definition GetControllersForWorkload :: "Controller list \<Rightarrow> Workload \<Rightarrow> Controller list" where
  "GetControllersForWorkload cs w = filter (\<lambda>c. ct_ShouldHandle c w) cs"

fun run_controllers :: "Controller list \<Rightarrow> addr \<Rightarrow> world \<Rightarrow> error option \<times> world" where
  "run_controllers [] a s = (None, s)"
| "run_controllers (c # cs) a s = (case ct_Reconcile c a s of
     (Some err, s1) \<Rightarrow> (Some err, s1)
   | (None, s1) \<Rightarrow> run_controllers cs a s1)"

section \<open>The engine\<close>

record 'q Reconciler =
  rec_store :: Store
  rec_scheduler :: Scheduler
  rec_controllers :: "Controller list"
  rec_rollout :: "RolloutManager option"
  rec_policy :: "PolicyConfig option"
  rec_quota :: "QuotaEngine option"
  rec_quantity :: "'q QuantityLib"
  rec_cron :: CronLib
  rec_circuit :: "CircuitConfig option"
  rec_standby :: "StandbyManager option"
  rec_secrets :: "SecretEngine option"

record Deps =
  dep_Policy :: "PolicyConfig option"
  dep_Quota :: "QuotaEngine option"
  dep_Cron :: CronLib
  dep_Circuit :: "CircuitConfig option"
  dep_Standby :: "StandbyManager option"
  dep_Secrets :: "SecretEngine option"

definition reconciler_New :: "Store \<Rightarrow> Scheduler \<Rightarrow> Controller list \<Rightarrow> RolloutManager option \<Rightarrow> 'q QuantityLib \<Rightarrow> Deps \<Rightarrow> 'q Reconciler" where
  \<comment> \<open>without the two loops it only starts; the evaluator \<open>dep_Cron\<close> has no state but its library\<close>
  "reconciler_New store sched controllerReg rolloutManager lib deps =
     \<lparr>rec_store = store, rec_scheduler = sched, rec_controllers = controllerReg, rec_rollout = rolloutManager,
      rec_policy = dep_Policy deps, rec_quota = dep_Quota deps, rec_quantity = lib, rec_cron = dep_Cron deps,
      rec_circuit = dep_Circuit deps, rec_standby = dep_Standby deps, rec_secrets = dep_Secrets deps\<rparr>"

definition policy_gate :: "'q Reconciler \<Rightarrow> addr \<Rightarrow> world \<Rightarrow> bool \<times> world" where
  "policy_gate e a s = (case rec_policy e of
     None \<Rightarrow> (True, s)
   | Some cfg \<Rightarrow> let (err, w) = policy_Validate cfg (rec_cron e) (deref s a) in (err = None, assign a w s))"

definition quota_gate :: "'q Reconciler \<Rightarrow> addr \<Rightarrow> world \<Rightarrow> bool \<times> world" where
  "quota_gate e a s = (case rec_quota e of
     None \<Rightarrow> (True, s)
   | Some q \<Rightarrow> let (err, s1) = quota_Enforce (rec_quantity e) q (rec_store e) a s in (err = None, s1))"

definition auto_promote :: "'q Reconciler \<Rightarrow> addr \<Rightarrow> gotime \<Rightarrow> world \<Rightarrow> world" where
  "auto_promote e a now s = (case rec_standby e of
     None \<Rightarrow> s
   | Some m \<Rightarrow>
       let (w, promote) = ShouldAutoPromote m (deref s a) now; s1 = assign a w s
       in if \<not> promote then s1
          else (case Promote m (rec_store e) a s1 of
                  (Inl err, s2) \<Rightarrow> s2
                | (Inr b, s2) \<Rightarrow>
                    let s3 = publish (workload_event WorkloadStandbyPromoted a) s2;
                        (_, s4) = Schedule (rec_scheduler e) b s3
                    in modify a (\<lambda>w. rescheduled w (sp_Scheduling (wl_Spec (deref s4 b)))) s4))"

definition circuit_stage :: "'q Reconciler \<Rightarrow> addr \<Rightarrow> gotime \<Rightarrow> world \<Rightarrow> world" where
  "circuit_stage e a now s = (case rec_circuit e of
     None \<Rightarrow> s
   | Some c \<Rightarrow>
       let (w, prev, cur) = SyncFromWorkload c (deref s a) now;
           s1 = snd (store_Update (rec_store e) a (assign a w s));
           s2 = (if prev \<noteq> cur \<and> cur = CircuitStateOpen then publish (workload_event WorkloadCircuitOpen a) s1 else s1);
           s3 = (if prev \<noteq> cur \<and> cur = CircuitStateClosed then publish (workload_event WorkloadCircuitClosed a) s2 else s2)
       in auto_promote e a now s3)"

definition standby_stage :: "'q Reconciler \<Rightarrow> addr \<Rightarrow> world \<Rightarrow> world" where
  "standby_stage e a s = (case rec_standby e of
     None \<Rightarrow> s
   | Some m \<Rightarrow>
       if standby_EnabledFor m (deref s a) \<and> phase (deref s a) = WorkloadPhaseRunning
       then snd (EnsureColdStandby m (rec_store e) a s) else s)"

definition restart_completed :: "Workload \<Rightarrow> Workload" where
  "restart_completed w = w\<lparr>wl_Status := (wl_Status w)\<lparr>st_SecretRotation := map_option
     (\<lambda>x. x\<lparr>srs_PendingRestart := False, srs_RestartCount := srs_RestartCount x + 1,
       srs_Message := ''rolling restart completed after secret rotation''\<rparr>) (st_SecretRotation (wl_Status w))\<rparr>\<rparr>"

definition restart_due :: "Workload \<Rightarrow> bool" where
  "restart_due w = ((case st_SecretRotation (wl_Status w) of None \<Rightarrow> False | Some x \<Rightarrow> srs_PendingRestart x) \<and>
     phase w = WorkloadPhaseRunning)"

definition secrets_stage :: "'q Reconciler \<Rightarrow> addr \<Rightarrow> SecretRegistry \<Rightarrow> world \<Rightarrow> SecretRegistry \<times> world" where
  "secrets_stage e a r s = (case rec_secrets e of
     None \<Rightarrow> (r, s)
   | Some se \<Rightarrow>
       let r1 = IndexWorkload se (deref s a) r
       in if \<not> restart_due (deref s a) then (r1, s)
          else (case RequestRollingRestart (rec_scheduler e) a s of
                  (Some err, s1) \<Rightarrow> (r1, s1)
                | (None, s1) \<Rightarrow>
                    let s2 = snd (store_Update (rec_store e) a (modify a restart_completed s1))
                    in (r1, publish (workload_event WorkloadRestartRequested a) s2)))"

datatype cron_verdict = CronError error | NotDue | Proceed bool

definition cron_stage :: "'q Reconciler \<Rightarrow> addr \<Rightarrow> world \<Rightarrow> cron_verdict \<times> world" where
  \<comment> \<open>\<open>Proceed\<close> carries \<open>cronTriggers\<close>\<close>
  "cron_stage e a s = (case sp_CronSchedule (wl_Spec (deref s a)) of
     None \<Rightarrow> (Proceed False, s)
   | Some spec \<Rightarrow>
       if cr_Suspended spec then (Proceed False, s)
       else
         let (now, s1) = time_Now s
         in case ShouldTriggerDeploy (rec_cron e) (deref s1 a) now of
              Inl err \<Rightarrow> (CronError err, s1)
            | Inr due \<Rightarrow> if due then (Proceed True, s1) else (NotDue, s1))"

definition mark_running :: "gotime \<Rightarrow> bool \<Rightarrow> Workload \<Rightarrow> Workload" where
  "mark_running now cronTriggers w =
     (let w1 = w\<lparr>wl_Status := (wl_Status w)\<lparr>st_Phase := WorkloadPhaseRunning, st_LastTransition := now\<rparr>\<rparr>
      in if cronTriggers \<and> sp_CronSchedule (wl_Spec w1) \<noteq> None
         then w1\<lparr>wl_Status := (wl_Status w1)\<lparr>st_Cron := Some \<lparr>cs_LastScheduleTime = Some now\<rparr>\<rparr>\<rparr> else w1)"

definition postSchedule :: "'q Reconciler \<Rightarrow> addr \<Rightarrow> bool \<Rightarrow> world \<Rightarrow> error option \<times> world" where
  "postSchedule e a cronTriggers s =
     (let (now, s1) = time_Now s
      in case store_Update (rec_store e) a (modify a (mark_running now cronTriggers) s1) of
           (Some err, s2) \<Rightarrow> (Some err, s2)
         | (None, s2) \<Rightarrow>
             let s3 = (if cronTriggers \<and> sp_CronSchedule (wl_Spec (deref s2 a)) \<noteq> None
                       then publish (workload_event WorkloadCronTriggered a) s2 else s2)
             in (None, publish (workload_event WorkloadScheduled a) s3))"

definition route_stage :: "'q Reconciler \<Rightarrow> addr \<Rightarrow> gotime \<Rightarrow> world \<Rightarrow> bool \<times> world" where
  "route_stage e a now s = (case rec_circuit e of
     None \<Rightarrow> (True, s)
   | Some c \<Rightarrow>
       let (wo, allow) = AllowRoute c (Some (deref s a)) now;
           s1 = assign a (case wo of None \<Rightarrow> deref s a | Some w \<Rightarrow> w) s
       in if allow then (True, modify a RecordRouteAttempt s1) else (False, s1))"

definition launch :: "'q Reconciler \<Rightarrow> addr \<Rightarrow> world \<Rightarrow> error option \<times> world" where
  "launch e a s = (case rec_rollout e of Some m \<Rightarrow> ExecuteRollout m a s | None \<Rightarrow> Schedule (rec_scheduler e) a s)"

definition deploy_stage :: "'q Reconciler \<Rightarrow> addr \<Rightarrow> bool \<Rightarrow> world \<Rightarrow> error option \<times> world" where
  "deploy_stage e a cronTriggers s =
     (if phase (deref s a) \<noteq> WorkloadPhasePending then (None, s)
      else
        (case launch e a s of
           (Some err, s1) \<Rightarrow> (Some err, s1)
         | (None, s1) \<Rightarrow> postSchedule e a cronTriggers s1))"

definition admitted_stages :: "'q Reconciler \<Rightarrow> addr \<Rightarrow> SecretRegistry \<Rightarrow> world \<Rightarrow> error option \<times> SecretRegistry \<times> world" where
  \<comment> \<open>\<open>reconcileOne\<close> after the quota check\<close>
  "admitted_stages e a r s =
     (let (now, s1) = time_Now s;
          s2 = standby_stage e a (circuit_stage e a now s1);
          (r1, s3) = secrets_stage e a r s2
      in case cron_stage e a s3 of
           (CronError err, s4) \<Rightarrow> (Some err, r1, s4)
         | (NotDue, s4) \<Rightarrow> (None, r1, s4)
         | (Proceed cronTriggers, s4) \<Rightarrow>
             (case route_stage e a now s4 of
                (False, s5) \<Rightarrow> (None, r1, s5)
              | (True, s5) \<Rightarrow> let (err, s6) = deploy_stage e a cronTriggers s5 in (err, r1, s6)))"

definition reconcileOne :: "'q Reconciler \<Rightarrow> addr \<Rightarrow> SecretRegistry \<Rightarrow> world \<Rightarrow> error option \<times> SecretRegistry \<times> world" where
  "reconcileOne e a r s =
     (case run_controllers (GetControllersForWorkload (rec_controllers e) (deref s a)) a s of
        (Some err, s1) \<Rightarrow> (Some err, r, s1)
      | (None, s1) \<Rightarrow>
          (case policy_gate e a s1 of
             (False, s2) \<Rightarrow> (None, r, s2)
           | (True, s2) \<Rightarrow>
               (case quota_gate e a s2 of
                  (False, s3) \<Rightarrow> (None, r, s3)
                | (True, s3) \<Rightarrow> admitted_stages e a r s3)))"

definition reconcile_order :: "world \<Rightarrow> addr list \<Rightarrow> addr list" where
  \<comment> \<open>\<open>sort.SliceStable\<close> by descending rank\<close>
  "reconcile_order s as = sort_key (\<lambda>a. - WorkloadSchedulingRank (deref s a)) as"

fun reconcile_loop :: "'q Reconciler \<Rightarrow> addr list \<Rightarrow> SecretRegistry \<Rightarrow> world \<Rightarrow> SecretRegistry \<times> world" where
  "reconcile_loop e [] r s = (r, s)"
| "reconcile_loop e (a # as) r s = (case reconcileOne e a r s of (_, r1, s1) \<Rightarrow> reconcile_loop e as r1 s1)"

definition reconcileAll :: "'q Reconciler \<Rightarrow> SecretRegistry \<Rightarrow> world \<Rightarrow> SecretRegistry \<times> world" where
  "reconcileAll e r s = (case store_List (rec_store e) [] s of
     (Inl err, s1) \<Rightarrow> (r, s1)
   | (Inr workloads, s1) \<Rightarrow> reconcile_loop e (reconcile_order s1 workloads) r s1)"

section \<open>Order of a pass\<close>

lemma sorted_reconcile_order:
  "sorted_wrt (\<lambda>a b. WorkloadSchedulingRank (deref s a) \<ge> WorkloadSchedulingRank (deref s b)) (reconcile_order s as)"
proof -
  have "sorted (map (\<lambda>a. - WorkloadSchedulingRank (deref s a)) (reconcile_order s as))"
    unfolding reconcile_order_def by (rule sorted_sort_key)
  then show ?thesis by (simp add: sorted_map)
qed

lemma mset_reconcile_order: "mset (reconcile_order s as) = mset as"
  by (simp add: reconcile_order_def)

lemma filter_reconcile_order:
  "filter (\<lambda>a. WorkloadSchedulingRank (deref s a) = k) (reconcile_order s as) =
     filter (\<lambda>a. WorkloadSchedulingRank (deref s a) = k) as"
  using sort_key_stable [of "\<lambda>a. - WorkloadSchedulingRank (deref s a)" "- k" as] by (simp add: reconcile_order_def)


section \<open>Admission\<close>

definition admitted_workload :: "'q Reconciler \<Rightarrow> Workload \<Rightarrow> Workload" where
  \<comment> \<open>the workload as policy validation leaves it\<close>
  "admitted_workload e w = (case rec_policy e of None \<Rightarrow> w | Some cfg \<Rightarrow> snd (policy_Validate cfg (rec_cron e) w))"

definition policy_accepts :: "'q Reconciler \<Rightarrow> Workload \<Rightarrow> bool" where
  "policy_accepts e w = (case rec_policy e of None \<Rightarrow> True | Some cfg \<Rightarrow> policy_ok cfg (rec_cron e) w)"

definition quota_accepts :: "'q Reconciler \<Rightarrow> addr \<Rightarrow> world \<Rightarrow> bool" where
  "quota_accepts e a s = (case rec_quota e of None \<Rightarrow> True
     | Some q \<Rightarrow> fst (quota_Enforce (rec_quantity e) q (rec_store e) a s) = None)"

lemma policy_gate_eq: "policy_gate e a s = (policy_accepts e (deref s a), assign a (admitted_workload e (deref s a)) s)"
  by (simp add: policy_gate_def policy_accepts_def admitted_workload_def policy_Validate_None split_beta Let_def assign_def split: option.split)

lemma quota_gate_eq:
  assumes "mem_valid s" "rec_store e = NewVersionedStore MemStore n"
  shows "quota_gate e a s = (quota_accepts e a s, s)"
  using assms(2) by (simp add: quota_gate_def quota_accepts_def split_beta Let_def vs.quota_Enforce_unchanged [OF assms(1)] split: option.split)

lemma mem_valid_assign [simp]: "mem_valid (assign a w s) = mem_valid s"
  by (simp add: mem_valid_def)

lemma reconcileOne_admission:
  assumes "mem_valid s" "rec_store e = NewVersionedStore MemStore n" "rec_controllers e = []"
  shows "reconcileOne e a r s =
    (let s' = assign a (admitted_workload e (deref s a)) s
     in if policy_accepts e (deref s a) \<and> quota_accepts e a s' then admitted_stages e a r s' else (None, r, s'))"
  using assms by (simp add: reconcileOne_def GetControllersForWorkload_def policy_gate_eq quota_gate_eq [OF _ assms(2)] Let_def
      split: bool.split)

lemma default_limits_backend [simp, frame_simps]:
  "sp_Backend (wl_Spec (default_limits cfg w)) = sp_Backend (wl_Spec w)"
  "sp_RolloutStrategy (wl_Spec (default_limits cfg w)) = sp_RolloutStrategy (wl_Spec w)"
  "sp_WarmStandby (wl_Spec (default_limits cfg w)) = sp_WarmStandby (wl_Spec w)"
  "sp_HealthGate (wl_Spec (default_limits cfg w)) = sp_HealthGate (wl_Spec w)"
  "sp_SecretRotation (wl_Spec (default_limits cfg w)) = sp_SecretRotation (wl_Spec w)"
  by (simp_all add: default_limits_def Let_def)

lemma admitted_workload_frame [simp, frame_simps]:
  "wl_ID (admitted_workload e w) = wl_ID w" "phase (admitted_workload e w) = phase w"
  "wl_Status (admitted_workload e w) = wl_Status w"
  "sp_Backend (wl_Spec (admitted_workload e w)) = sp_Backend (wl_Spec w)"
  "sp_RolloutStrategy (wl_Spec (admitted_workload e w)) = sp_RolloutStrategy (wl_Spec w)"
  "sp_Scheduling (wl_Spec (admitted_workload e w)) = sp_Scheduling (wl_Spec w)"
  "sp_CronSchedule (wl_Spec (admitted_workload e w)) = sp_CronSchedule (wl_Spec w)"
  "sp_CircuitBreaker (wl_Spec (admitted_workload e w)) = sp_CircuitBreaker (wl_Spec w)"
  "sp_WarmStandby (wl_Spec (admitted_workload e w)) = sp_WarmStandby (wl_Spec w)"
  "sp_HealthGate (wl_Spec (admitted_workload e w)) = sp_HealthGate (wl_Spec w)"
  "sp_SecretRotation (wl_Spec (admitted_workload e w)) = sp_SecretRotation (wl_Spec w)"
  "wl_Namespace (admitted_workload e w) = wl_Namespace w"
  by (simp_all add: admitted_workload_def policy_Validate_def Let_def split: option.split)


section \<open>Deployment\<close>

definition plain_rollout :: "'q Reconciler \<Rightarrow> addr \<Rightarrow> world \<Rightarrow> bool" where
  \<comment> \<open>no gate blocks and the strategy deploys just the workload\<close>
  "plain_rollout e a s = (case rec_rollout e of
     None \<Rightarrow> True
   | Some m \<Rightarrow> rm_scheduler m = rec_scheduler e \<and> (rm_healthGate m = None \<or> enabled_gate (deref s a) = None) \<and>
       rs_Type (sp_RolloutStrategy (wl_Spec (deref s a))) \<in> {[], ''rolling'', ''recreate'', ''bluegreen''})"

lemma launch_spec:
  assumes "GetDriver (rec_scheduler e) (sp_Backend (wl_Spec (deref s a))) = Some d" "not_cost_aware (deref s a)" "plain_rollout e a s"
  shows "outcome (launch e a s) = run_deploys d (wd_calls s) [deref s a]"
    "wd_heap (snd (launch e a s)) = wd_heap s" "wd_mem (snd (launch e a s)) = wd_mem s"
proof (atomize (full), cases "rec_rollout e")
  case None
  then show "outcome (launch e a s) = run_deploys d (wd_calls s) [deref s a] \<and>
      wd_heap (snd (launch e a s)) = wd_heap s \<and> wd_mem (snd (launch e a s)) = wd_mem s"
    by (simp add: launch_def Schedule_plain [OF assms(1,2)] outcome_def Let_def)
next
  case (Some m)
  then have m: "rm_scheduler m = rec_scheduler e" using assms(3) by (simp add: plain_rollout_def)
  define s0 where "s0 = (if rm_healthGate m = None then s else snd (time_Now s))"
  have s0: "wd_heap s0 = wd_heap s" "wd_mem s0 = wd_mem s" "wd_calls s0 = wd_calls s" by (simp_all add: s0_def)
  have "launch e a s = execute_strategy m a s0"
    using Some assms(3)
    by (auto simp: launch_def plain_rollout_def ExecuteRollout_def s0_def EvaluateHealthGates_disabled gate_status_def split: option.splits)
  then have "\<exists>strategy. launch e a s = schedule_now m a strategy s0"
    using Some assms(3) s0(1) by (auto simp: plain_rollout_def execute_strategy_def executeRollingUpdate_def executeRecreate_def executeBlueGreen_def)
  then show "outcome (launch e a s) = run_deploys d (wd_calls s) [deref s a] \<and>
      wd_heap (snd (launch e a s)) = wd_heap s \<and> wd_mem (snd (launch e a s)) = wd_mem s"
    using schedule_now_spec [of m s0 a d] assms(1,2) m s0 by auto
qed

lemma mark_running_frame [simp, frame_simps]:
  "wl_ID (mark_running now c w) = wl_ID w" "wl_Spec (mark_running now c w) = wl_Spec w"
  "phase (mark_running now c w) = WorkloadPhaseRunning"
  "st_CircuitBreaker (wl_Status (mark_running now c w)) = st_CircuitBreaker (wl_Status w)"
  "st_SecretRotation (wl_Status (mark_running now c w)) = st_SecretRotation (wl_Status w)"
  by (simp_all add: mark_running_def Let_def)

lemma postSchedule_spec:
  assumes "mem_stored s (wl_ID (deref s a)) = Some a" "rec_store e = NewVersionedStore MemStore n"
  obtains s' where "postSchedule e a c s = (None, s')" "mem_stored s' = mem_stored s" "wd_calls s' = wd_calls s"
    "phase (deref s' a) = WorkloadPhaseRunning" "wl_ID (deref s' a) = wl_ID (deref s a)" "wl_Spec (deref s' a) = wl_Spec (deref s a)"
    "\<And>b. b \<noteq> a \<Longrightarrow> deref s' b = deref s b" "mem_valid s \<Longrightarrow> mem_valid s'"
    "st_CircuitBreaker (wl_Status (deref s' a)) = st_CircuitBreaker (wl_Status (deref s a))"
    "st_SecretRotation (wl_Status (deref s' a)) = st_SecretRotation (wl_Status (deref s a))"
proof -
  let ?now = "wd_clock s (wd_ticks s)"
  let ?s = "modify a (mark_running ?now c) (snd (time_Now s))"
  have k: "mem_stored ?s (wl_ID (deref ?s a)) = Some a" using assms(1) by simp
  from versioned_Update_in_place [OF k, of n] obtain s2 where
    s2: "store_Update (rec_store e) a ?s = (None, s2)" "mem_stored s2 = mem_stored s" unfolding assms(2) by auto
  have heap: "wd_heap s2 = (wd_heap s)(a := SyncFromLabels (tags_Apply (mark_running ?now c (deref s a))))"
    using versioned_Update_in_place_heap [OF k, of n] s2(1) unfolding assms(2) by simp
  have calls: "wd_calls s2 = wd_calls s" using vs.Update_frame [of ?s n a] s2(1) unfolding assms(2) by (simp add: store_frame_def)
  have valid: "mem_valid s2" if "mem_valid s"
  proof -
    have "mem_valid ?s" using that by (simp add: mem_valid_def)
    then show ?thesis using vs.valid_Update [of ?s n a] s2(1) unfolding assms(2) by simp
  qed
  let ?s3 = "if c \<and> sp_CronSchedule (wl_Spec (deref s2 a)) \<noteq> None then publish (workload_event WorkloadCronTriggered a) s2 else s2"
  let ?s4 = "publish (workload_event WorkloadScheduled a) ?s3"
  show thesis
  proof (rule that [of ?s4])
    have now: "time_Now s = (?now, snd (time_Now s))" by (simp add: time_Now_def)
    show "postSchedule e a c s = (None, ?s4)"
      unfolding postSchedule_def Let_def by (subst now) (simp only: prod.case s2(1) option.case)
    have same: "wd_heap ?s4 = wd_heap s2" "wd_mem ?s4 = wd_mem s2" "wd_calls ?s4 = wd_calls s2" by simp_all
    show "mem_stored ?s4 = mem_stored s" using same(2) s2(2) by (simp add: mem_stored_def)
    show "wd_calls ?s4 = wd_calls s" using same(3) calls by simp
    show "phase (deref ?s4 a) = WorkloadPhaseRunning" "wl_ID (deref ?s4 a) = wl_ID (deref s a)" "wl_Spec (deref ?s4 a) = wl_Spec (deref s a)"
      using heap by (simp_all add: same(1))
    show "deref ?s4 b = deref s b" if "b \<noteq> a" for b using that heap by (simp add: same(1))
    show "mem_valid ?s4" if "mem_valid s" using valid [OF that] same(2) by (simp add: mem_valid_def)
    show "st_CircuitBreaker (wl_Status (deref ?s4 a)) = st_CircuitBreaker (wl_Status (deref s a))"
      "st_SecretRotation (wl_Status (deref ?s4 a)) = st_SecretRotation (wl_Status (deref s a))"
      using heap by (simp_all add: same(1))
  qed
qed

definition no_active_cron :: "Workload \<Rightarrow> bool" where
  "no_active_cron w = (case sp_CronSchedule (wl_Spec w) of None \<Rightarrow> True | Some spec \<Rightarrow> cr_Suspended spec)"

section \<open>Around one workload of a pass\<close>

lemma reconcile_loop_append:
  "reconcile_loop e (as @ bs) r s = (case reconcile_loop e as r s of (r1, s1) \<Rightarrow> reconcile_loop e bs r1 s1)"
  by (induction as arbitrary: r s) (auto split: prod.splits)

lemma visited_around:
  assumes "mem_valid s" "keyed mem_stored s" "rec_store e = NewVersionedStore MemStore n" "mem_stored s i = Some a"
  obtains xs ys where "reconcileAll e r s = reconcile_loop e (xs @ a # ys) r s" "distinct (xs @ a # ys)"
    "\<And>b. b \<in> set xs \<union> set ys \<Longrightarrow> \<exists>j. j \<noteq> i \<and> mem_stored s j = Some b"
proof -
  obtain ids where ids: "distinct ids" "set ids = {i. \<exists>a. mem_stored s i = Some a}"
    "store_List (NewVersionedStore MemStore n) [] s = (Ok (map (\<lambda>i. the (mem_stored s i)) ids), s)"
    using vs.List [OF assms(1), of "[]" n] by auto
  let ?l = "map (\<lambda>i. the (mem_stored s i)) ids"
  have "inj_on (\<lambda>i. the (mem_stored s i)) (set ids)"
  proof (rule inj_onI)
    fix j k assume "j \<in> set ids" "k \<in> set ids" and eq: "the (mem_stored s j) = the (mem_stored s k)"
    then obtain b where "mem_stored s j = Some b" "mem_stored s k = Some b" using ids(2) by force
    then show "j = k" using assms(2) unfolding keyed_def by metis
  qed
  then have d: "distinct (reconcile_order s ?l)" using ids(1) by (simp add: reconcile_order_def distinct_map)
  have m: "set (reconcile_order s ?l) = set ?l" by (simp add: reconcile_order_def)
  then have "a \<in> set (reconcile_order s ?l)" using ids(2) assms(4) by force
  then obtain xs ys where v: "reconcile_order s ?l = xs @ a # ys" by (meson split_list)
  show thesis
  proof (rule that [of xs ys])
    show "reconcileAll e r s = reconcile_loop e (xs @ a # ys) r s" by (simp add: reconcileAll_def assms(3) ids(3) v)
    show "distinct (xs @ a # ys)" using d v by simp
    then have a: "a \<notin> set xs \<union> set ys" by simp
    show "\<exists>j. j \<noteq> i \<and> mem_stored s j = Some b" if "b \<in> set xs \<union> set ys" for b
    proof -
      have "b \<in> set ?l" using that m v by auto
      then obtain j where "mem_stored s j = Some b" using ids(2) by auto
      moreover from this have "j \<noteq> i" using that a assms(4) by auto
      ultimately show ?thesis by blast
    qed
  qed
qed

section \<open>The circuit breaker in a pass\<close>

text \<open>
  \<open>reconcileOne\<close> synchronises the circuit itself and again inside \<open>AllowRoute\<close>, both on the
  same report.
\<close>

lemma Sync_failing:
  assumes "circuit_EnabledFor c (Some w)" "st_CircuitBreaker (wl_Status w) = Some st" "cbs_State st = CircuitStateClosed"
    and "phase w = WorkloadPhaseFailed" "sint (cbs_ConsecutiveFails st + 1) < sint (es_FailureThreshold (effectiveSpec w c))"
  shows "SyncFromWorkload c w now =
    (set_circuit (st\<lparr>cbs_ConsecutiveFails := cbs_ConsecutiveFails st + 1, cbs_ConsecutiveOK := 0\<rparr>) w, CircuitStateClosed, CircuitStateClosed)"
  using assms by (simp add: SyncFromWorkload_def circuit_of_def sync_cooldown_def sync_switch_def circuit_unhealthy_def Let_def)

lemma circuit_frames_tags [simp]:
  "circuit_EnabledFor c (Some (SyncFromLabels (tags_Apply w))) = circuit_EnabledFor c (Some w)"
  "effectiveSpec (SyncFromLabels (tags_Apply w)) c = effectiveSpec w c"
  by (simp_all add: circuit_EnabledFor_def effectiveSpec_def)

text \<open>
  One pass counts a failing workload twice: with a circuit breaker configured, a single
  reconciliation of a failed workload raises its count of consecutive failures by two, so a
  circuit trips after half the configured number of failing passes.
\<close>

theorem one_pass_counts_two_failures:
  assumes "rec_store e = NewVersionedStore MemStore n" "rec_controllers e = []" "rec_policy e = None" "rec_quota e = None"
    and "rec_standby e = None" "rec_secrets e = None" "rec_circuit e = Some c"
    and "sp_CronSchedule (wl_Spec (deref s a)) = None" "mem_stored s (wl_ID (deref s a)) = Some a"
    and "circuit_EnabledFor c (Some (deref s a))" "phase (deref s a) = WorkloadPhaseFailed"
    and "st_CircuitBreaker (wl_Status (deref s a)) = Some st" "cbs_State st = CircuitStateClosed"
    and "sint (cbs_ConsecutiveFails st + 1) < sint (es_FailureThreshold (effectiveSpec (deref s a) c))"
    and "sint (cbs_ConsecutiveFails st + 1 + 1) < sint (es_FailureThreshold (effectiveSpec (deref s a) c))"
  shows "\<exists>s' st'. reconcileOne e a r s = (None, r, s') \<and> st_CircuitBreaker (wl_Status (deref s' a)) = Some st' \<and>
    cbs_State st' = CircuitStateClosed \<and> cbs_ConsecutiveFails st' = cbs_ConsecutiveFails st + 2 \<and> wd_calls s' = wd_calls s"
proof -
  let ?w = "deref s a" and ?now = "wd_clock s (wd_ticks s)"
  let ?st1 = "st\<lparr>cbs_ConsecutiveFails := cbs_ConsecutiveFails st + 1, cbs_ConsecutiveOK := 0\<rparr>"
  let ?st2 = "?st1\<lparr>cbs_ConsecutiveFails := cbs_ConsecutiveFails ?st1 + 1, cbs_ConsecutiveOK := 0\<rparr>"
  let ?s1 = "assign a (set_circuit ?st1 ?w) (snd (time_Now s))"
  let ?s2 = "snd (store_Update (NewVersionedStore MemStore n) a ?s1)"
  let ?w2 = "SyncFromLabels (tags_Apply (set_circuit ?st1 ?w))"
  have sync1: "SyncFromWorkload c ?w ?now = (set_circuit ?st1 ?w, CircuitStateClosed, CircuitStateClosed)"
    by (intro Sync_failing assms)
  have k: "mem_stored ?s1 (wl_ID (deref ?s1 a)) = Some a" using assms(9) by simp
  have heap: "deref ?s2 a = ?w2" using versioned_Update_in_place_heap [OF k, of n] by simp
  have calls: "wd_calls ?s2 = wd_calls s" using vs.Update_frame [of ?s1 n a] by (simp add: store_frame_def)
  have "SyncFromWorkload c ?w2 ?now = (set_circuit ?st2 ?w2, CircuitStateClosed, CircuitStateClosed)"
    using assms(10,11,13,15) by (intro Sync_failing) simp_all
  then have allow: "AllowRoute c (Some ?w2) ?now = (Some (set_circuit ?st2 ?w2), False)"
    using assms(10,11,13) by (simp add: AllowRoute_def Let_def)
  have now: "time_Now s = (?now, snd (time_Now s))" by (simp add: time_Now_def)
  have cs: "circuit_stage e a ?now (snd (time_Now s)) = ?s2"
    using assms(1,5,7) sync1 by (simp add: circuit_stage_def auto_promote_def Let_def)
  have "admitted_stages e a r s = (None, r, assign a (set_circuit ?st2 ?w2) ?s2)"
    unfolding admitted_stages_def Let_def
    by (subst now) (use assms(5-8) cs heap allow in \<open>simp add: standby_stage_def secrets_stage_def cron_stage_def route_stage_def\<close>)
  then have "reconcileOne e a r s = (None, r, assign a (set_circuit ?st2 ?w2) ?s2)"
    using assms(2-4) by (simp add: reconcileOne_def GetControllersForWorkload_def policy_gate_def quota_gate_def)
  then show ?thesis using calls assms(13) by (intro exI [of _ "assign a (set_circuit ?st2 ?w2) ?s2"] exI [of _ ?st2]) simp
qed

section \<open>Witnesses\<close>

definition demo_reconciler :: "int Reconciler" where
  "demo_reconciler = \<lparr>rec_store = NewVersionedStore MemStore 5, rec_scheduler = demo_scheduler, rec_controllers = [],
     rec_rollout = Some \<lparr>rm_scheduler = demo_scheduler, rm_healthGate = None\<rparr>, rec_policy = None, rec_quota = None,
     rec_quantity = int_quantities, rec_cron = every_minute, rec_circuit = None, rec_standby = None, rec_secrets = None\<rparr>"

definition isolating_policy :: PolicyConfig where
  "isolating_policy = \<lparr>pc_DefaultCPULimit = ''1'', pc_DefaultMemoryLimit = ''1Gi'', pc_EnforceNamespaceIsolation = True,
     pc_RequireTeamTag = False, pc_RequireEnvironmentTag = False, pc_RequireCostCenterTag = False\<rparr>"

definition demo_circuit :: CircuitConfig where
  "demo_circuit = \<lparr>ccf_Enabled = True, ccf_DefaultFailureThreshold = 5, ccf_DefaultSuccessThreshold = 2,
     ccf_DefaultOpenDurationSeconds = 60, ccf_DefaultHalfOpenMaxRequests = 1\<rparr>"

definition demo_pending :: Workload where
  "demo_pending = zero_workload\<lparr>wl_ID := ''a'', wl_Spec := zero_spec\<lparr>sp_Backend := ''docker''\<rparr>,
     wl_Status := zero_status\<lparr>st_Phase := WorkloadPhasePending\<rparr>\<rparr>"

definition demo_failed :: Workload where
  "demo_failed = demo_pending\<lparr>wl_Status := zero_status\<lparr>st_Phase := WorkloadPhaseFailed,
     st_CircuitBreaker := Some (new_circuit_status 0)\<rparr>\<rparr>"

lemma demo_world_valid [simp]: "mem_valid (demo_world h [(i, x)])"
  by (simp add: mem_valid_def demo_world_def wf_map_def)

lemma demo_calls: "wd_calls (demo_world h m) = []"
  by (simp add: demo_world_def empty_world_def)

lemma demo_store: "rec_store demo_reconciler = NewVersionedStore MemStore 5"
  by (simp add: demo_reconciler_def)



theorem one_pass_counts_two_failures_witness:
  "\<exists>s' st'. reconcileOne (demo_reconciler\<lparr>rec_circuit := Some demo_circuit\<rparr>) 0 secret_NewRegistry
      (demo_world (\<lambda>_. demo_failed) [(''a'', 0)]) = (None, secret_NewRegistry, s') \<and>
    st_CircuitBreaker (wl_Status (deref s' 0)) = Some st' \<and> cbs_ConsecutiveFails st' = 2"
  using one_pass_counts_two_failures [of "demo_reconciler\<lparr>rec_circuit := Some demo_circuit\<rparr>" 5 demo_circuit
      "demo_world (\<lambda>_. demo_failed) [(''a'', 0)]" 0 "new_circuit_status 0" secret_NewRegistry]
  by (force simp: demo_reconciler_def demo_circuit_def demo_failed_def demo_pending_def zero_defs new_circuit_status_def
      circuit_EnabledFor_def effectiveSpec_def)

end
