(* ===== verification/Drift.thy ===== *)
theory Drift
  imports StateStore
begin

text \<open>
  \<open>internal/drift/detector.go\<close>: the detector that compares the desired replicas of a workload
  with what the runtime driver reports, publishes the drift and notifies webhooks.

  \<^item> A \<open>*types.DriftReport\<close> is an index into the list of reports allocated so far, because
    the published events share it and \<open>handleDrift\<close> writes to it after the first of them.
  \<^item> The HTTP client, \<open>json.Marshal\<close> and \<open>time.Format\<close> are the environment (\<open>NotifyLib\<close>): the
    client answers a request with an error or a status code. Each notification runs in a
    goroutine of its own and touches nothing but its arguments, so the notifications of one
    report are the list of their outcomes, in no particular order.
  \<^item> The runtime driver is an interface value and may be nil, which makes the first call
    panic; a panic is the result \<open>None\<close>. The loop of \<open>Start\<close> only repeats \<open>checkWorkloads\<close>
    on a ticker and is left out, with \<open>Stop\<close>.

  The lemmas: drift is reported exactly when the replica counts differ by more than the
  tolerance, when a check panics, that checking changes neither workloads nor the runtime, and
  how a webhook authenticates.
\<close>

section \<open>Notifications\<close>

datatype json =
    JStr string
  | JText gotext
  | JBool bool
  | JTime gotime
  | JFields "DriftedField list"
  | JObj "(string \<times> json) list"
  | JArr "json list"

record HttpRequest =
  rq_Method :: string
  rq_URL :: string
  rq_Header :: "(string, string) gomap"
  rq_Body :: string

record NotifyLib =
  nl_Marshal :: "json \<Rightarrow> (error, string) result"
  nl_RFC3339 :: "gotime \<Rightarrow> string"
  nl_NewRequest :: "string \<Rightarrow> string \<Rightarrow> error option"
  nl_Do :: "HttpRequest \<Rightarrow> (error, int) result"

definition is_token_char :: "char \<Rightarrow> bool" where
  \<comment> \<open>the bytes a header name may have (RFC 7230)\<close>
  "is_token_char c = (let n = (of_char c :: nat)
     in 48 \<le> n \<and> n \<le> 57 \<or> 65 \<le> n \<and> n \<le> 90 \<or> 97 \<le> n \<and> n \<le> 122 \<or>
        n \<in> {33, 35, 36, 37, 38, 39, 42, 43, 45, 46, 94, 95, 96, 124, 126})"

fun canon_loop :: "bool \<Rightarrow> string \<Rightarrow> string" where
  "canon_loop upper [] = []"
| "canon_loop upper (c # cs) = (let d = (if upper then upper_char c else lower_char c) in d # canon_loop (d = CHR ''-'') cs)"

definition CanonicalHeaderKey :: "string \<Rightarrow> string" where
  "CanonicalHeaderKey k = (if list_all is_token_char k then canon_loop True k else k)"

definition Header_Set :: "string \<Rightarrow> string \<Rightarrow> (string, string) gomap \<Rightarrow> (string, string) gomap" where
  "Header_Set k v h = AList.update (CanonicalHeaderKey k) v h"

definition client_Do :: "NotifyLib \<Rightarrow> string \<Rightarrow> string \<Rightarrow> HttpRequest \<Rightarrow> error option" where
  \<comment> \<open>the client call and the check of its answer, with the two error formats\<close>
  "client_Do lib failed status req = (case nl_Do lib req of
     Inl err \<Rightarrow> Some (Wrapf failed [] err)
   | Inr code \<Rightarrow> if code \<ge> 400 then Some (Errorf status [Num code]) else None)"

definition webhook_payload :: "DriftReport \<Rightarrow> json" where
  "webhook_payload report = JObj
     [(''workload_id'', JStr (dr_WorkloadID report)), (''workload_name'', JStr (dr_WorkloadName report)),
      (''namespace'', JStr (dr_Namespace report)), (''severity'', JStr (dr_Severity report)),
      (''drifted_fields'', JFields (dr_DriftedFields report)), (''timestamp'', JTime (dr_Timestamp report)),
      (''message'', JText (dr_Message report))]"

definition webhook_headers :: "NotificationHook \<Rightarrow> (string, string) gomap" where
  "webhook_headers hook =
     (let h = fold (\<lambda>(k, v). Header_Set k v) (case nh_Headers hook of None \<Rightarrow> [] | Some m \<Rightarrow> m)
                (Header_Set ''Content-Type'' ''application/json'' [])
      in if nh_Secret hook \<noteq> [] then Header_Set ''Authorization'' (''Bearer '' @ nh_Secret hook) h else h)"

definition sendWebhook :: "NotifyLib \<Rightarrow> DriftReport \<Rightarrow> NotificationHook \<Rightarrow> error option \<times> HttpRequest list" where
  \<comment> \<open>the error, and the requests that were sent\<close>
  "sendWebhook lib report hook = (case nl_Marshal lib (webhook_payload report) of
     Inl err \<Rightarrow> (Some (Wrapf ''failed to marshal payload: %w'' [] err), [])
   | Inr body \<Rightarrow>
       (case nl_NewRequest lib ''POST'' (nh_URL hook) of
          Some err \<Rightarrow> (Some (Wrapf ''failed to create request: %w'' [] err), [])
        | None \<Rightarrow>
            let req = \<lparr>rq_Method = ''POST'', rq_URL = nh_URL hook, rq_Header = webhook_headers hook, rq_Body = body\<rparr>
            in (client_Do lib ''failed to send webhook: %w'' ''webhook returned status %d'' req, [req])))"

definition severityToColor :: "string \<Rightarrow> string" where
  "severityToColor severity =
     (if severity = DriftSeverityCritical then ''#ff0000''
      else if severity = DriftSeverityHigh then ''#ff6600''
      else if severity = DriftSeverityMedium then ''#ffcc00''
      else if severity = DriftSeverityLow then ''#36a64f''
      else ''#cccccc'')"

definition slack_payload :: "NotifyLib \<Rightarrow> DriftReport \<Rightarrow> json" where
  "slack_payload lib report = JObj [(''attachments'', JArr [JObj
     [(''color'', JStr (severityToColor (dr_Severity report))),
      (''title'', JText (Sprintf ''Drift Detected: %s/%s'' [Str (dr_Namespace report), Str (dr_WorkloadName report)])),
      (''text'', JText (dr_Message report)),
      (''fields'', JArr
        [JObj [(''title'', JStr ''Severity''), (''value'', JStr (dr_Severity report)), (''short'', JBool True)],
         JObj [(''title'', JStr ''Timestamp''), (''value'', JStr (nl_RFC3339 lib (dr_Timestamp report))), (''short'', JBool True)]])]])]"

definition sendSlack :: "NotifyLib \<Rightarrow> DriftReport \<Rightarrow> NotificationHook \<Rightarrow> error option \<times> HttpRequest list" where
  "sendSlack lib report hook = (case nl_Marshal lib (slack_payload lib report) of
     Inl err \<Rightarrow> (Some (Wrapf ''failed to marshal payload: %w'' [] err), [])
   | Inr body \<Rightarrow>
       (case nl_NewRequest lib ''POST'' (nh_URL hook) of
          Some err \<Rightarrow> (Some (Wrapf ''failed to create request: %w'' [] err), [])
        | None \<Rightarrow>
            let req = \<lparr>rq_Method = ''POST'', rq_URL = nh_URL hook,
                       rq_Header = Header_Set ''Content-Type'' ''application/json'' [], rq_Body = body\<rparr>
            in (client_Do lib ''failed to send slack notification: %w'' ''slack webhook returned status %d'' req, [req])))"

definition sendNotification :: "NotifyLib \<Rightarrow> DriftReport \<Rightarrow> NotificationHook \<Rightarrow> error option \<times> HttpRequest list" where
  "sendNotification lib report hook =
     (if nh_Type hook = ''webhook'' then sendWebhook lib report hook
      else if nh_Type hook = ''slack'' then sendSlack lib report hook
      else (Some (Errorf ''unsupported notification type: %s'' [Str (nh_Type hook)]), []))"

definition sendNotifications :: "NotifyLib \<Rightarrow> DriftReport \<Rightarrow> NotificationHook list \<Rightarrow> (error option \<times> HttpRequest list) list" where
  "sendNotifications lib report hooks = map (sendNotification lib report) hooks"

section \<open>Detection\<close>

record Detector =
  dc_Enabled :: bool
  dc_CheckInterval :: int
  dc_DefaultTolerance :: "DriftTolerance option"
  dc_runtimeDriver :: "RuntimeDriver option"
  dc_notify :: NotifyLib

definition drift_New :: "bool \<Rightarrow> int \<Rightarrow> DriftTolerance option \<Rightarrow> RuntimeDriver option \<Rightarrow> NotifyLib \<Rightarrow> Detector" where
  \<comment> \<open>the three fields of the configuration, the driver (nil as \<open>None\<close>) and the library for notifications\<close>
  "drift_New enabled checkInterval defaultTolerance runtimeDriver lib =
     \<lparr>dc_Enabled = enabled, dc_CheckInterval = checkInterval, dc_DefaultTolerance = defaultTolerance, dc_runtimeDriver = runtimeDriver,
      dc_notify = lib\<rparr>"

definition driver_GetStatus :: "RuntimeDriver \<Rightarrow> string \<Rightarrow> world \<Rightarrow> (error, WorkloadStatus) result \<times> world" where
  "driver_GetStatus d i s = (drv_GetStatus d (wd_calls s) i, call_driver d (CallGetStatus i) s)"

definition abs_int32 :: "int32 \<Rightarrow> int32" where
  "abs_int32 x = (if sint x < 0 then - x else x)"

definition contains_item :: "string list \<Rightarrow> string \<Rightarrow> bool" where
  "contains_item items item = list_ex (\<lambda>s. s = item) items"

definition calculateSeverity :: "DriftReport \<Rightarrow> string" where
  "calculateSeverity report =
     (if list_ex (\<lambda>f. df_FieldPath f = ''spec.replicas'') (dr_DriftedFields report) then DriftSeverityHigh
      else if length (dr_DriftedFields report) > 3 then DriftSeverityMedium
      else DriftSeverityLow)"

definition replica_drift :: "DriftTolerance option \<Rightarrow> int32 \<Rightarrow> int32 \<Rightarrow> bool" where
  "replica_drift tolerance actual desired =
     (actual \<noteq> desired \<and>
      (case tolerance of
         None \<Rightarrow> True
       | Some t \<Rightarrow> dt_ReplicaVariance t = 0 \<or> sint (abs_int32 (actual - desired)) > sint (dt_ReplicaVariance t)))"

definition env_monitored :: "DriftDetectionConfig \<Rightarrow> bool" where
  "env_monitored config = (case dd_MonitoredFields config of None \<Rightarrow> True | Some fs \<Rightarrow> contains_item fs ''env'')"

definition effective_tolerance :: "Detector \<Rightarrow> DriftDetectionConfig \<Rightarrow> DriftTolerance option" where
  "effective_tolerance d config = (case dd_Tolerance config of None \<Rightarrow> dc_DefaultTolerance d | Some t \<Rightarrow> Some t)"

definition drifted_fields :: "DriftTolerance option \<Rightarrow> WorkloadStatus \<Rightarrow> Workload \<Rightarrow> DriftedField list" where
  "drifted_fields tolerance actual w =
     (if replica_drift tolerance (st_Replicas actual) (sp_Replicas (wl_Spec w))
      then [\<lparr>df_FieldPath = ''spec.replicas'', df_Desired = SI32 (sp_Replicas (wl_Spec w)),
             df_Actual = SI32 (st_Replicas actual), df_DiffType = ''modified''\<rparr>] else [])"

definition detectDrift :: "Detector \<Rightarrow> addr \<Rightarrow> world \<Rightarrow> ((error, DriftReport option) result \<times> world) option" where
  "detectDrift d a s = (case dc_runtimeDriver d of
     None \<Rightarrow> None
   | Some drv \<Rightarrow>
       (case driver_GetStatus drv (wl_ID (deref s a)) s of
          (Inl err, s1) \<Rightarrow> Some (Err (Wrapf ''failed to get actual status: %w'' [] err), s1)
        | (Inr actual, s1) \<Rightarrow>
            (case sp_DriftDetection (wl_Spec (deref s1 a)) of
               None \<Rightarrow> None
             | Some config \<Rightarrow>
                 let tolerance = effective_tolerance d config;
                     (ts, s2) = time_Now s1;
                     (detected, s3) = time_Now s2;
                     w = deref s3 a;
                     report = \<lparr>dr_WorkloadID = wl_ID w, dr_WorkloadName = wl_Name w, dr_Namespace = wl_Namespace w,
                       dr_Timestamp = ts, dr_DetectedAt = detected, dr_DriftedFields = drifted_fields tolerance actual w,
                       dr_Severity = DriftSeverityLow, dr_AutoReconciled = False, dr_Message = Str []\<rparr>
                 in if env_monitored config \<and> tolerance = None then None
                    else if dr_DriftedFields report = [] then Some (Ok None, s3)
                    else Some (Ok (Some (report\<lparr>dr_Severity := calculateSeverity report,
                           dr_Message := Sprintf ''Detected %d drifted field(s)'' [Num (int (length (dr_DriftedFields report)))]\<rparr>)), s3))))"

section \<open>Reaction\<close>

record DriftState =
  ds_reports :: "DriftReport list"
  ds_sent :: "(error option \<times> HttpRequest list) list"

definition drift_event :: "EventType \<Rightarrow> addr \<Rightarrow> nat \<Rightarrow> world \<Rightarrow> world" where
  "drift_event t a n s =
     (let (now, s1) = time_Now s
      in publish \<lparr>ev_Type = t, ev_Workload = Some a, ev_Timestamp = Unix now,
           ev_Metadata = [(''drift_report'', AReportPtr n)]\<rparr> s1)"

definition handleDrift :: "Detector \<Rightarrow> addr \<Rightarrow> nat \<Rightarrow> DriftState \<Rightarrow> world \<Rightarrow> (DriftState \<times> world) option" where
  \<comment> \<open>\<open>n\<close> is the pointer to the report\<close>
  "handleDrift d a n ds s = (case sp_DriftDetection (wl_Spec (deref s a)) of
     None \<Rightarrow> None
   | Some config \<Rightarrow>
       let s1 = drift_event WorkloadDriftDetected a n s;
           report = ds_reports ds ! n;
           ds1 = (if dd_AlertOnDrift config \<and> dd_NotificationHooks config \<noteq> []
                  then ds\<lparr>ds_sent := ds_sent ds @ sendNotifications (dc_notify d) report (dd_NotificationHooks config)\<rparr> else ds)
       in Some (if dd_AutoReconcile config
                then (ds1\<lparr>ds_reports := (ds_reports ds1)[n := report\<lparr>dr_AutoReconciled := True\<rparr>]\<rparr>,
                      drift_event WorkloadDriftReconciled a n s1)
                else (ds1, s1)))"

definition drift_enabled :: "Workload \<Rightarrow> bool" where
  "drift_enabled w = (case sp_DriftDetection (wl_Spec w) of None \<Rightarrow> False | Some c \<Rightarrow> dd_Enabled c)"

definition checkWorkload :: "Detector \<Rightarrow> addr \<Rightarrow> DriftState \<Rightarrow> world \<Rightarrow> (DriftState \<times> world) option" where
  \<comment> \<open>the body of the loop of \<open>checkWorkloads\<close>\<close>
  "checkWorkload d a ds s =
     (if \<not> drift_enabled (deref s a) then Some (ds, s)
      else case detectDrift d a s of
             None \<Rightarrow> None
           | Some (Inl err, s1) \<Rightarrow> Some (ds, s1)
           | Some (Inr None, s1) \<Rightarrow> Some (ds, s1)
           | Some (Inr (Some report), s1) \<Rightarrow>
               handleDrift d a (length (ds_reports ds)) (ds\<lparr>ds_reports := ds_reports ds @ [report]\<rparr>) s1)"

fun checkWorkloads :: "Detector \<Rightarrow> addr list \<Rightarrow> DriftState \<Rightarrow> world \<Rightarrow> (DriftState \<times> world) option" where
  "checkWorkloads d [] ds s = Some (ds, s)"
| "checkWorkloads d (a # as) ds s = (case checkWorkload d a ds s of
     None \<Rightarrow> None
   | Some (ds1, s1) \<Rightarrow> checkWorkloads d as ds1 s1)"

section \<open>When drift is reported\<close>

lemma abs_int32_sub:
  assumes "0 \<le> sint a" "0 \<le> sint b"
  shows "sint (abs_int32 (a - b)) = \<bar>sint a - sint b\<bar>"
proof -
  have r: "- (2 ^ 31) < sint a - sint b" "sint a - sint b < 2 ^ 31"
    using assms sint32_bounds [of a] sint32_bounds [of b] by linarith+
  have d: "sint (a - b) = sint a - sint b" "sint (b - a) = sint b - sint a"
    by (rule sint32_sub; use r in linarith)+
  have "- (a - b) = b - a" by simp
  then show ?thesis unfolding abs_int32_def d(1) using d by simp
qed

lemma replica_drift_iff:
  assumes "0 \<le> sint actual" "0 \<le> sint desired"
  shows "replica_drift (Some t) actual desired \<longleftrightarrow> max 0 (sint (dt_ReplicaVariance t)) < \<bar>sint actual - sint desired\<bar>"
proof -
  have e: "actual = desired \<longleftrightarrow> sint actual = sint desired" by (rule word_eq_iff_signed)
  have z: "dt_ReplicaVariance t = 0 \<longleftrightarrow> sint (dt_ReplicaVariance t) = 0" by (simp add: signed_eq_0_iff)
  show ?thesis unfolding replica_drift_def e z option.case abs_int32_sub [OF assms] by auto
qed

lemma calculateSeverity_replicas:
  "dr_DriftedFields r = drifted_fields tol actual w \<Longrightarrow> dr_DriftedFields r \<noteq> [] \<Longrightarrow> calculateSeverity r = DriftSeverityHigh"
  by (simp add: calculateSeverity_def drifted_fields_def split: if_splits)

lemma detectDrift_cases:
  assumes "dc_runtimeDriver d = Some drv" "drv_GetStatus drv (wd_calls s) (wl_ID (deref s a)) = Ok actual"
    "sp_DriftDetection (wl_Spec (deref s a)) = Some config" "\<not> (env_monitored config \<and> effective_tolerance d config = None)"
  obtains r s' where "detectDrift d a s = Some (Ok r, s')"
    "s' = snd (time_Now (snd (time_Now (call_driver drv (CallGetStatus (wl_ID (deref s a))) s))))"
    "r \<noteq> None \<longleftrightarrow> replica_drift (effective_tolerance d config) (st_Replicas actual) (sp_Replicas (wl_Spec (deref s a)))"
    "\<And>rep. r = Some rep \<Longrightarrow> dr_WorkloadID rep = wl_ID (deref s a) \<and> dr_Severity rep = DriftSeverityHigh \<and>
       \<not> dr_AutoReconciled rep \<and> dr_DriftedFields rep = drifted_fields (effective_tolerance d config) actual (deref s a)"
proof -
  let ?s' = "snd (time_Now (snd (time_Now (call_driver drv (CallGetStatus (wl_ID (deref s a))) s))))"
  let ?fs = "drifted_fields (effective_tolerance d config) actual (deref s a)"
  have fs: "?fs \<noteq> [] \<longleftrightarrow> replica_drift (effective_tolerance d config) (st_Replicas actual) (sp_Replicas (wl_Spec (deref s a)))"
    by (simp add: drifted_fields_def)
  show thesis
  proof (cases "?fs = []")
    case True
    then have "detectDrift d a s = Some (Ok None, ?s')"
      using assms by (auto simp: detectDrift_def driver_GetStatus_def split_beta Let_def)
    then show thesis by (rule that) (use True fs in auto)
  next
    case False
    then obtain rep where rep: "detectDrift d a s = Some (Ok (Some rep), ?s')" "dr_WorkloadID rep = wl_ID (deref s a)"
      "dr_Severity rep = DriftSeverityHigh" "dr_DriftedFields rep = ?fs" "\<not> dr_AutoReconciled rep"
      using assms by (auto simp: detectDrift_def driver_GetStatus_def split_beta Let_def calculateSeverity_replicas)
    show thesis by (rule that [OF rep(1)]) (use rep False fs in auto)
  qed
qed

lemma detectDrift_error:
  assumes "dc_runtimeDriver d = Some drv" "drv_GetStatus drv (wd_calls s) (wl_ID (deref s a)) = Inl err"
  shows "detectDrift d a s = Some (Err (Wrapf ''failed to get actual status: %w'' [] err),
    call_driver drv (CallGetStatus (wl_ID (deref s a))) s)"
  using assms by (simp add: detectDrift_def driver_GetStatus_def)


definition demo_driver :: "int32 \<Rightarrow> RuntimeDriver" where
  \<comment> \<open>a driver that observes \<open>n\<close> replicas\<close>
  "demo_driver n = \<lparr>drv_Name = ''d'', drv_Deploy = (\<lambda>_ _. None), drv_Update = (\<lambda>_ _. None), drv_Delete = (\<lambda>_ _. None),
     drv_GetStatus = (\<lambda>_ _. Ok (zero_status\<lparr>st_Replicas := n\<rparr>)), drv_Restart = (\<lambda>_ _. None)\<rparr>"

definition demo_tolerance :: "int32 \<Rightarrow> DriftTolerance" where
  "demo_tolerance v = \<lparr>dt_ReplicaVariance = v, dt_ResourceVariancePct = Fin 0, dt_EnvVarDriftAllowed = False,
     dt_LabelDriftAllowed = False, dt_AnnotationDriftAllowed = False\<rparr>"

definition demo_detector :: "int32 \<Rightarrow> Detector" where
  "demo_detector n = \<lparr>dc_Enabled = True, dc_CheckInterval = 1, dc_DefaultTolerance = Some (demo_tolerance 2),
     dc_runtimeDriver = Some (demo_driver n), dc_notify = \<lparr>nl_Marshal = (\<lambda>_. Ok []), nl_RFC3339 = (\<lambda>_. []),
       nl_NewRequest = (\<lambda>_ _. None), nl_Do = (\<lambda>_. Ok 200)\<rparr>\<rparr>"

definition demo_watched :: "Workload" where
  "demo_watched = (demo_workload ''a'' ''v1'')\<lparr>wl_Spec := zero_spec\<lparr>sp_Replicas := 1, sp_DriftDetection :=
     Some \<lparr>dd_Enabled = True, dd_CheckInterval = [], dd_AlertOnDrift = False, dd_AutoReconcile = True,
       dd_MonitoredFields = None, dd_Tolerance = None, dd_NotificationHooks = []\<rparr>\<rparr>\<rparr>"

lemma demo_drift_simps [simp]:
  "dc_runtimeDriver (demo_detector n) = Some (demo_driver n)" "dc_DefaultTolerance (demo_detector n) = Some (demo_tolerance 2)"
  "drv_GetStatus (demo_driver n) c i = Ok (zero_status\<lparr>st_Replicas := n\<rparr>)" "dt_ReplicaVariance (demo_tolerance v) = v"
  "sp_Replicas (wl_Spec demo_watched) = 1" "sp_DriftDetection (wl_Spec demo_watched) = Some
     \<lparr>dd_Enabled = True, dd_CheckInterval = [], dd_AlertOnDrift = False, dd_AutoReconcile = True,
       dd_MonitoredFields = None, dd_Tolerance = None, dd_NotificationHooks = []\<rparr>" "wl_ID demo_watched = ''a''"
  by (simp_all add: demo_detector_def demo_driver_def demo_tolerance_def demo_watched_def)



section \<open>What a check of all workloads does\<close>

definition only_observed :: "world \<Rightarrow> world \<Rightarrow> bool" where
  "only_observed s s' = (wd_heap s' = wd_heap s \<and> wd_mem s' = wd_mem s \<and> wd_log s' = wd_log s \<and> wd_fresh s' = wd_fresh s)"

lemma drift_event_frame [simp, frame_simps]:
  "wd_heap (drift_event t a n s) = wd_heap s" "wd_mem (drift_event t a n s) = wd_mem s"
  "wd_log (drift_event t a n s) = wd_log s" "wd_fresh (drift_event t a n s) = wd_fresh s"
  "wd_calls (drift_event t a n s) = wd_calls s"
  by (simp_all add: drift_event_def split_beta Let_def)

definition drift_events :: "addr \<Rightarrow> nat \<Rightarrow> bool \<Rightarrow> Event list \<Rightarrow> bool" where
  \<comment> \<open>a detected event for the report, followed by a reconciled one when asked for\<close>
  "drift_events a n auto evs = (\<exists>t t'. evs =
     \<lparr>ev_Type = WorkloadDriftDetected, ev_Workload = Some a, ev_Timestamp = t, ev_Metadata = [(''drift_report'', AReportPtr n)]\<rparr> #
     (if auto then [\<lparr>ev_Type = WorkloadDriftReconciled, ev_Workload = Some a, ev_Timestamp = t', ev_Metadata = [(''drift_report'', AReportPtr n)]\<rparr>]
      else []))"

lemma wd_bus_drift_event:
  "wd_bus (drift_event t a n s) = PublishAsync \<lparr>ev_Type = t, ev_Workload = Some a, ev_Timestamp = Unix (fst (time_Now s)),
     ev_Metadata = [(''drift_report'', AReportPtr n)]\<rparr> (wd_bus s)"
  by (simp add: drift_event_def split_beta Let_def)

lemma handleDrift_spec:
  assumes "sp_DriftDetection (wl_Spec (deref s a)) = Some config" "n < length (ds_reports ds)"
  obtains ds' s' evs where "handleDrift d a n ds s = Some (ds', s')" "only_observed s s'" "wd_calls s' = wd_calls s"
    "ds_reports ds' = (ds_reports ds)[n := (ds_reports ds ! n)\<lparr>dr_AutoReconciled := dr_AutoReconciled (ds_reports ds ! n) \<or> dd_AutoReconcile config\<rparr>]"
    "drift_events a n (dd_AutoReconcile config) evs" "wd_bus s' = fold PublishAsync evs (wd_bus s)"
proof (cases "dd_AutoReconcile config")
  case True
  show thesis
    using assms True
    by (intro that [of "fst (the (handleDrift d a n ds s))" "snd (the (handleDrift d a n ds s))"])
      (auto simp: handleDrift_def only_observed_def Let_def drift_events_def wd_bus_drift_event)
next
  case False
  show thesis
    using assms False
    by (intro that [of "fst (the (handleDrift d a n ds s))" "snd (the (handleDrift d a n ds s))"])
      (auto simp: handleDrift_def only_observed_def Let_def drift_events_def wd_bus_drift_event)
qed

definition status_query :: "RuntimeDriver \<Rightarrow> world \<Rightarrow> addr \<Rightarrow> string \<times> DriverCall" where
  "status_query drv s a = (drv_Name drv, CallGetStatus (wl_ID (deref s a)))"

definition count_type :: "EventType \<Rightarrow> Event list \<Rightarrow> nat" where
  "count_type t evs = length (filter (\<lambda>ev. ev_Type ev = t) evs)"

definition drift_pass :: "RuntimeDriver \<Rightarrow> addr list \<Rightarrow> DriftState \<Rightarrow> world \<Rightarrow> DriftState \<Rightarrow> world \<Rightarrow> bool" where
  \<comment> \<open>what checking the workloads \<open>as\<close> amounts to\<close>
  "drift_pass drv as ds s ds' s' =
     (only_observed s s' \<and>
      wd_calls s' = wd_calls s @ map (status_query drv s) (filter (\<lambda>a. drift_enabled (deref s a)) as) \<and>
      (\<exists>reps evs. ds_reports ds' = ds_reports ds @ reps \<and> wd_bus s' = fold PublishAsync evs (wd_bus s) \<and>
         subseq (map dr_WorkloadID reps) (map (\<lambda>a. wl_ID (deref s a)) (filter (\<lambda>a. drift_enabled (deref s a)) as)) \<and>
         count_type WorkloadDriftDetected evs = length reps \<and>
         count_type WorkloadDriftReconciled evs = length (filter dr_AutoReconciled reps) \<and>
         length evs = count_type WorkloadDriftDetected evs + count_type WorkloadDriftReconciled evs))"

lemma drift_pass_nothing: "\<not> drift_enabled (deref s a) \<Longrightarrow> drift_pass drv [a] ds s ds s"
  by (auto simp: drift_pass_def only_observed_def count_type_def intro: exI [of _ "[]"])

lemma drift_pass_quiet:
  assumes "drift_enabled (deref s a)" "only_observed s s'" "wd_calls s' = wd_calls s @ [status_query drv s a]"
    "wd_bus s' = wd_bus s"
  shows "drift_pass drv [a] ds s ds s'"
  using assms by (auto simp: drift_pass_def count_type_def intro!: exI [of _ "[]"])

lemma drift_pass_report:
  assumes "drift_enabled (deref s a)" "only_observed s s'" "wd_calls s' = wd_calls s @ [status_query drv s a]"
    "ds_reports ds' = ds_reports ds @ [rep]" "dr_WorkloadID rep = wl_ID (deref s a)"
    "drift_events a n (dr_AutoReconciled rep) evs" "wd_bus s' = fold PublishAsync evs (wd_bus s)"
  shows "drift_pass drv [a] ds s ds' s'"
  unfolding drift_pass_def using assms
  by (intro conjI exI [of _ "[rep]"] exI [of _ evs]) (auto simp: count_type_def drift_events_def)

lemma drift_pass_trans:
  assumes "drift_pass drv as ds s ds1 s1" "drift_pass drv bs ds1 s1 ds2 s2"
  shows "drift_pass drv (as @ bs) ds s ds2 s2"
proof -
  obtain reps evs where 1: "ds_reports ds1 = ds_reports ds @ reps" "wd_bus s1 = fold PublishAsync evs (wd_bus s)"
    "subseq (map dr_WorkloadID reps) (map (\<lambda>a. wl_ID (deref s a)) (filter (\<lambda>a. drift_enabled (deref s a)) as))"
    "count_type WorkloadDriftDetected evs = length reps" "count_type WorkloadDriftReconciled evs = length (filter dr_AutoReconciled reps)"
    "length evs = count_type WorkloadDriftDetected evs + count_type WorkloadDriftReconciled evs"
    using assms(1) unfolding drift_pass_def by blast
  obtain reps' evs' where 2: "ds_reports ds2 = ds_reports ds1 @ reps'" "wd_bus s2 = fold PublishAsync evs' (wd_bus s1)"
    "subseq (map dr_WorkloadID reps') (map (\<lambda>a. wl_ID (deref s1 a)) (filter (\<lambda>a. drift_enabled (deref s1 a)) bs))"
    "count_type WorkloadDriftDetected evs' = length reps'" "count_type WorkloadDriftReconciled evs' = length (filter dr_AutoReconciled reps')"
    "length evs' = count_type WorkloadDriftDetected evs' + count_type WorkloadDriftReconciled evs'"
    using assms(2) unfolding drift_pass_def by blast
  have h: "wd_heap s1 = wd_heap s" using assms(1) by (simp add: drift_pass_def only_observed_def)
  have q: "status_query drv s1 = status_query drv s" by (simp add: status_query_def h fun_eq_iff)
  have "only_observed s s2 \<and>
      wd_calls s2 = wd_calls s @ map (status_query drv s) (filter (\<lambda>a. drift_enabled (deref s a)) (as @ bs))"
    using assms by (simp add: drift_pass_def only_observed_def q)
  moreover have "subseq (map dr_WorkloadID (reps @ reps')) (map (\<lambda>a. wl_ID (deref s a)) (filter (\<lambda>a. drift_enabled (deref s a)) (as @ bs)))"
    using 1(3) 2(3) by (simp add: h list_emb_append_mono)
  ultimately show ?thesis
    unfolding drift_pass_def using 1 2 by (intro conjI exI [of _ "reps @ reps'"] exI [of _ "evs @ evs'"]) (simp_all add: count_type_def)
qed

definition tolerance_known :: "Detector \<Rightarrow> Workload \<Rightarrow> bool" where
  "tolerance_known d w = (case sp_DriftDetection (wl_Spec w) of None \<Rightarrow> True
     | Some config \<Rightarrow> \<not> dd_Enabled config \<or> \<not> env_monitored config \<or> effective_tolerance d config \<noteq> None)"

lemma checkWorkload_pass:
  assumes "dc_runtimeDriver d = Some drv" "tolerance_known d (deref s a)"
  shows "\<exists>ds' s'. checkWorkload d a ds s = Some (ds', s') \<and> drift_pass drv [a] ds s ds' s'"
proof (cases "drift_enabled (deref s a)")
  case False
  then show ?thesis by (simp add: checkWorkload_def drift_pass_nothing)
next
  case True
  then obtain config where c: "sp_DriftDetection (wl_Spec (deref s a)) = Some config" "\<not> (env_monitored config \<and> effective_tolerance d config = None)"
    using assms(2) by (auto simp: drift_enabled_def tolerance_known_def split: option.splits)
  show ?thesis
  proof (cases "drv_GetStatus drv (wd_calls s) (wl_ID (deref s a))")
    case (Inl err)
    show ?thesis
      using True by (auto simp: checkWorkload_def detectDrift_error [OF assms(1) Inl] only_observed_def status_query_def intro!: drift_pass_quiet)
  next
    case (Inr actual)
    obtain r s1 where r: "detectDrift d a s = Some (Ok r, s1)"
      "s1 = snd (time_Now (snd (time_Now (call_driver drv (CallGetStatus (wl_ID (deref s a))) s))))"
      "\<And>rep. r = Some rep \<Longrightarrow> dr_WorkloadID rep = wl_ID (deref s a) \<and> \<not> dr_AutoReconciled rep"
      using detectDrift_cases [OF assms(1) Inr c] by metis
    have s1: "only_observed s s1" "wd_calls s1 = wd_calls s @ [status_query drv s a]" "wd_bus s1 = wd_bus s"
      by (simp_all add: r(2) only_observed_def status_query_def)
    show ?thesis
    proof (cases r)
      case None
      then show ?thesis using True s1 by (auto simp: checkWorkload_def r(1) intro: drift_pass_quiet)
    next
      case (Some rep)
      let ?ds = "ds\<lparr>ds_reports := ds_reports ds @ [rep]\<rparr>"
      have cfg: "sp_DriftDetection (wl_Spec (deref s1 a)) = Some config" using s1(1) c(1) by (simp add: only_observed_def)
      obtain ds' s' evs where h: "handleDrift d a (length (ds_reports ds)) ?ds s1 = Some (ds', s')" "only_observed s1 s'"
        "wd_calls s' = wd_calls s1" "ds_reports ds' = ds_reports ds @ [rep\<lparr>dr_AutoReconciled := dd_AutoReconcile config\<rparr>]"
        "drift_events a (length (ds_reports ds)) (dd_AutoReconcile config) evs" "wd_bus s' = fold PublishAsync evs (wd_bus s1)"
        by (rule handleDrift_spec [OF cfg, of "length (ds_reports ds)" ?ds d]) (use r(3) [OF Some] in auto)
      have "drift_pass drv [a] ds s ds' s'"
        by (rule drift_pass_report [OF True _ _ h(4), where evs = evs]) (use s1 h r(3) [OF Some] in \<open>auto simp: only_observed_def\<close>)
      then show ?thesis using True h(1) by (simp add: checkWorkload_def r(1) Some)
    qed
  qed
qed

text \<open>
  Checking all workloads observes and does not act: with a driver and known tolerances the
  pass always completes, even when status queries fail. It queries the driver once per
  workload with drift detection enabled, in order, and makes no other driver call, also for
  workloads with \<open>AutoReconcile\<close>, whose reports are only marked and announced. Workloads, store
  and event log are unchanged; there is one detected event per report and one reconciled event
  per auto-reconciled report.
\<close>

theorem drift_check_only_observes:
  assumes "dc_runtimeDriver d = Some drv" "\<forall>a \<in> set as. tolerance_known d (deref s a)"
  shows "\<exists>ds' s'. checkWorkloads d as ds s = Some (ds', s') \<and> drift_pass drv as ds s ds' s'"
  using assms(2)
proof (induction as arbitrary: ds s)
  case Nil
  then show ?case by (auto simp: drift_pass_def only_observed_def count_type_def intro!: exI [of _ "[]"])
next
  case (Cons a as)
  obtain ds1 s1 where 1: "checkWorkload d a ds s = Some (ds1, s1)" "drift_pass drv [a] ds s ds1 s1"
    using checkWorkload_pass [OF assms(1)] Cons.prems by fastforce
  have "wd_heap s1 = wd_heap s" using 1(2) by (simp add: drift_pass_def only_observed_def)
  then obtain ds2 s2 where 2: "checkWorkloads d as ds1 s1 = Some (ds2, s2)" "drift_pass drv as ds1 s1 ds2 s2"
    using Cons.IH [of s1 ds1] Cons.prems by auto
  show ?case using 1(1) 2(1) drift_pass_trans [OF 1(2) 2(2)] by simp
qed

theorem drift_check_only_observes_witness:
  "\<exists>ds' s'. checkWorkloads (demo_detector 4) [0, 2] \<lparr>ds_reports = [], ds_sent = []\<rparr> (demo_world (\<lambda>_. demo_watched) []) = Some (ds', s') \<and>
     drift_pass (demo_driver 4) [0, 2] \<lparr>ds_reports = [], ds_sent = []\<rparr> (demo_world (\<lambda>_. demo_watched) []) ds' s'"
  by (rule drift_check_only_observes) (simp_all add: tolerance_known_def effective_tolerance_def)

section \<open>Notifications\<close>

lemma CanonicalHeaderKey_Authorization: "CanonicalHeaderKey ''Authorization'' = ''Authorization''"
  by code_simp

text \<open>
  A webhook with a secret is always authenticated: whatever headers the hook configures,
  also a header that canonicalises to \<open>Authorization\<close>, every request sent carries the bearer token
  of the hook's secret, is a POST to the hook's URL, and at most one request is sent. Any
  answer with status 400 or above, and any transport error, is an error.
\<close>

theorem webhook_is_authenticated:
  "case sendWebhook lib report hook of (err, reqs) \<Rightarrow>
     length reqs \<le> 1 \<and>
     list_all (\<lambda>req. rq_Method req = ''POST'' \<and> rq_URL req = nh_URL hook \<and>
       (if nh_Secret hook = [] then True else map_of (rq_Header req) ''Authorization'' = Some (''Bearer '' @ nh_Secret hook))) reqs \<and>
     (err = None \<longleftrightarrow> (\<exists>req code. reqs = [req] \<and> nl_Do lib req = Ok code \<and> code < 400))"
  by (auto simp: sendWebhook_def client_Do_def webhook_headers_def Header_Set_def CanonicalHeaderKey_Authorization Let_def
      update_conv' split: sum.split option.split)

end
