(* ===== verification/MultiTenancy.thy ===== *)
theory MultiTenancy
  imports Quota
begin

text \<open>
  \<open>internal/multitenancy/engine.go\<close>: tenants with quotas and usage counters. The registry maps
  tenant ids to the registry's own copy of the tenant; its operations run under its mutex and
  are atomic here. The 32-bit counters and sums wrap as in the code. Quantities are the
  parameter of theory \<open>Quota\<close>.

  The lemmas: which workloads a tenant admits, that a run of admissions never exceeds the
  workload and replica limits, that the usage counters are the sums of the updates applied to
  them, and what an unknown tenant gives.
\<close>

record ResourceUsage =
  us_CPUUsed :: string
  us_MemoryUsed :: string
  us_WorkloadCount :: int32
  us_ReplicaCount :: int32
  us_StorageUsed :: string
  us_CustomMetricCount :: int32

record Tenant =
  te_ID :: string
  te_Name :: string
  te_Namespace :: string
  te_Labels :: strmap
  te_Quota :: "TenantQuota option"
  te_Isolation :: "TenantIsolation option"
  te_ResourceUsage :: ResourceUsage

type_synonym TenantRegistry = "(string, Tenant) gomap"

definition NewTenantRegistry :: TenantRegistry where
  "NewTenantRegistry = []"

definition tenancy_New :: "Store \<Rightarrow> Store \<times> TenantRegistry" where
  "tenancy_New store = (store, NewTenantRegistry)"

definition new_tenant :: "TenantInfo \<Rightarrow> Tenant" where
  "new_tenant t = \<lparr>te_ID = tn_ID t, te_Name = tn_Name t, te_Namespace = tn_Namespace t, te_Labels = tn_Labels t,
     te_Quota = tn_Quota t, te_Isolation = tn_Isolation t,
     te_ResourceUsage = \<lparr>us_CPUUsed = ''0'', us_MemoryUsed = ''0'', us_WorkloadCount = 0, us_ReplicaCount = 0,
       us_StorageUsed = ''0'', us_CustomMetricCount = 0\<rparr>\<rparr>"

definition RegisterTenant :: "TenantInfo \<Rightarrow> TenantRegistry \<Rightarrow> error option \<times> TenantRegistry" where
  "RegisterTenant t r = (case map_of r (tn_ID t) of
     Some _ \<Rightarrow> (Some (Errorf ''tenant %s already exists'' [Str (tn_ID t)]), r)
   | None \<Rightarrow> (None, AList.update (tn_ID t) (new_tenant t) r))"

definition GetTenant :: "string \<Rightarrow> TenantRegistry \<Rightarrow> (error, Tenant) result" where
  "GetTenant tenantID r = (case map_of r tenantID of
     None \<Rightarrow> Err (Errorf ''tenant %s not found'' [Str tenantID])
   | Some t \<Rightarrow> Ok t)"

definition GetTenantWorkloads :: "Store \<Rightarrow> string \<Rightarrow> world \<Rightarrow> (error, addr list) result \<times> world" where
  "GetTenantWorkloads st tenantID s = (case store_List st [] s of
     (Inl err, s1) \<Rightarrow> (Err (Wrapf ''failed to list workloads: %w'' [] err), s1)
   | (Inr as, s1) \<Rightarrow> (Ok (filter (\<lambda>a. case wl_Tenant (deref s1 a) of None \<Rightarrow> False | Some t \<Rightarrow> tn_ID t = tenantID) as), s1))"

section \<open>Quota\<close>

definition count_checks :: "string \<Rightarrow> TenantQuota \<Rightarrow> ResourceUsage \<Rightarrow> WorkloadSpec \<Rightarrow> error option" where
  \<comment> \<open>the workload, replica and custom metric checks of \<open>EnforceQuota\<close>\<close>
  "count_checks tid q us spec =
     (if sint (tq_MaxWorkloads q) > 0 \<and> sint (us_WorkloadCount us) \<ge> sint (tq_MaxWorkloads q)
      then Some (Errorf ''tenant %s has reached maximum workload limit (%d)'' [Str tid, Num (sint (tq_MaxWorkloads q))])
      else if sint (tq_MaxReplicas q) > 0 \<and> sint (us_ReplicaCount us + sp_Replicas spec) > sint (tq_MaxReplicas q)
      then Some (Errorf ''tenant %s would exceed replica limit (%d)'' [Str tid, Num (sint (tq_MaxReplicas q))])
      else case sp_AutoScaling spec of
             None \<Rightarrow> None
           | Some au \<Rightarrow>
               if as_Enabled au \<and> sint (tq_MaxCustomMetrics q) > 0 \<and>
                  sint (us_CustomMetricCount us + word_of_nat (length (as_CustomMetrics au))) > sint (tq_MaxCustomMetrics q)
               then Some (Errorf ''tenant %s would exceed custom metric limit (%d)'' [Str tid, Num (sint (tq_MaxCustomMetrics q))])
               else None)"

definition tenant_cap :: "'q QuantityLib \<Rightarrow> string \<Rightarrow> string \<Rightarrow> string \<Rightarrow> string \<Rightarrow> 'q \<Rightarrow> error option" where
  \<comment> \<open>the check of one quantity limit: error formats, tenant, limit, aggregate\<close>
  "tenant_cap lib invalid exceeded tid lmt ttl =
     (if trim_space lmt = [] then None
      else case ql_Parse lib lmt of
             Inl err \<Rightarrow> Some (Wrapf invalid [Str tid] err)
           | Inr capQ \<Rightarrow>
               if ql_Cmp lib ttl capQ > 0
               then Some (Errorf exceeded [Str tid, Str (ql_String lib capQ), Str (ql_String lib ttl)]) else None)"

definition resource_checks :: "'q QuantityLib \<Rightarrow> string \<Rightarrow> TenantQuota \<Rightarrow> Workload list \<Rightarrow> Workload \<Rightarrow> error option" where
  \<comment> \<open>the aggregation of CPU and memory requests over the tenant's workloads\<close>
  "resource_checks lib tid q peers w = (case SumRequests lib peers (wl_ID w) of
     Inl err \<Rightarrow> Some (Wrapf ''tenant quota aggregate resources: %w'' [] err)
   | Inr ttl \<Rightarrow>
       (case ParseCPU lib (rr_CPURequest (sp_Resources (wl_Spec w))) of
          Inl err \<Rightarrow> Some err
        | Inr cpuDelta \<Rightarrow>
            (case ParseMemory lib (rr_MemoryRequest (sp_Resources (wl_Spec w))) of
               Inl err \<Rightarrow> Some err
             | Inr memDelta \<Rightarrow>
                 (case tenant_cap lib ''tenant %s invalid MaxCPU quota: %w''
                         ''tenant %s would exceed CPU request quota %s (requests would total %s)'' tid (tq_MaxCPU q)
                         (ql_Add lib (qt_cpu ttl) cpuDelta) of
                    Some err \<Rightarrow> Some err
                  | None \<Rightarrow> tenant_cap lib ''tenant %s invalid MaxMemory quota: %w''
                         ''tenant %s would exceed memory request quota %s (requests would total %s)'' tid (tq_MaxMemory q)
                         (ql_Add lib (qt_mem ttl) memDelta)))))"

definition EnforceQuota :: "'q QuantityLib \<Rightarrow> Store \<Rightarrow> TenantRegistry \<Rightarrow> addr \<Rightarrow> world \<Rightarrow> error option \<times> world" where
  "EnforceQuota lib st r a s = (case wl_Tenant (deref s a) of
     None \<Rightarrow> (None, s)
   | Some tn \<Rightarrow>
       (case GetTenant (tn_ID tn) r of
          Inl err \<Rightarrow> (Some (Wrapf ''failed to get tenant info: %w'' [] err), s)
        | Inr t \<Rightarrow>
            (case te_Quota t of
               None \<Rightarrow> (None, s)
             | Some q \<Rightarrow>
                 (case count_checks (tn_ID tn) q (te_ResourceUsage t) (wl_Spec (deref s a)) of
                    Some err \<Rightarrow> (Some err, s)
                  | None \<Rightarrow>
                      if trim_space (tq_MaxCPU q) = [] \<and> trim_space (tq_MaxMemory q) = [] then (None, s)
                      else (case GetTenantWorkloads st (tn_ID tn) s of
                              (Inl err, s1) \<Rightarrow> (Some (Wrapf ''tenant quota list workloads: %w'' [] err), s1)
                            | (Inr peers, s1) \<Rightarrow> (resource_checks lib (tn_ID tn) q (map (deref s1) peers) (deref s1 a), s1))))))"

section \<open>Usage, isolation, validation\<close>

definition add_usage :: "WorkloadSpec \<Rightarrow> int32 \<Rightarrow> Tenant \<Rightarrow> Tenant" where
  "add_usage spec delta t = (let us = te_ResourceUsage t
     in t\<lparr>te_ResourceUsage := us\<lparr>us_WorkloadCount := us_WorkloadCount us + delta,
            us_ReplicaCount := us_ReplicaCount us + sp_Replicas spec * delta\<rparr>\<rparr>)"

definition UpdateUsage :: "Workload \<Rightarrow> int32 \<Rightarrow> TenantRegistry \<Rightarrow> error option \<times> TenantRegistry" where
  "UpdateUsage w delta r = (case wl_Tenant w of
     None \<Rightarrow> (None, r)
   | Some tn \<Rightarrow>
       (case map_of r (tn_ID tn) of
          None \<Rightarrow> (Some (Errorf ''tenant %s not found'' [Str (tn_ID tn)]), r)
        | Some t \<Rightarrow> (None, AList.update (tn_ID tn) (add_usage (wl_Spec w) delta t) r)))"

definition EnforceIsolation :: "Workload \<Rightarrow> error option" where
  \<comment> \<open>every branch of the source only logs\<close>
  "EnforceIsolation w = None"

definition tenancy_ValidateWorkload :: "'q QuantityLib \<Rightarrow> Store \<Rightarrow> TenantRegistry \<Rightarrow> addr \<Rightarrow> world \<Rightarrow> error option \<times> world" where
  "tenancy_ValidateWorkload lib st r a s = (case wl_Tenant (deref s a) of
     None \<Rightarrow> (None, s)
   | Some tn \<Rightarrow>
       (case GetTenant (tn_ID tn) r of
          Inl err \<Rightarrow> (Some (Wrapf ''tenant validation failed: %w'' [] err), s)
        | Inr _ \<Rightarrow>
            (case EnforceQuota lib st r a s of
               (Some err, s1) \<Rightarrow> (Some err, s1)
             | (None, s1) \<Rightarrow> (EnforceIsolation (deref s1 a), s1))))"

definition IsolateTenant :: "string \<Rightarrow> TenantRegistry \<Rightarrow> error option" where
  "IsolateTenant tenantID r = (case GetTenant tenantID r of
     Inl err \<Rightarrow> Some err
   | Inr t \<Rightarrow> (case te_Isolation t of
       None \<Rightarrow> Some (Errorf ''no isolation config for tenant %s'' [Str tenantID])
     | Some _ \<Rightarrow> None))"

definition GetTenantUsage :: "string \<Rightarrow> TenantRegistry \<Rightarrow> (error, ResourceUsage) result" where
  "GetTenantUsage tenantID r = (case GetTenant tenantID r of Inl err \<Rightarrow> Err err | Inr t \<Rightarrow> Ok (te_ResourceUsage t))"

section \<open>Admission\<close>

definition tenant_of :: "Workload \<Rightarrow> string option" where
  "tenant_of w = map_option tn_ID (wl_Tenant w)"

definition within_counts :: "Tenant \<Rightarrow> bool" where
  \<comment> \<open>the counters respect the configured limits\<close>
  "within_counts t = (case te_Quota t of None \<Rightarrow> True | Some q \<Rightarrow>
     (sint (tq_MaxWorkloads q) > 0 \<longrightarrow> sint (us_WorkloadCount (te_ResourceUsage t)) \<le> sint (tq_MaxWorkloads q)) \<and>
     (sint (tq_MaxReplicas q) > 0 \<longrightarrow> sint (us_ReplicaCount (te_ResourceUsage t)) \<le> sint (tq_MaxReplicas q)))"

definition registry_inv :: "TenantRegistry \<Rightarrow> bool" where
  "registry_inv r = (wf_map r \<and> (\<forall>i t. map_of r i = Some t \<longrightarrow> te_ID t = i \<and> within_counts t))"

datatype tenancy_op = OpRegister TenantInfo | OpAdmit addr world

definition tenancy_step :: "'q QuantityLib \<Rightarrow> Store \<Rightarrow> tenancy_op \<Rightarrow> TenantRegistry \<Rightarrow> TenantRegistry" where
  \<comment> \<open>register a tenant, or validate a workload in the current world and count it when it is admitted\<close>
  "tenancy_step lib st opn r = (case opn of
     OpRegister t \<Rightarrow> snd (RegisterTenant t r)
   | OpAdmit a s \<Rightarrow> (case tenancy_ValidateWorkload lib st r a s of
       (Some _, _) \<Rightarrow> r
     | (None, _) \<Rightarrow> snd (UpdateUsage (deref s a) 1 r)))"

lemma tenant_lookup_update [simp]:
  "map_of (AList.update i t r) j = (if j = i then Some t else map_of r j)"
  by (simp add: update_conv')

lemma ValidateWorkload_registered:
  assumes "fst (tenancy_ValidateWorkload lib st r a s) = None" "wl_Tenant (deref s a) = Some tn"
  obtains t where "map_of r (tn_ID tn) = Some t"
    "\<And>q. te_Quota t = Some q \<Longrightarrow> count_checks (tn_ID tn) q (te_ResourceUsage t) (wl_Spec (deref s a)) = None"
  using assms by (auto simp: tenancy_ValidateWorkload_def EnforceQuota_def GetTenant_def split: option.splits prod.splits)

lemma within_counts_new: "within_counts (new_tenant t)"
  by (auto simp: within_counts_def new_tenant_def split: option.split)

lemma count_checks_add:
  assumes "\<And>q. te_Quota t = Some q \<Longrightarrow> count_checks tid q (te_ResourceUsage t) spec = None"
  shows "within_counts (add_usage spec 1 t)"
proof (cases "te_Quota t")
  case (Some q)
  let ?us = "te_ResourceUsage t"
  note c = assms [OF Some]
  have "sint (us_WorkloadCount ?us + 1) \<le> sint (tq_MaxWorkloads q)" if "0 < sint (tq_MaxWorkloads q)"
  proof -
    have lt: "sint (us_WorkloadCount ?us) < sint (tq_MaxWorkloads q)"
      using that c by (auto simp: count_checks_def split: if_splits)
    then have "sint (us_WorkloadCount ?us + 1) = sint (us_WorkloadCount ?us) + 1"
      using sint32_bounds(2) [of "tq_MaxWorkloads q"] by (intro sint32_inc) linarith
    with lt show ?thesis by linarith
  qed
  moreover have "sint (us_ReplicaCount ?us + sp_Replicas spec) \<le> sint (tq_MaxReplicas q)" if "0 < sint (tq_MaxReplicas q)"
    using that c by (auto simp: count_checks_def split: if_splits)
  ultimately show ?thesis by (simp add: within_counts_def add_usage_def Some Let_def)
qed (simp add: within_counts_def add_usage_def Let_def)

lemma registry_inv_update:
  "registry_inv r \<Longrightarrow> te_ID t = i \<Longrightarrow> within_counts t \<Longrightarrow> registry_inv (AList.update i t r)"
  by (simp add: registry_inv_def)

lemma tenancy_step_inv: "registry_inv r \<Longrightarrow> registry_inv (tenancy_step lib st opn r)"
proof (cases opn)
  case (OpRegister t)
  assume "registry_inv r"
  then show ?thesis
    by (auto simp: OpRegister tenancy_step_def RegisterTenant_def new_tenant_def within_counts_new [unfolded new_tenant_def]
        intro!: registry_inv_update split: option.split)
next
  case (OpAdmit a s)
  assume inv: "registry_inv r"
  show ?thesis
  proof (cases "fst (tenancy_ValidateWorkload lib st r a s) = None \<and> wl_Tenant (deref s a) \<noteq> None")
    case True
    then obtain tn where tn: "wl_Tenant (deref s a) = Some tn" by blast
    obtain t where t: "map_of r (tn_ID tn) = Some t"
      "\<And>q. te_Quota t = Some q \<Longrightarrow> count_checks (tn_ID tn) q (te_ResourceUsage t) (wl_Spec (deref s a)) = None"
      using ValidateWorkload_registered True tn by blast
    then have "registry_inv (AList.update (tn_ID tn) (add_usage (wl_Spec (deref s a)) 1 t) r)"
      using inv by (intro registry_inv_update count_checks_add) (auto simp: registry_inv_def add_usage_def Let_def)
    moreover obtain s1 where "tenancy_ValidateWorkload lib st r a s = (None, s1)"
      using True by (cases "tenancy_ValidateWorkload lib st r a s") simp
    ultimately show ?thesis by (simp add: OpAdmit tenancy_step_def UpdateUsage_def tn t)
  next
    case False
    then show ?thesis using inv
      by (auto simp: OpAdmit tenancy_step_def UpdateUsage_def split: prod.split option.split)
  qed
qed


section \<open>Aggregated requests\<close>

lemma tenant_cap_None:
  assumes "tenant_cap lib a b i l ttl = None" "quantity_laws lib val" "trim_space l \<noteq> []"
  shows "\<exists>q. ql_Parse lib l = Ok q \<and> val ttl \<le> val q"
  using assms by (auto simp: tenant_cap_def quantity_laws_def split: if_splits sum.splits)

lemma resource_checks_None:
  assumes "resource_checks lib i q peers w = None" "quantity_laws lib val"
  shows "trim_space (tq_MaxCPU q) \<noteq> [] \<Longrightarrow> \<exists>c. ql_Parse lib (tq_MaxCPU q) = Ok c \<and>
      sum_list (map (cpu_val lib val) (others (wl_ID w) peers)) + cpu_val lib val w \<le> val c"
    and "trim_space (tq_MaxMemory q) \<noteq> [] \<Longrightarrow> \<exists>c. ql_Parse lib (tq_MaxMemory q) = Ok c \<and>
      sum_list (map (mem_val lib val) (others (wl_ID w) peers)) + mem_val lib val w \<le> val c"
proof -
  obtain ttl cd md where ok: "SumRequests lib peers (wl_ID w) = Ok ttl"
    "ParseCPU lib (rr_CPURequest (sp_Resources (wl_Spec w))) = Ok cd" "ParseMemory lib (rr_MemoryRequest (sp_Resources (wl_Spec w))) = Ok md"
    "\<exists>a b. tenant_cap lib a b i (tq_MaxCPU q) (ql_Add lib (qt_cpu ttl) cd) = None"
    "\<exists>a b. tenant_cap lib a b i (tq_MaxMemory q) (ql_Add lib (qt_mem ttl) md) = None"
    using assms(1) by (simp add: resource_checks_def split: sum.splits option.splits) blast
  note sums = SumRequests_ok(3,4) [OF ok(1) assms(2)]
  have "val (ql_Add lib (qt_cpu ttl) cd) = sum_list (map (cpu_val lib val) (others (wl_ID w) peers)) + cpu_val lib val w"
    "val (ql_Add lib (qt_mem ttl) md) = sum_list (map (mem_val lib val) (others (wl_ID w) peers)) + mem_val lib val w"
    using assms(2) by (simp_all add: quantity_laws_def sums cpu_val_def mem_val_def val_or_zero_def ok)
  then show "trim_space (tq_MaxCPU q) \<noteq> [] \<Longrightarrow> \<exists>c. ql_Parse lib (tq_MaxCPU q) = Ok c \<and>
      sum_list (map (cpu_val lib val) (others (wl_ID w) peers)) + cpu_val lib val w \<le> val c"
    "trim_space (tq_MaxMemory q) \<noteq> [] \<Longrightarrow> \<exists>c. ql_Parse lib (tq_MaxMemory q) = Ok c \<and>
      sum_list (map (mem_val lib val) (others (wl_ID w) peers)) + mem_val lib val w \<le> val c"
    using ok(4,5) tenant_cap_None [OF _ assms(2)] by (metis)+
qed

definition tenant_ids :: "(world \<Rightarrow> string \<Rightarrow> addr option) \<Rightarrow> string \<Rightarrow> world \<Rightarrow> string set" where
  \<comment> \<open>the ids stored for a tenant\<close>
  "tenant_ids stored tid s = {i. \<exists>a. stored s i = Some a \<and> tenant_of (deref s a) = Some tid}"

context workload_store
begin

lemma GetTenantWorkloads_spec:
  assumes "valid s"
  obtains ids where "distinct ids" "set ids = tenant_ids stored tid s"
    "GetTenantWorkloads st tid s = (Ok (map (\<lambda>i. the (stored s i)) ids), s)"
proof -
  obtain ids where ids: "distinct ids" "set ids = {i. \<exists>a. stored s i = Some a}"
    "store_List st [] s = (Ok (map (\<lambda>i. the (stored s i)) ids), s)"
    using List [OF assms, of "[]"] by auto
  let ?P = "\<lambda>a. case wl_Tenant (deref s a) of None \<Rightarrow> False | Some t \<Rightarrow> tn_ID t = tid"
  have "set (filter (\<lambda>i. ?P (the (stored s i))) ids) = tenant_ids stored tid s"
    using ids(2) by (auto simp: tenant_ids_def tenant_of_def split: option.splits)
  moreover have "GetTenantWorkloads st tid s = (Ok (map (\<lambda>i. the (stored s i)) (filter (\<lambda>i. ?P (the (stored s i))) ids)), s)"
    by (simp add: GetTenantWorkloads_def ids(3) filter_map comp_def)
  ultimately show thesis using ids(1) by (intro that) auto
qed

lemma tenant_aggregate:
  assumes "valid s" "fst (tenancy_ValidateWorkload lib st r a s) = None"
    and "wl_Tenant (deref s a) = Some tn" "map_of r (tn_ID tn) = Some t" "te_Quota t = Some q"
    and "trim_space (tq_MaxCPU q) \<noteq> [] \<or> trim_space (tq_MaxMemory q) \<noteq> []"
  obtains ids where "distinct ids" "set ids = tenant_ids stored (tn_ID tn) s"
    "resource_checks lib (tn_ID tn) q (map (\<lambda>i. deref s (the (stored s i))) ids) (deref s a) = None"
proof -
  obtain ids where ids: "distinct ids" "set ids = tenant_ids stored (tn_ID tn) s"
    "GetTenantWorkloads st (tn_ID tn) s = (Ok (map (\<lambda>i. the (stored s i)) ids), s)"
    using GetTenantWorkloads_spec [OF assms(1)] by blast
  have "resource_checks lib (tn_ID tn) q (map (\<lambda>i. deref s (the (stored s i))) ids) (deref s a) = None"
    using assms(2-6) by (auto simp: tenancy_ValidateWorkload_def EnforceQuota_def GetTenant_def ids(3) comp_def
        split: option.splits prod.splits)
  with ids(1,2) show thesis by (rule that)
qed

end

text \<open>
  Tenant admission is sound: a workload that validation admits belongs to no tenant or to a
  registered one, whose counters leave room for it, and the CPU and memory requests of the
  stored workloads of that tenant (the workload itself replaced by its new version) are within
  the tenant's configured limits, which are valid quantities.
\<close>

theorem tenant_admission_is_sound:
  assumes "mem_valid s" "quantity_laws lib val"
    and "fst (tenancy_ValidateWorkload lib (NewVersionedStore MemStore n) r a s) = None" "wl_Tenant (deref s a) = Some tn"
  shows "\<exists>t. map_of r (tn_ID tn) = Some t \<and> (\<forall>q. te_Quota t = Some q \<longrightarrow>
    (sint (tq_MaxWorkloads q) > 0 \<longrightarrow> sint (us_WorkloadCount (te_ResourceUsage t)) < sint (tq_MaxWorkloads q)) \<and>
    (sint (tq_MaxReplicas q) > 0 \<longrightarrow> sint (us_ReplicaCount (te_ResourceUsage t) + reps (deref s a)) \<le> sint (tq_MaxReplicas q)) \<and>
    (\<exists>ids. distinct ids \<and> set ids = tenant_ids mem_stored (tn_ID tn) s \<and>
       (let peers = others (wl_ID (deref s a)) (map (\<lambda>i. deref s (the (mem_stored s i))) ids)
        in (trim_space (tq_MaxCPU q) \<noteq> [] \<longrightarrow> (\<exists>c. ql_Parse lib (tq_MaxCPU q) = Ok c \<and>
              sum_list (map (cpu_val lib val) peers) + cpu_val lib val (deref s a) \<le> val c)) \<and>
           (trim_space (tq_MaxMemory q) \<noteq> [] \<longrightarrow> (\<exists>c. ql_Parse lib (tq_MaxMemory q) = Ok c \<and>
              sum_list (map (mem_val lib val) peers) + mem_val lib val (deref s a) \<le> val c)))))"
proof -
  obtain t where t: "map_of r (tn_ID tn) = Some t"
    "\<And>q. te_Quota t = Some q \<Longrightarrow> count_checks (tn_ID tn) q (te_ResourceUsage t) (wl_Spec (deref s a)) = None"
    using ValidateWorkload_registered [OF assms(3,4)] by blast
  show ?thesis
  proof (intro exI [of _ t] conjI allI impI t(1))
    fix q assume q: "te_Quota t = Some q"
    show "sint (us_WorkloadCount (te_ResourceUsage t)) < sint (tq_MaxWorkloads q)" if "0 < sint (tq_MaxWorkloads q)"
      using t(2) [OF q] that by (auto simp: count_checks_def split: if_splits)
    show "sint (us_ReplicaCount (te_ResourceUsage t) + reps (deref s a)) \<le> sint (tq_MaxReplicas q)" if "0 < sint (tq_MaxReplicas q)"
      using t(2) [OF q] that by (auto simp: count_checks_def split: if_splits)
    show "\<exists>ids. distinct ids \<and> set ids = tenant_ids mem_stored (tn_ID tn) s \<and>
       (let peers = others (wl_ID (deref s a)) (map (\<lambda>i. deref s (the (mem_stored s i))) ids)
        in (trim_space (tq_MaxCPU q) \<noteq> [] \<longrightarrow> (\<exists>c. ql_Parse lib (tq_MaxCPU q) = Ok c \<and>
              sum_list (map (cpu_val lib val) peers) + cpu_val lib val (deref s a) \<le> val c)) \<and>
           (trim_space (tq_MaxMemory q) \<noteq> [] \<longrightarrow> (\<exists>c. ql_Parse lib (tq_MaxMemory q) = Ok c \<and>
              sum_list (map (mem_val lib val) peers) + mem_val lib val (deref s a) \<le> val c)))"
    proof (cases "trim_space (tq_MaxCPU q) = [] \<and> trim_space (tq_MaxMemory q) = []")
      case True
      then show ?thesis using vs.GetTenantWorkloads_spec [OF assms(1), of "tn_ID tn"] by (metis (no_types))
    next
      case False
      then obtain ids where ids: "distinct ids" "set ids = tenant_ids mem_stored (tn_ID tn) s"
        "resource_checks lib (tn_ID tn) q (map (\<lambda>i. deref s (the (mem_stored s i))) ids) (deref s a) = None"
        using vs.tenant_aggregate [OF assms(1,3,4) t(1) q] by blast
      show ?thesis using ids(1,2) resource_checks_None [OF ids(3) assms(2)] by (auto simp: Let_def)
    qed
  qed
qed

section \<open>Usage counters\<close>

definition usage_of :: "TenantRegistry \<Rightarrow> string \<Rightarrow> (int32 \<times> int32) option" where
  "usage_of r i = map_option (\<lambda>t. (us_WorkloadCount (te_ResourceUsage t), us_ReplicaCount (te_ResourceUsage t))) (map_of r i)"

abbreviation for_tenant :: "string \<Rightarrow> (Workload \<times> int32) list \<Rightarrow> (Workload \<times> int32) list" where
  "for_tenant i us \<equiv> filter (\<lambda>(w, _). tenant_of w = Some i) us"

lemma usage_of_UpdateUsage:
  "usage_of (snd (UpdateUsage w delta r)) i =
     (if tenant_of w = Some i then map_option (\<lambda>(n, m). (n + delta, m + sp_Replicas (wl_Spec w) * delta)) (usage_of r i)
      else usage_of r i)"
  by (auto simp: usage_of_def UpdateUsage_def tenant_of_def add_usage_def Let_def split: option.splits)

text \<open>
  The usage counters are the sums of the updates: after any sequence of usage updates, a
  registered tenant's workload counter has grown by the sum of the deltas of its workloads and
  its replica counter by the sum of replicas times delta (32-bit, wrapping), an unregistered
  tenant stays unregistered, and updates for other tenants change nothing.
\<close>

theorem tenant_usage_is_sum_of_updates:
  "usage_of (fold (\<lambda>(w, delta) r. snd (UpdateUsage w delta r)) us r) i =
     map_option (\<lambda>(n, m). (n + (\<Sum>(w, delta) \<leftarrow> for_tenant i us. delta),
       m + (\<Sum>(w, delta) \<leftarrow> for_tenant i us. sp_Replicas (wl_Spec w) * delta))) (usage_of r i)"
proof (induction us arbitrary: r)
  case Nil
  then show ?case by (cases "usage_of r i") auto
next
  case (Cons u us)
  obtain w delta where u: "u = (w, delta)" by (cases u)
  show ?case
    unfolding u fold_simps comp_def prod.case Cons.IH usage_of_UpdateUsage
    by (cases "usage_of r i") (auto simp: add.assoc)
qed

section \<open>Witnesses\<close>

definition demo_tenant :: TenantInfo where
  "demo_tenant = \<lparr>tn_ID = ''acme'', tn_Name = ''acme'', tn_Namespace = ''prod'', tn_Labels = None,
     tn_Quota = Some \<lparr>tq_MaxCPU = [], tq_MaxMemory = ''12'', tq_MaxWorkloads = 1, tq_MaxReplicas = 3, tq_MaxStorage = [],
       tq_MaxCustomMetrics = 0\<rparr>, tn_Isolation = None\<rparr>"

definition demo_tenant_workload :: Workload where
  "demo_tenant_workload = (quota_workload ''a'' ''prod'' 2)\<lparr>wl_Tenant := Some demo_tenant\<rparr>"

lemma demo_tenant_valid:
  "fst (tenancy_ValidateWorkload int_quantities (NewVersionedStore MemStore 5) (snd (RegisterTenant demo_tenant NewTenantRegistry)) 0
     (demo_world (\<lambda>_. demo_tenant_workload) [])) = None"
proof -
  let ?s = "demo_world (\<lambda>_. demo_tenant_workload) []"
  have "mem_valid ?s" by simp
  then obtain ids where ids: "set ids = tenant_ids mem_stored ''acme'' ?s"
    "GetTenantWorkloads (NewVersionedStore MemStore 5) ''acme'' ?s = (Ok (map (\<lambda>i. the (mem_stored ?s i)) ids), ?s)"
    using vs.GetTenantWorkloads_spec by blast
  have "ids = []" using ids(1) by (simp add: tenant_ids_def)
  then have "GetTenantWorkloads (NewVersionedStore MemStore 5) ''acme'' ?s = (Ok [], ?s)" using ids(2) by simp
  then show ?thesis
    by (simp add: tenancy_ValidateWorkload_def EnforceQuota_def EnforceIsolation_def demo_tenant_workload_def demo_tenant_def
        quota_workload_def GetTenant_def RegisterTenant_def NewTenantRegistry_def new_tenant_def count_checks_def resource_checks_def
        SumRequests_def ParseCPU_def ParseMemory_def tenant_cap_def int_quantities_def zero_defs)
qed

theorem tenant_admission_is_sound_witness:
  "\<exists>t. map_of (snd (RegisterTenant demo_tenant NewTenantRegistry)) ''acme'' = Some t \<and>
     sint (us_WorkloadCount (te_ResourceUsage t)) < 1"
  using tenant_admission_is_sound [OF _ int_quantities_laws demo_tenant_valid, of demo_tenant]
  by (simp add: demo_tenant_workload_def demo_tenant_def RegisterTenant_def NewTenantRegistry_def new_tenant_def)

end
