(* ===== verification/WorkloadQuery.thy ===== *)
theory WorkloadQuery
  imports Quota
begin

text \<open>
  \<open>internal/workloadfilter/filter.go\<close> and \<open>internal/workloadpage/page.go\<close>: the search filter and
  cursor paging of the list endpoint, and \<open>internal/diff/compute.go\<close> with \<open>pkg/types/diff.go\<close>: the
  comparison of a workload's desired spec with its live state. A pointer that may be nil is an
  option. \<open>pagination.SlicePage\<close> belongs to another repository and is a parameter: it sees its
  items only through their \<open>GetID\<close>.

  The lemmas: a search with no criteria matches everything and criteria only narrow it; the
  diff lists exactly the fields whose values differ up to surrounding blanks, and its summary
  counts them.
\<close>

section \<open>Search\<close>

record Query =
  q_AllNamespaces :: bool
  q_Namespace :: string
  q_Phase :: string
  q_Status :: string
  q_Image :: string
  q_Team :: string
  q_Environment :: string
  q_CostCenter :: string
  q_LabelKey :: string
  q_LabelValue :: string

definition environment :: "Workload \<Rightarrow> string" where
  "environment w = (case wl_Tags w of
     Some t \<Rightarrow> if wt_Environment t \<noteq> [] then wt_Environment t else sget (wl_Labels w) LabelKeyEnvironment
   | None \<Rightarrow> sget (wl_Labels w) LabelKeyEnvironment)"

definition costCenter :: "Workload \<Rightarrow> string" where
  "costCenter w = (case wl_Tags w of
     Some t \<Rightarrow> if wt_CostCenter t \<noteq> [] then wt_CostCenter t else sget (wl_Labels w) LabelKeyCostCenter
   | None \<Rightarrow> sget (wl_Labels w) LabelKeyCostCenter)"

definition query_phase :: "Query \<Rightarrow> string" where
  "query_phase q = (if trim_space (q_Phase q) = [] then trim_space (q_Status q) else trim_space (q_Phase q))"

definition Match :: "Workload option \<Rightarrow> Query \<Rightarrow> bool" where
  "Match wo q = (case wo of
     None \<Rightarrow> False
   | Some w \<Rightarrow>
       if \<not> q_AllNamespaces q \<and> trim_space (q_Namespace q) \<noteq> [] \<and> \<not> equal_fold (wl_Namespace w) (trim_space (q_Namespace q))
       then False
       else if query_phase q \<noteq> [] \<and> \<not> equal_fold (phase w) (query_phase q) then False
       else if trim_space (q_Image q) \<noteq> [] \<and> \<not> contains_sub (to_lower (sp_Image (wl_Spec w))) (to_lower (trim_space (q_Image q)))
       then False
       else if trim_space (q_Team q) \<noteq> [] \<and> \<not> equal_fold (TeamLabel w) (trim_space (q_Team q)) then False
       else if trim_space (q_Environment q) \<noteq> [] \<and> \<not> equal_fold (environment w) (trim_space (q_Environment q)) then False
       else if trim_space (q_CostCenter q) \<noteq> [] \<and> \<not> equal_fold (costCenter w) (trim_space (q_CostCenter q)) then False
       else if trim_space (q_LabelKey q) \<noteq> [] then
         (case wl_Labels w of
            None \<Rightarrow> False
          | Some labels \<Rightarrow>
              if trim_space (q_LabelValue q) \<noteq> []
              then equal_fold (sget (Some labels) (trim_space (q_LabelKey q))) (trim_space (q_LabelValue q))
              else map_of labels (trim_space (q_LabelKey q)) \<noteq> None)
       else True)"

fun Filter :: "world \<Rightarrow> addr option list \<Rightarrow> Query \<Rightarrow> addr option list" where
  "Filter s [] q = []"
| "Filter s (a # as) q = (if Match (map_option (deref s) a) q then a # Filter s as q else Filter s as q)"

section \<open>Pages\<close>

type_synonym ('p, 'i) SlicePage = "(addr option \<Rightarrow> string) \<Rightarrow> addr option list \<Rightarrow> 'p \<Rightarrow> addr option list \<times> 'i"

definition GetID :: "world \<Rightarrow> addr option \<Rightarrow> string" where
  "GetID s a = (case a of None \<Rightarrow> [] | Some b \<Rightarrow> wl_ID (deref s b))"

definition Paginate :: "('p, 'i) SlicePage \<Rightarrow> world \<Rightarrow> addr option list \<Rightarrow> 'p \<Rightarrow> addr option list \<times> 'i" where
  "Paginate slicePage s all p = slicePage (GetID s) all p"

section \<open>Diff\<close>

record DiffChange =
  dg_Field :: string
  dg_OldValue :: scalar
  dg_NewValue :: scalar
  dg_ChangeType :: string

record DiffSummary =
  dy_TotalChanges :: int
  dy_Added :: int
  dy_Modified :: int
  dy_Removed :: int
  dy_HasDrift :: bool

record WorkloadDiffResult =
  wr_WorkloadID :: string
  wr_WorkloadName :: string
  wr_Namespace :: string
  wr_Desired :: "(string, scalar) gomap option"
  wr_Live :: "(string, scalar) gomap option"
  wr_Changes :: "DiffChange list"
  wr_Summary :: DiffSummary

definition Sprint :: "scalar \<Rightarrow> string" where
  \<comment> \<open>\<open>fmt.Sprint\<close> of the values a snapshot holds\<close>
  "Sprint v = (case v of SNil \<Rightarrow> ''<nil>'' | SStr s \<Rightarrow> s | SInt i \<Rightarrow> itoa i | SI32 x \<Rightarrow> itoa (sint x))"

definition lookup_any :: "(string, scalar) gomap \<Rightarrow> string \<Rightarrow> scalar" where
  "lookup_any m k = (case map_of m k of None \<Rightarrow> SNil | Some v \<Rightarrow> v)"

definition specSnapshot :: "WorkloadSpec \<Rightarrow> (string, scalar) gomap" where
  "specSnapshot s =
     [(''image'', SStr (sp_Image s)), (''replicas'', SI32 (sp_Replicas s)), (''backend'', SStr (sp_Backend s)),
      (''cpu_request'', SStr (rr_CPURequest (sp_Resources s))), (''cpu_limit'', SStr (rr_CPULimit (sp_Resources s))),
      (''memory_request'', SStr (rr_MemoryRequest (sp_Resources s))), (''memory_limit'', SStr (rr_MemoryLimit (sp_Resources s))),
      (''expected_phase'', SStr (if sp_Replicas s = 0 then ''Pending'' else ''Running''))]"

definition liveSnapshot :: "Workload \<Rightarrow> (string, scalar) gomap" where
  "liveSnapshot w =
     [(''image'', SStr (sp_Image (wl_Spec w))), (''replicas'', SI32 (st_Replicas (wl_Status w))),
      (''ready_replicas'', SI32 (st_ReadyReplicas (wl_Status w))), (''phase'', SStr (phase w)), (''backend'', SStr (sp_Backend (wl_Spec w))),
      (''cpu_request'', SStr (rr_CPURequest (sp_Resources (wl_Spec w)))), (''cpu_limit'', SStr (rr_CPULimit (sp_Resources (wl_Spec w)))),
      (''memory_request'', SStr (rr_MemoryRequest (sp_Resources (wl_Spec w)))),
      (''memory_limit'', SStr (rr_MemoryLimit (sp_Resources (wl_Spec w)))), (''message'', SStr (st_Message (wl_Status w)))]"

definition compareField :: "string \<Rightarrow> scalar \<Rightarrow> scalar \<Rightarrow> DiffChange list \<Rightarrow> DiffChange list" where
  "compareField field desired live changes =
     (let dstr = Sprint desired; lstr = Sprint live
      in if trim_space dstr = trim_space lstr then changes
         else changes @ [\<lparr>dg_Field = field, dg_OldValue = live, dg_NewValue = desired,
                dg_ChangeType = (if dstr = [] \<or> dstr = ''<nil>'' then ''removed''
                                 else if lstr = [] \<or> lstr = ''<nil>'' then ''added'' else ''modified'')\<rparr>])"

definition compared_fields :: "(string \<times> string \<times> string) list" where
  \<comment> \<open>the nine calls of \<open>compareField\<close>: field, key of the desired and of the live snapshot\<close>
  "compared_fields =
     [(''image'', ''image'', ''image''), (''replicas'', ''replicas'', ''replicas''), (''ready_replicas'', ''replicas'', ''ready_replicas''),
      (''phase'', ''expected_phase'', ''phase''), (''backend'', ''backend'', ''backend''), (''cpu_request'', ''cpu_request'', ''cpu_request''),
      (''memory_request'', ''memory_request'', ''memory_request''), (''cpu_limit'', ''cpu_limit'', ''cpu_limit''),
      (''memory_limit'', ''memory_limit'', ''memory_limit'')]"

definition count_change :: "DiffChange \<Rightarrow> DiffSummary \<Rightarrow> DiffSummary" where
  "count_change c y0 =
     (let y = y0\<lparr>dy_TotalChanges := dy_TotalChanges y0 + 1\<rparr>
      in if dg_ChangeType c = ''added'' then y\<lparr>dy_Added := dy_Added y + 1\<rparr>
         else if dg_ChangeType c = ''removed'' then y\<lparr>dy_Removed := dy_Removed y + 1\<rparr>
         else y\<lparr>dy_Modified := dy_Modified y + 1\<rparr>)"

definition zero_summary :: DiffSummary where
  "zero_summary = \<lparr>dy_TotalChanges = 0, dy_Added = 0, dy_Modified = 0, dy_Removed = 0, dy_HasDrift = False\<rparr>"

definition ComputeSpecVsLive :: "Workload option \<Rightarrow> WorkloadSpec option \<Rightarrow> WorkloadDiffResult" where
  "ComputeSpecVsLive wo proposed = (case wo of
     None \<Rightarrow> \<lparr>wr_WorkloadID = [], wr_WorkloadName = [], wr_Namespace = [], wr_Desired = None, wr_Live = None,
               wr_Changes = [], wr_Summary = zero_summary\<rparr>
   | Some w \<Rightarrow>
       let desired = (case proposed of None \<Rightarrow> wl_Spec w | Some p \<Rightarrow> p);
           desiredMap = specSnapshot desired; liveMap = liveSnapshot w;
           changes = fold (\<lambda>(f, d, l). compareField f (lookup_any desiredMap d) (lookup_any liveMap l)) compared_fields [];
           summary = fold count_change changes zero_summary
       in \<lparr>wr_WorkloadID = wl_ID w, wr_WorkloadName = wl_Name w, wr_Namespace = wl_Namespace w, wr_Desired = Some desiredMap,
           wr_Live = Some liveMap, wr_Changes = changes, wr_Summary = summary\<lparr>dy_HasDrift := dy_TotalChanges summary > 0\<rparr>\<rparr>)"

section \<open>Search results\<close>

lemma Filter_filter: "Filter s as q = filter (\<lambda>a. Match (map_option (deref s) a) q) as"
  by (induction as) auto

definition blank_query :: Query where
  "blank_query = \<lparr>q_AllNamespaces = False, q_Namespace = [], q_Phase = [], q_Status = [], q_Image = [], q_Team = [],
     q_Environment = [], q_CostCenter = [], q_LabelKey = [], q_LabelValue = []\<rparr>"

lemma Match_blank: "Match (Some w) blank_query"
  by (simp add: Match_def blank_query_def query_phase_def)

definition criterion :: "string \<Rightarrow> (string \<Rightarrow> Workload \<Rightarrow> bool) \<Rightarrow> Workload \<Rightarrow> bool" where
  "criterion v p w = (trim_space v = [] \<or> p (trim_space v) w)"

definition criteria :: "Query \<Rightarrow> (Workload \<Rightarrow> bool) list" where
  \<comment> \<open>the search, one independent criterion per query field\<close>
  "criteria q =
     [criterion (if q_AllNamespaces q then [] else q_Namespace q) (\<lambda>v w. equal_fold (wl_Namespace w) v),
      criterion (if trim_space (q_Phase q) = [] then q_Status q else q_Phase q) (\<lambda>v w. equal_fold (phase w) v),
      criterion (q_Image q) (\<lambda>v w. sublist (to_lower v) (to_lower (sp_Image (wl_Spec w)))),
      criterion (q_Team q) (\<lambda>v w. equal_fold (TeamLabel w) v),
      criterion (q_Environment q) (\<lambda>v w. equal_fold (environment w) v),
      criterion (q_CostCenter q) (\<lambda>v w. equal_fold (costCenter w) v),
      criterion (q_LabelKey q) (\<lambda>k w. if trim_space (q_LabelValue q) = [] then gget (wl_Labels w) k \<noteq> None
        else equal_fold (sget (wl_Labels w) k) (trim_space (q_LabelValue q)))]"

lemma query_phase_criterion:
  "criterion (if trim_space (q_Phase q) = [] then q_Status q else q_Phase q) p w \<longleftrightarrow> query_phase q = [] \<or> p (query_phase q) w"
  by (simp add: criterion_def query_phase_def)

lemma Match_criteria: "Match (Some w) q \<longleftrightarrow> list_all (\<lambda>c. c w) (criteria q)"
proof -
  have lbl: "\<not> equal_fold [] (trim_space v)" if "trim_space v \<noteq> []" for v
    using that by (metis equal_fold_def to_lower_Nil to_lower_eq_Nil)
  have label: "criterion (q_LabelKey q) (\<lambda>k w. if trim_space (q_LabelValue q) = [] then gget (wl_Labels w) k \<noteq> None
        else equal_fold (sget (wl_Labels w) k) (trim_space (q_LabelValue q))) w \<longleftrightarrow>
      (if trim_space (q_LabelKey q) \<noteq> [] then
         (case wl_Labels w of
            None \<Rightarrow> False
          | Some labels \<Rightarrow>
              if trim_space (q_LabelValue q) \<noteq> []
              then equal_fold (sget (Some labels) (trim_space (q_LabelKey q))) (trim_space (q_LabelValue q))
              else map_of labels (trim_space (q_LabelKey q)) \<noteq> None)
       else True)"
    by (cases "wl_Labels w") (auto simp: criterion_def lbl)
  have ns: "criterion (if q_AllNamespaces q then [] else q_Namespace q) p w \<longleftrightarrow>
      q_AllNamespaces q \<or> trim_space (q_Namespace q) = [] \<or> p (trim_space (q_Namespace q)) w" for p
    by (simp add: criterion_def)
  have stop: "(if A then False else B) = (\<not> A \<and> B)" for A B by simp
  show ?thesis
    unfolding Match_def option.case criteria_def list.pred_inject query_phase_criterion label ns contains_sub_iff
    by (simp only: criterion_def stop de_Morgan_conj not_not conj_assoc list.pred_inject simp_thms)
qed


section \<open>Differences\<close>

definition scalar_differs :: "scalar \<Rightarrow> scalar \<Rightarrow> bool" where
  \<comment> \<open>numbers by value, texts up to surrounding blanks\<close>
  "scalar_differs v w = (case (v, w) of
     (SI32 x, SI32 y) \<Rightarrow> x \<noteq> y
   | (SStr x, SStr y) \<Rightarrow> trim_space x \<noteq> trim_space y
   | _ \<Rightarrow> trim_space (Sprint v) \<noteq> trim_space (Sprint w))"

lemma scalar_differs_simps [simp]:
  "scalar_differs (SI32 x) (SI32 y) \<longleftrightarrow> x \<noteq> y" "scalar_differs (SStr v) (SStr w) \<longleftrightarrow> trim_space v \<noteq> trim_space w"
  by (simp_all add: scalar_differs_def)

lemma Sprint_differs: "trim_space (Sprint v) \<noteq> trim_space (Sprint w) \<longleftrightarrow> scalar_differs v w"
proof -
  have "sint x = sint y \<longleftrightarrow> x = y" for x y :: int32 by (rule word_eq_iff_signed [symmetric])
  then show ?thesis by (simp add: scalar_differs_def Sprint_def split: scalar.split)
qed

lemma compareField_eq:
  "map dg_Field (compareField f d l cs) = map dg_Field cs @ (if scalar_differs d l then [f] else [])"
  using Sprint_differs [of d l] by (auto simp: compareField_def Let_def)

lemma fold_compareField:
  "map dg_Field (fold (\<lambda>(f, d, l). compareField f (D d) (L l)) fs cs) =
     map dg_Field cs @ map fst (filter (\<lambda>(f, d, l). scalar_differs (D d) (L l)) fs)"
  by (induction fs arbitrary: cs) (auto simp: compareField_eq)

lemma fold_count_change:
  "dy_TotalChanges (fold count_change cs y) = dy_TotalChanges y + int (length cs) \<and>
   dy_Added (fold count_change cs y) = dy_Added y + int (length (filter (\<lambda>c. dg_ChangeType c = ''added'') cs)) \<and>
   dy_Removed (fold count_change cs y) = dy_Removed y + int (length (filter (\<lambda>c. dg_ChangeType c = ''removed'') cs)) \<and>
   dy_Modified (fold count_change cs y) = dy_Modified y + int (length (filter (\<lambda>c. dg_ChangeType c \<notin> {''added'', ''removed''}) cs))"
  by (induction cs arbitrary: y) (auto simp: count_change_def Let_def)

lemma summary_counts:
  "dy_TotalChanges (fold count_change cs zero_summary) = int (length cs)"
  "int (length cs) = dy_Added (fold count_change cs zero_summary) + dy_Modified (fold count_change cs zero_summary) +
     dy_Removed (fold count_change cs zero_summary)"
proof -
  have "int (length cs) = int (length (filter (\<lambda>c. dg_ChangeType c = ''added'') cs)) +
      int (length (filter (\<lambda>c. dg_ChangeType c \<notin> {''added'', ''removed''}) cs)) +
      int (length (filter (\<lambda>c. dg_ChangeType c = ''removed'') cs))"
    by (induction cs) auto
  then show "dy_TotalChanges (fold count_change cs zero_summary) = int (length cs)"
    "int (length cs) = dy_Added (fold count_change cs zero_summary) + dy_Modified (fold count_change cs zero_summary) +
       dy_Removed (fold count_change cs zero_summary)"
    using fold_count_change [of cs zero_summary] by (simp_all add: zero_summary_def)
qed

definition spec_field :: "WorkloadSpec \<Rightarrow> string \<Rightarrow> scalar" where
  "spec_field s f = lookup_any (specSnapshot s) f"

definition live_field :: "Workload \<Rightarrow> string \<Rightarrow> scalar" where
  "live_field w f = lookup_any (liveSnapshot w) f"

lemma spec_field_simps [simp]:
  "spec_field x ''image'' = SStr (sp_Image x)" "spec_field x ''replicas'' = SI32 (sp_Replicas x)"
  "spec_field x ''backend'' = SStr (sp_Backend x)" "spec_field x ''cpu_request'' = SStr (rr_CPURequest (sp_Resources x))"
  "spec_field x ''cpu_limit'' = SStr (rr_CPULimit (sp_Resources x))" "spec_field x ''memory_request'' = SStr (rr_MemoryRequest (sp_Resources x))"
  "spec_field x ''memory_limit'' = SStr (rr_MemoryLimit (sp_Resources x))"
  by (simp_all add: spec_field_def lookup_any_def specSnapshot_def)

lemma live_field_simps [simp]:
  "live_field w ''image'' = SStr (sp_Image (wl_Spec w))" "live_field w ''replicas'' = SI32 (st_Replicas (wl_Status w))"
  "live_field w ''backend'' = SStr (sp_Backend (wl_Spec w))" "live_field w ''cpu_request'' = SStr (rr_CPURequest (sp_Resources (wl_Spec w)))"
  "live_field w ''cpu_limit'' = SStr (rr_CPULimit (sp_Resources (wl_Spec w)))"
  "live_field w ''memory_request'' = SStr (rr_MemoryRequest (sp_Resources (wl_Spec w)))"
  "live_field w ''memory_limit'' = SStr (rr_MemoryLimit (sp_Resources (wl_Spec w)))"
  by (simp_all add: live_field_def lookup_any_def liveSnapshot_def)

lemma Changes_fields:
  "map dg_Field (fold (\<lambda>(f, d, l). compareField f (lookup_any (specSnapshot x) d) (lookup_any (liveSnapshot w) l)) fs []) =
     map fst (filter (\<lambda>(f, d, l). scalar_differs (spec_field x d) (live_field w l)) fs)"
  using fold_compareField [of "lookup_any (specSnapshot x)" "lookup_any (liveSnapshot w)" fs "[]"]
  by (simp add: spec_field_def live_field_def)

lemma ComputeSpecVsLive_Some:
  fixes w proposed
  defines "desired \<equiv> (case proposed of None \<Rightarrow> wl_Spec w | Some p \<Rightarrow> p)"
  obtains cs where "wr_Changes (ComputeSpecVsLive (Some w) proposed) = cs"
    "map dg_Field cs = map fst (filter (\<lambda>(f, d, l). scalar_differs (spec_field desired d) (live_field w l)) compared_fields)"
    "wr_Summary (ComputeSpecVsLive (Some w) proposed) = (fold count_change cs zero_summary)\<lparr>dy_HasDrift := 0 < length cs\<rparr>"
  by (rule that [OF refl]) (simp_all only: ComputeSpecVsLive_def Let_def option.case WorkloadDiffResult.simps Changes_fields
      desired_def summary_counts(1) of_nat_0_less_iff)

text \<open>
  The diff is exact: it lists, in the fixed order of the compared fields, exactly those whose
  desired and live values differ (replica counts by value, texts up to surrounding blanks), the
  summary counts the listed changes by kind, and drift is flagged exactly when one is listed.
\<close>

theorem diff_lists_exactly_the_differences:
  "let r = ComputeSpecVsLive (Some w) proposed; desired = (case proposed of None \<Rightarrow> wl_Spec w | Some p \<Rightarrow> p)
   in map dg_Field (wr_Changes r) =
        map fst (filter (\<lambda>(f, d, l). scalar_differs (spec_field desired d) (live_field w l)) compared_fields) \<and>
      dy_TotalChanges (wr_Summary r) = int (length (wr_Changes r)) \<and>
      dy_TotalChanges (wr_Summary r) = dy_Added (wr_Summary r) + dy_Modified (wr_Summary r) + dy_Removed (wr_Summary r) \<and>
      (dy_HasDrift (wr_Summary r) \<longleftrightarrow> wr_Changes r \<noteq> [])"
proof -
  obtain cs where cs: "wr_Changes (ComputeSpecVsLive (Some w) proposed) = cs"
    "map dg_Field cs = map fst (filter (\<lambda>(f, d, l). scalar_differs
       (spec_field (case proposed of None \<Rightarrow> wl_Spec w | Some p \<Rightarrow> p) d) (live_field w l)) compared_fields)"
    "wr_Summary (ComputeSpecVsLive (Some w) proposed) = (fold count_change cs zero_summary)\<lparr>dy_HasDrift := 0 < length cs\<rparr>"
    by (rule ComputeSpecVsLive_Some)
  show ?thesis
    unfolding Let_def cs(1,3) using cs(2) summary_counts(2) [of cs] by (simp add: summary_counts(1))
qed

text \<open>
  Without a proposed spec the live side of the image, backend and resource fields is the spec
  itself, so only replicas, ready replicas and phase can ever differ.
\<close>

theorem diff_without_proposal_sees_status_only:
  "set (map dg_Field (wr_Changes (ComputeSpecVsLive (Some w) None))) \<subseteq> {''replicas'', ''ready_replicas'', ''phase''}"
proof -
  obtain cs where "wr_Changes (ComputeSpecVsLive (Some w) None) = cs"
    "map dg_Field cs = map fst (filter (\<lambda>(f, d, l). scalar_differs (spec_field (wl_Spec w) d) (live_field w l)) compared_fields)"
    using ComputeSpecVsLive_Some [of w None] by auto
  then show ?thesis
    by (simp add: compared_fields_def)
qed

end
