(* ===== verification/Server.thy ===== *)
theory Server
  imports WorkloadQuery Scheduler SecretRotation GoStd
begin

text \<open>
  \<open>internal/server/\<close>: the REST API. A handler takes a request and the state of the process and
  gives a response and the next state; every early \<open>writeError\<close> is a branch.

  \<^item> The state is the world, the quota engine (handlers change it) and the secret registry.
  \<^item> A response is its status code and a body; \<open>BError\<close> is the body \<open>writeError\<close> writes, the
    other constructors are the values handlers pass to \<open>writeJSON\<close>.
  \<^item> \<open>encoding/json\<close> is the record \<open>Decoders\<close>, one decoder per request type, arbitrary here;
    \<open>jd_Targeted\<close> also gives what a failed decoding leaves in its target.
  \<^item> The types and interfaces of \<open>kranix-packages\<close> are outside this repository: paging
    (\<open>ParseParams\<close>, \<open>SlicePage\<close>), node operations, checkpoints and migration are parameters,
    their opaque values of type \<open>'x\<close>. A request of theirs is \<open>'x Targeted\<close>, the one
    field the handlers fill in and the rest.
  \<^item> The routes are the table of \<open>RegisterRoutes\<close> with the matching rules of
    \<open>http.ServeMux\<close>. \<open>ListenAndServe\<close> is left out.
\<close>

section \<open>Requests and responses\<close>

record Request =
  rx_Method :: string
  rx_Path :: "(string, string) gomap"
  rx_Query :: "(string, string list) gomap"
  rx_Body :: string
  rx_ContentLength :: int

definition PathValue :: "Request \<Rightarrow> string \<Rightarrow> string" where
  "PathValue r k = sget (Some (rx_Path r)) k"

definition query_Get :: "Request \<Rightarrow> string \<Rightarrow> string" where
  \<comment> \<open>\<open>url.Values.Get\<close>, the first value or the empty string\<close>
  "query_Get r k = (case map_of (rx_Query r) k of None \<Rightarrow> [] | Some [] \<Rightarrow> [] | Some (v # _) \<Rightarrow> v)"

record BulkWorkloadItem =
  bi_ID :: string
  bi_Spec :: WorkloadSpec

record BulkWorkloadRequest =
  bq_Operation :: string
  bq_Workloads :: "BulkWorkloadItem list"
  bq_ContinueOnError :: bool

record BulkWorkloadResult =
  br_ID :: string
  br_Success :: bool
  br_Error :: "error option"

record BulkWorkloadResponse =
  bp_Operation :: string
  bp_Results :: "BulkWorkloadResult list"
  bp_Succeeded :: int
  bp_Failed :: int

abbreviation BulkOpDeploy :: string where
  "BulkOpDeploy \<equiv> ''deploy''"

abbreviation BulkOpRestart :: string where
  "BulkOpRestart \<equiv> ''restart''"

abbreviation BulkOpDelete :: string where
  "BulkOpDelete \<equiv> ''delete''"

record 'x Targeted =
  tg_Name :: string
  tg_Rest :: 'x

record NodeHealthReport =
  nr_Name :: string
  nr_Score :: int
  nr_Architecture :: string
  nr_Ready :: bool
  nr_Draining :: bool
  nr_Unschedulable :: bool
  nr_CheckedAt :: gotime

datatype 'x Body =
    BError gotext
  | BEmpty
  | BBulk BulkWorkloadResponse
  | BID string
  | BIDStatus string string
  | BPage "addr option list" 'x int Query
  | BDiff WorkloadDiffResult
  | BQuotas "HardResourceQuota list" int
  | BQuota HardResourceQuota
  | BUsage ResourceQuotaUsage
  | BWorkload addr
  | BEvents "DomainEvent list"
  | BEvent DomainEvent
  | BAudit "string option" "string option" "DomainEvent list"
  | BAffected "string list"
  | BRevisions string "'x list" int string
  | BRollback string string string string string
  | BNodes "NodeHealthReport list" int
  | BNodeHealth "'x list" "'x list" int
  | BExternal 'x
  | BExternalList "'x list" int

record 'x Response =
  rp_Code :: int
  rp_Body :: "'x Body"

definition writeJSON :: "int \<Rightarrow> 'x Body \<Rightarrow> 'x Response" where
  "writeJSON code v = \<lparr>rp_Code = code, rp_Body = v\<rparr>"

definition writeError :: "int \<Rightarrow> gotext \<Rightarrow> 'x Response" where
  "writeError code msg = writeJSON code (BError msg)"

record 'x Decoders =
  jd_Bulk :: "string \<Rightarrow> BulkWorkloadRequest option"
  jd_Item :: "string \<Rightarrow> BulkWorkloadItem option"
  jd_Wrap :: "string \<Rightarrow> WorkloadSpec option"
  jd_Spec :: "string \<Rightarrow> WorkloadSpec option"
  jd_Quota :: "string \<Rightarrow> HardResourceQuota option"
  jd_Rotation :: "string \<Rightarrow> RotationNotification option"
  jd_RevisionID :: "string \<Rightarrow> string"
  jd_Targeted :: "string \<Rightarrow> bool \<times> 'x Targeted"
  jd_Zero :: "'x Targeted"
  jd_Revisions :: "WorkloadRevision list \<Rightarrow> 'x list"

record 'x NodeOperations =
  no_ListNodeHealth :: "(error, 'x list) result"
  no_ListBackendHealth :: "'x list"
  no_DrainNode :: "'x Targeted \<Rightarrow> (error, 'x) result"

record 'x RuntimeOperations =
  ro_Checkpoint :: "'x Targeted \<Rightarrow> (error, 'x) result"
  ro_Restore :: "'x Targeted \<Rightarrow> (error, 'x) result"
  ro_ListCheckpoints :: "string \<Rightarrow> string \<Rightarrow> (error, 'x list) result"

record ('q, 'x) Server =
  sv_store :: Store
  sv_versions :: "int option"
  sv_eventStore :: bool
  sv_sched :: "Scheduler option"
  sv_secrets :: "SecretEngine option"
  sv_quantity :: "'q QuantityLib"
  sv_json :: "'x Decoders"
  sv_ParseParams :: "string \<Rightarrow> string \<Rightarrow> 'x"
  sv_SlicePage :: "('x, 'x) SlicePage"
  sv_nodeOps :: "'x NodeOperations option"
  sv_runtimeOps :: "'x RuntimeOperations option"
  sv_runtimePlugins :: "'x list option"
  sv_runtimeMigration :: "('x Targeted \<Rightarrow> (error, 'x) result) option"

definition server_New ::
  "Store \<Rightarrow> int option \<Rightarrow> bool \<Rightarrow> Scheduler option \<Rightarrow> SecretEngine option \<Rightarrow> 'q QuantityLib \<Rightarrow> 'x Decoders \<Rightarrow>
   (string \<Rightarrow> string \<Rightarrow> 'x) \<Rightarrow> ('x, 'x) SlicePage \<Rightarrow> ('q, 'x) Server" where
  \<comment> \<open>the quota engine is part of the state; \<open>versions\<close> tells whether the store is the versioned one\<close>
  "server_New store versions eventStore sched secrets lib json params slicePage =
     \<lparr>sv_store = store, sv_versions = versions, sv_eventStore = eventStore, sv_sched = sched, sv_secrets = secrets,
      sv_quantity = lib, sv_json = json, sv_ParseParams = params, sv_SlicePage = slicePage,
      sv_nodeOps = None, sv_runtimeOps = None, sv_runtimePlugins = None, sv_runtimeMigration = None\<rparr>"

definition SetNodeOperations :: "'x NodeOperations \<Rightarrow> ('q, 'x) Server \<Rightarrow> ('q, 'x) Server" where
  "SetNodeOperations ops sv = sv\<lparr>sv_nodeOps := Some ops\<rparr>"

definition SetRuntimeOperations :: "'x RuntimeOperations \<Rightarrow> ('q, 'x) Server \<Rightarrow> ('q, 'x) Server" where
  "SetRuntimeOperations ops sv = sv\<lparr>sv_runtimeOps := Some ops\<rparr>"

definition SetRuntimePluginLister :: "'x list \<Rightarrow> ('q, 'x) Server \<Rightarrow> ('q, 'x) Server" where
  "SetRuntimePluginLister plugins sv = sv\<lparr>sv_runtimePlugins := Some plugins\<rparr>"

definition SetRuntimeMigration :: "('x Targeted \<Rightarrow> (error, 'x) result) \<Rightarrow> ('q, 'x) Server \<Rightarrow> ('q, 'x) Server" where
  "SetRuntimeMigration ops sv = sv\<lparr>sv_runtimeMigration := Some ops\<rparr>"

record ServerState =
  sx_world :: world
  sx_quota :: "QuotaEngine option"
  sx_registry :: SecretRegistry

section \<open>Deploy, restart, bulk\<close>

definition pending_workload :: "string \<Rightarrow> WorkloadSpec \<Rightarrow> gotime \<Rightarrow> Workload" where
  "pending_workload i spec now = zero_workload\<lparr>wl_ID := i, wl_Name := i, wl_Namespace := ''default'', wl_CreatedAt := now,
     wl_UpdatedAt := now, wl_Spec := spec,
     wl_Status := zero_status\<lparr>st_Phase := WorkloadPhasePending, st_LastTransition := now\<rparr>\<rparr>"

definition item_id :: "BulkWorkloadItem \<Rightarrow> world \<Rightarrow> string \<times> world" where
  "item_id item s =
     (if trim_space (bi_ID item) = []
      then let (now, s1) = time_Now s in (trim_space (sp_Image (bi_Spec item)) @ ''-'' @ itoa now, s1)
      else (trim_space (bi_ID item), s))"

definition deployOne :: "('q, 'x) Server \<Rightarrow> BulkWorkloadItem \<Rightarrow> ServerState \<Rightarrow> error option \<times> ServerState" where
  "deployOne sv item t =
     (let (i, s1) = item_id item (sx_world t);
          (now, s2) = time_Now s1;
          (a, s3) = alloc (pending_workload i (bi_Spec item) now) s2
      in case store_Create (sv_store sv) a s3 of
           (Some err, s4) \<Rightarrow>
             if err = ErrWorkloadAlreadyExists
             then let (err', s5) = store_Update (sv_store sv) a s4 in (err', t\<lparr>sx_world := s5\<rparr>)
             else (Some err, t\<lparr>sx_world := s4\<rparr>)
         | (None, s4) \<Rightarrow>
             (None, t\<lparr>sx_world := s4, sx_registry := (case sv_secrets sv of None \<Rightarrow> sx_registry t
                        | Some e \<Rightarrow> IndexWorkload e (deref s4 a) (sx_registry t))\<rparr>))"

definition clearPendingRestart :: "SecretRotationStatus option \<Rightarrow> SecretRotationStatus option" where
  "clearPendingRestart st = (case st of None \<Rightarrow> None
     | Some x \<Rightarrow> Some (x\<lparr>srs_PendingRestart := False, srs_Message := ''rolling restart completed''\<rparr>))"

definition clear_restart :: "Workload \<Rightarrow> Workload" where
  "clear_restart w = w\<lparr>wl_Status := (wl_Status w)\<lparr>st_SecretRotation := clearPendingRestart (st_SecretRotation (wl_Status w))\<rparr>\<rparr>"

definition restartOne :: "('q, 'x) Server \<Rightarrow> string \<Rightarrow> ServerState \<Rightarrow> error option \<times> ServerState" where
  "restartOne sv i t = (case store_Get (sv_store sv) i (sx_world t) of
     (Inr (Some a), s1) \<Rightarrow>
       (case (case sv_sched sv of None \<Rightarrow> (None, s1) | Some sd \<Rightarrow> RequestRollingRestart sd a s1) of
          (Some err, s2) \<Rightarrow> (Some err, t\<lparr>sx_world := s2\<rparr>)
        | (None, s2) \<Rightarrow>
            let s3 = modify a clear_restart s2;
                s4 = (if sv_eventStore sv then RecordWorkloadRestarted a ''api_restart'' s3 else s3);
                (err, s5) = store_Update (sv_store sv) a s4
            in (err, t\<lparr>sx_world := s5\<rparr>))
   | (_, s1) \<Rightarrow> (Some (Errorf ''workload not found: %s'' [Str i]), t\<lparr>sx_world := s1\<rparr>))"

definition bulk_one :: "('q, 'x) Server \<Rightarrow> string \<Rightarrow> BulkWorkloadItem \<Rightarrow> ServerState \<Rightarrow> error option \<times> ServerState" where
  \<comment> \<open>the switch on the operation\<close>
  "bulk_one sv opn item t =
     (if opn = BulkOpDeploy then deployOne sv item t
      else if opn = BulkOpRestart then restartOne sv (bi_ID item) t
      else if opn = BulkOpDelete
      then let (err, s1) = store_Delete (sv_store sv) (bi_ID item) (sx_world t) in (err, t\<lparr>sx_world := s1\<rparr>)
      else (Some (Errorf ''unsupported operation %q'' [Str opn]), t))"

fun bulk_loop :: "('q, 'x) Server \<Rightarrow> BulkWorkloadRequest \<Rightarrow> BulkWorkloadItem list \<Rightarrow> BulkWorkloadResponse \<Rightarrow> ServerState \<Rightarrow>
    BulkWorkloadResponse \<times> ServerState" where
  "bulk_loop sv req [] resp t = (resp, t)"
| "bulk_loop sv req (item # items) resp t = (case bulk_one sv (bq_Operation req) item t of
     (Some err, t1) \<Rightarrow>
       let resp1 = resp\<lparr>bp_Failed := bp_Failed resp + 1,
             bp_Results := bp_Results resp @ [\<lparr>br_ID = bi_ID item, br_Success = False, br_Error = Some err\<rparr>]\<rparr>
       in if bq_ContinueOnError req then bulk_loop sv req items resp1 t1 else (resp1, t1)
   | (None, t1) \<Rightarrow>
       bulk_loop sv req items (resp\<lparr>bp_Succeeded := bp_Succeeded resp + 1,
         bp_Results := bp_Results resp @ [\<lparr>br_ID = bi_ID item, br_Success = True, br_Error = None\<rparr>]\<rparr>) t1)"

definition executeBulk :: "('q, 'x) Server \<Rightarrow> BulkWorkloadRequest \<Rightarrow> ServerState \<Rightarrow> BulkWorkloadResponse \<times> ServerState" where
  "executeBulk sv req t = bulk_loop sv req (bq_Workloads req)
     \<lparr>bp_Operation = bq_Operation req, bp_Results = [], bp_Succeeded = 0, bp_Failed = 0\<rparr> t"

definition handleBulkWorkloads :: "('q, 'x) Server \<Rightarrow> Request \<Rightarrow> ServerState \<Rightarrow> 'x Response \<times> ServerState" where
  "handleBulkWorkloads sv r t = (case jd_Bulk (sv_json sv) (rx_Body r) of
     None \<Rightarrow> (writeError 400 (Str ''invalid body''), t)
   | Some req \<Rightarrow> let (resp, t1) = executeBulk sv req t in (writeJSON 200 (BBulk resp), t1))"

definition handleCreateWorkload :: "('q, 'x) Server \<Rightarrow> Request \<Rightarrow> ServerState \<Rightarrow> 'x Response \<times> ServerState" where
  "handleCreateWorkload sv r t = (case jd_Item (sv_json sv) (rx_Body r) of
     None \<Rightarrow> (writeError 400 (Str ''invalid body''), t)
   | Some body \<Rightarrow>
       (case deployOne sv body t of
          (Some err, t1) \<Rightarrow> (writeError 500 (ErrText err), t1)
        | (None, t1) \<Rightarrow> (writeJSON 201 (BID (bi_ID body)), t1)))"

section \<open>Search\<close>

fun firstNonEmpty :: "string list \<Rightarrow> string" where
  "firstNonEmpty [] = []"
| "firstNonEmpty (v # vs) = (if trim_space v \<noteq> [] then v else firstNonEmpty vs)"

fun queryFlagTrue :: "(string, string list) gomap \<Rightarrow> string list \<Rightarrow> bool" where
  "queryFlagTrue q [] = False"
| "queryFlagTrue q (k # ks) = (case map_of q k of
     Some (v # _) \<Rightarrow> if to_lower (trim_space v) = ''true'' \<or> to_lower (trim_space v) = ''1'' then True else queryFlagTrue q ks
   | _ \<Rightarrow> queryFlagTrue q ks)"

definition parseSearchQuery :: "Request \<Rightarrow> Query" where
  "parseSearchQuery r =
     (let flag = queryFlagTrue (rx_Query r) [''all_namespaces'', ''allNamespaces'', ''cross_namespace'', ''crossNamespace''];
          ns = query_Get r ''namespace'';
          allNS = (flag \<or> ns = ''*'')
      in \<lparr>q_AllNamespaces = allNS, q_Namespace = (if allNS then [] else ns), q_Phase = query_Get r ''phase'',
          q_Status = query_Get r ''status'', q_Image = query_Get r ''image'',
          q_Team = firstNonEmpty [query_Get r ''team'', query_Get r ''tag.team''],
          q_Environment = firstNonEmpty [query_Get r ''environment'', query_Get r ''tag.environment''],
          q_CostCenter = firstNonEmpty [query_Get r ''cost_center'', query_Get r ''costCenter'', query_Get r ''tag.cost_center''],
          q_LabelKey = query_Get r ''label'', q_LabelValue = query_Get r ''label_value''\<rparr>)"

definition handleListWorkloads :: "('q, 'x) Server \<Rightarrow> Request \<Rightarrow> ServerState \<Rightarrow> 'x Response \<times> ServerState" where
  "handleListWorkloads sv r t =
     (let q = parseSearchQuery r;
          ns = (if q_AllNamespaces q then [] else q_Namespace q)
      in case store_List (sv_store sv) ns (sx_world t) of
           (Inl err, s1) \<Rightarrow> (writeError 500 (ErrText err), t\<lparr>sx_world := s1\<rparr>)
         | (Inr as, s1) \<Rightarrow>
             let filtered = Filter s1 (map Some as) q;
                 (page, info) = Paginate (sv_SlicePage sv) s1 filtered (sv_ParseParams sv (query_Get r ''limit'') (query_Get r ''cursor''))
             in (writeJSON 200 (BPage page info (int (length page)) q), t\<lparr>sx_world := s1\<rparr>))"

definition proposed_spec :: "'x Decoders \<Rightarrow> Request \<Rightarrow> WorkloadSpec option" where
  \<comment> \<open>the wrapped spec when it decodes with an image, else the bare one\<close>
  "proposed_spec js r =
     (if rx_Method r = ''POST'' \<and> rx_Body r \<noteq> [] then
        (case jd_Wrap js (rx_Body r) of
           Some spec \<Rightarrow> if sp_Image spec \<noteq> [] then Some spec else jd_Spec js (rx_Body r)
         | None \<Rightarrow> jd_Spec js (rx_Body r))
      else None)"

definition get_workload :: "('q, 'x) Server \<Rightarrow> string \<Rightarrow> world \<Rightarrow> addr option \<times> world" where
  \<comment> \<open>\<open>wl, _ := s.store.Get(ctx, id)\<close>\<close>
  "get_workload sv i s = (case store_Get (sv_store sv) i s of (Inl _, s1) \<Rightarrow> (None, s1) | (Inr wo, s1) \<Rightarrow> (wo, s1))"

definition handleWorkloadDiff :: "('q, 'x) Server \<Rightarrow> Request \<Rightarrow> ServerState \<Rightarrow> 'x Response \<times> ServerState" where
  "handleWorkloadDiff sv r t = (case get_workload sv (PathValue r ''id'') (sx_world t) of
     (None, s1) \<Rightarrow> (writeError 404 (Str ''workload not found''), t\<lparr>sx_world := s1\<rparr>)
   | (Some a, s1) \<Rightarrow>
       (writeJSON 200 (BDiff (ComputeSpecVsLive (Some (deref s1 a)) (proposed_spec (sv_json sv) r))), t\<lparr>sx_world := s1\<rparr>))"

definition handleGetWorkload :: "('q, 'x) Server \<Rightarrow> Request \<Rightarrow> ServerState \<Rightarrow> 'x Response \<times> ServerState" where
  "handleGetWorkload sv r t = (case get_workload sv (PathValue r ''id'') (sx_world t) of
     (None, s1) \<Rightarrow> (writeError 404 (Str ''not found''), t\<lparr>sx_world := s1\<rparr>)
   | (Some a, s1) \<Rightarrow> (writeJSON 200 (BWorkload a), t\<lparr>sx_world := s1\<rparr>))"

definition handleDeleteWorkload :: "('q, 'x) Server \<Rightarrow> Request \<Rightarrow> ServerState \<Rightarrow> 'x Response \<times> ServerState" where
  "handleDeleteWorkload sv r t = (case store_Delete (sv_store sv) (PathValue r ''id'') (sx_world t) of
     (Some err, s1) \<Rightarrow> (writeError 404 (ErrText err), t\<lparr>sx_world := s1\<rparr>)
   | (None, s1) \<Rightarrow> (\<lparr>rp_Code = 204, rp_Body = BEmpty\<rparr>, t\<lparr>sx_world := s1\<rparr>))"

definition handleRestartWorkload :: "('q, 'x) Server \<Rightarrow> Request \<Rightarrow> ServerState \<Rightarrow> 'x Response \<times> ServerState" where
  "handleRestartWorkload sv r t = (case restartOne sv (PathValue r ''id'') t of
     (Some err, t1) \<Rightarrow> (writeError 500 (ErrText err), t1)
   | (None, t1) \<Rightarrow> (writeJSON 200 (BIDStatus (PathValue r ''id'') ''restarted''), t1))"

section \<open>Quotas\<close>

definition handleListQuotas :: "('q, 'x) Server \<Rightarrow> Request \<Rightarrow> ServerState \<Rightarrow> 'x Response \<times> ServerState" where
  "handleListQuotas sv r t = (case sx_quota t of
     None \<Rightarrow> (writeJSON 200 (BQuotas [] 0), t)
   | Some e \<Rightarrow> (writeJSON 200 (BQuotas (ListNamespaceQuotas e) (int (length (ListNamespaceQuotas e)))), t))"

definition handleGetQuota :: "('q, 'x) Server \<Rightarrow> Request \<Rightarrow> ServerState \<Rightarrow> 'x Response \<times> ServerState" where
  "handleGetQuota sv r t = (case sx_quota t of
     None \<Rightarrow> (writeError 503 (Str ''quota engine disabled''), t)
   | Some e \<Rightarrow> (case GetNamespaceQuota (PathValue r ''namespace'') e of
       None \<Rightarrow> (writeError 404 (Str ''quota not found''), t)
     | Some lmt \<Rightarrow> (writeJSON 200 (BQuota lmt), t)))"

definition handlePutQuota :: "('q, 'x) Server \<Rightarrow> Request \<Rightarrow> ServerState \<Rightarrow> 'x Response \<times> ServerState" where
  "handlePutQuota sv r t = (case sx_quota t of
     None \<Rightarrow> (writeError 503 (Str ''quota engine disabled''), t)
   | Some e \<Rightarrow>
       (case jd_Quota (sv_json sv) (rx_Body r) of
          None \<Rightarrow> (writeError 400 (Str ''invalid body''), t)
        | Some lmt0 \<Rightarrow>
            let lmt = lmt0\<lparr>hq_Namespace := PathValue r ''namespace''\<rparr>
            in (case SetNamespaceQuota lmt e of
                  (Some err, e1) \<Rightarrow> (writeError 400 (ErrText err), t\<lparr>sx_quota := Some e1\<rparr>)
                | (None, e1) \<Rightarrow> (writeJSON 200 (BQuota lmt), t\<lparr>sx_quota := Some e1\<rparr>))))"

definition handleDeleteQuota :: "('q, 'x) Server \<Rightarrow> Request \<Rightarrow> ServerState \<Rightarrow> 'x Response \<times> ServerState" where
  "handleDeleteQuota sv r t = (case sx_quota t of
     None \<Rightarrow> (writeError 503 (Str ''quota engine disabled''), t)
   | Some e \<Rightarrow> (case DeleteNamespaceQuota (PathValue r ''namespace'') e of
       (False, e1) \<Rightarrow> (writeError 404 (Str ''quota not found''), t\<lparr>sx_quota := Some e1\<rparr>)
     | (True, e1) \<Rightarrow> (\<lparr>rp_Code = 204, rp_Body = BEmpty\<rparr>, t\<lparr>sx_quota := Some e1\<rparr>)))"

definition handleQuotaUsage :: "('q, 'x) Server \<Rightarrow> Request \<Rightarrow> ServerState \<Rightarrow> 'x Response \<times> ServerState" where
  "handleQuotaUsage sv r t = (case sx_quota t of
     None \<Rightarrow> (writeError 503 (Str ''quota engine disabled''), t)
   | Some e \<Rightarrow> (case NamespaceUsage (sv_quantity sv) e (sv_store sv) (PathValue r ''namespace'') (sx_world t) of
       (Inl err, s1) \<Rightarrow> (writeError 400 (ErrText err), t\<lparr>sx_world := s1\<rparr>)
     | (Inr usage, s1) \<Rightarrow> (writeJSON 200 (BUsage usage), t\<lparr>sx_world := s1\<rparr>)))"

section \<open>Events, secrets\<close>

definition handleWorkloadEvents :: "('q, 'x) Server \<Rightarrow> Request \<Rightarrow> ServerState \<Rightarrow> 'x Response \<times> ServerState" where
  "handleWorkloadEvents sv r t =
     (if \<not> sv_eventStore sv then (writeJSON 200 (BEvents []), t)
      else (writeJSON 200 (BEvents (GetEvents (PathValue r ''id'') (ParseInt64 (query_Get r ''from_version''))
              (ParseInt64 (query_Get r ''limit'')) (sx_world t))), t))"

definition handleGetEvent :: "('q, 'x) Server \<Rightarrow> Request \<Rightarrow> ServerState \<Rightarrow> 'x Response \<times> ServerState" where
  "handleGetEvent sv r t =
     (if \<not> sv_eventStore sv then (writeError 404 (Str ''event store disabled''), t)
      else case GetEvent (PathValue r ''id'') (sx_world t) of
             Inl err \<Rightarrow> (writeError 404 (ErrText err), t)
           | Inr ev \<Rightarrow> (writeJSON 200 (BEvent ev), t))"

definition handleAuditResource :: "('q, 'x) Server \<Rightarrow> Request \<Rightarrow> ServerState \<Rightarrow> 'x Response \<times> ServerState" where
  "handleAuditResource sv r t =
     (let resourceType = PathValue r ''type''; resourceID = PathValue r ''id'';
          limit0 = ParseInt64 (query_Get r ''limit''); limit = (if limit0 \<le> 0 then 100 else limit0)
      in if \<not> sv_eventStore sv then (writeJSON 200 (BAudit None None []), t)
         else
           let events = (if resourceID \<noteq> [] then GetEvents resourceID 0 limit (sx_world t)
                         else ListByResourceType resourceType limit (sx_world t))
           in (writeJSON 200 (BAudit (Some resourceType) (Some resourceID) events), t))"

definition handleSecretRotated :: "('q, 'x) Server \<Rightarrow> Request \<Rightarrow> ServerState \<Rightarrow> 'x Response \<times> ServerState" where
  "handleSecretRotated sv r t = (case sv_secrets sv of
     None \<Rightarrow> (writeError 503 (Str ''secret rotation disabled''), t)
   | Some e \<Rightarrow>
       (case jd_Rotation (sv_json sv) (rx_Body r) of
          None \<Rightarrow> (writeError 400 (Str ''invalid body''), t)
        | Some n \<Rightarrow>
            (case HandleRotation e (sv_store sv) n (sx_registry t) (sx_world t) of
               (Inl err, r1, s1) \<Rightarrow> (writeError 400 (ErrText err), t\<lparr>sx_registry := r1, sx_world := s1\<rparr>)
             | (Inr affected, r1, s1) \<Rightarrow> (writeJSON 200 (BAffected affected), t\<lparr>sx_registry := r1, sx_world := s1\<rparr>))))"

section \<open>Revisions\<close>

definition handleListRevisions :: "('q, 'x) Server \<Rightarrow> Request \<Rightarrow> ServerState \<Rightarrow> 'x Response \<times> ServerState" where
  \<comment> \<open>\<open>jd_Revisions\<close> is the conversion to the \<open>kranix-packages\<close> type through JSON\<close>
  "handleListRevisions sv r t =
     (let i = PathValue r ''id''
      in case ListRevisions (sv_store sv) i (sx_world t) of
           (Inl err, s1) \<Rightarrow> (writeError 404 (ErrText err), t\<lparr>sx_world := s1\<rparr>)
         | (Inr revs, s1) \<Rightarrow>
             let (wl, s2) = get_workload sv i s1; pkgRevisions = jd_Revisions (sv_json sv) revs
             in (writeJSON 200 (BRevisions i pkgRevisions (int (length pkgRevisions)) (case wl of None \<Rightarrow> [] | Some a \<Rightarrow> wl_Namespace (deref s2 a))),
                 t\<lparr>sx_world := s2\<rparr>))"

definition rollbackMaxVersions :: "('q, 'x) Server \<Rightarrow> int" where
  \<comment> \<open>\<open>sv_versions\<close> is the limit of the store when its dynamic type is \<open>*VersionedStore\<close>\<close>
  "rollbackMaxVersions sv = (case sv_versions sv of Some n \<Rightarrow> n | None \<Rightarrow> 10)"

definition requested_revision :: "string \<Rightarrow> Workload \<Rightarrow> string option" where
  "requested_revision req w =
     (if req \<noteq> [] then Some req
      else if length (wl_RollbackVersions w) < 2 then None
      else Some (rv_ID (wl_RollbackVersions w ! 1)))"

definition handleRollbackWorkload :: "('q, 'x) Server \<Rightarrow> Request \<Rightarrow> ServerState \<Rightarrow> 'x Response \<times> ServerState" where
  "handleRollbackWorkload sv r t =
     (let i = PathValue r ''id''
      in case store_Get (sv_store sv) i (sx_world t) of
           (Inr (Some a), s1) \<Rightarrow>
             (case requested_revision (jd_RevisionID (sv_json sv) (rx_Body r)) (deref s1 a) of
                None \<Rightarrow> (writeError 400 (Str ''no previous revision available for rollback''), t\<lparr>sx_world := s1\<rparr>)
              | Some revisionID \<Rightarrow>
                  let previousImage = sp_Image (wl_Spec (deref s1 a))
                  in (case Revert (sv_store sv) i revisionID (rollbackMaxVersions sv) s1 of
                        (Inl err, s2) \<Rightarrow> (writeError 400 (ErrText err), t\<lparr>sx_world := s2\<rparr>)
                      | (Inr b, s2) \<Rightarrow>
                          (writeJSON 200 (BRollback i (wl_Namespace (deref s2 b)) revisionID previousImage (sp_Image (wl_Spec (deref s2 b)))),
                           t\<lparr>sx_world := s2\<rparr>)))
         | (_, s1) \<Rightarrow> (writeError 404 (Str ''workload not found''), t\<lparr>sx_world := s1\<rparr>))"

section \<open>Nodes and runtime operations\<close>

definition node_report :: "gotime \<Rightarrow> NodeInfo \<Rightarrow> NodeHealthReport" where
  "node_report now n = \<lparr>nr_Name = ni_ID n, nr_Score = (if ni_HealthScore n = 0 then 80 else ni_HealthScore n),
     nr_Architecture = ni_Architecture n, nr_Ready = (\<not> ni_Draining n), nr_Draining = ni_Draining n,
     nr_Unschedulable = ni_Unschedulable n, nr_CheckedAt = now\<rparr>"

definition nodeHealthFromRegistry :: "('q, 'x) Server \<Rightarrow> world \<Rightarrow> (error, NodeHealthReport list) result \<times> world" where
  "nodeHealthFromRegistry sv s = (case sv_sched sv of
     None \<Rightarrow> (Ok [], s)
   | Some sd \<Rightarrow>
       (case scheduler_ListNodes (Some (sd_nodeRegistry sd)) of
          Inl err \<Rightarrow> (Err err, s)
        | Inr infos \<Rightarrow> let (now, s1) = time_Now s in (Ok (map (node_report now) infos), s1)))"

definition handleListNodeHealth :: "('q, 'x) Server \<Rightarrow> Request \<Rightarrow> ServerState \<Rightarrow> 'x Response \<times> ServerState" where
  "handleListNodeHealth sv r t = (case sv_nodeOps sv of
     Some ops \<Rightarrow>
       (case no_ListNodeHealth ops of
          Inl err \<Rightarrow> (writeError 502 (ErrText err), t)
        | Inr nodes \<Rightarrow> (writeJSON 200 (BNodeHealth nodes (no_ListBackendHealth ops) (int (length nodes))), t))
   | None \<Rightarrow>
       (case nodeHealthFromRegistry sv (sx_world t) of
          (Inl err, s1) \<Rightarrow> (writeError 500 (ErrText err), t\<lparr>sx_world := s1\<rparr>)
        | (Inr nodes, s1) \<Rightarrow> (writeJSON 200 (BNodes nodes (int (length nodes))), t\<lparr>sx_world := s1\<rparr>)))"

definition fill_name :: "string \<Rightarrow> 'x Targeted \<Rightarrow> 'x Targeted" where
  "fill_name name req = (if tg_Name req = [] then req\<lparr>tg_Name := name\<rparr> else req)"

definition gateway :: "(error, 'x) result \<Rightarrow> 'x Response" where
  \<comment> \<open>502 or the result of an external operation\<close>
  "gateway res = (case res of Inl err \<Rightarrow> writeError 502 (ErrText err) | Inr x \<Rightarrow> writeJSON 200 (BExternal x))"

definition handleDrainNode :: "('q, 'x) Server \<Rightarrow> Request \<Rightarrow> ServerState \<Rightarrow> 'x Response \<times> ServerState" where
  "handleDrainNode sv r t = (case sv_nodeOps sv of
     None \<Rightarrow> (writeError 501 (Str ''node drain requires runtime node operations''), t)
   | Some ops \<Rightarrow>
       let (ok, req) = jd_Targeted (sv_json sv) (rx_Body r)
       in if \<not> ok \<and> rx_ContentLength r > 0 then (writeError 400 (Str ''invalid body''), t)
          else (gateway (no_DrainNode ops (fill_name (PathValue r ''name'') req)), t))"

definition handleCheckpointWorkload :: "('q, 'x) Server \<Rightarrow> Request \<Rightarrow> ServerState \<Rightarrow> 'x Response \<times> ServerState" where
  "handleCheckpointWorkload sv r t = (case sv_runtimeOps sv of
     None \<Rightarrow> (writeError 501 (Str ''runtime extended operations not configured''), t)
   | Some ops \<Rightarrow>
       let (ok, req) = (if rx_ContentLength r > 0 then jd_Targeted (sv_json sv) (rx_Body r) else (True, jd_Zero (sv_json sv)))
       in if \<not> ok then (writeError 400 (Str ''invalid body''), t)
          else (gateway (ro_Checkpoint ops (fill_name (PathValue r ''id'') req)), t))"

definition handleRestoreWorkload :: "('q, 'x) Server \<Rightarrow> Request \<Rightarrow> ServerState \<Rightarrow> 'x Response \<times> ServerState" where
  "handleRestoreWorkload sv r t = (case sv_runtimeOps sv of
     None \<Rightarrow> (writeError 501 (Str ''runtime extended operations not configured''), t)
   | Some ops \<Rightarrow>
       let (ok, req) = jd_Targeted (sv_json sv) (rx_Body r)
       in if \<not> ok then (writeError 400 (Str ''invalid body''), t)
          else (gateway (ro_Restore ops (fill_name (PathValue r ''id'') req)), t))"

definition handleListCheckpoints :: "('q, 'x) Server \<Rightarrow> Request \<Rightarrow> ServerState \<Rightarrow> 'x Response \<times> ServerState" where
  "handleListCheckpoints sv r t = (case sv_runtimeOps sv of
     None \<Rightarrow> (writeJSON 200 (BExternalList [] 0), t)
   | Some ops \<Rightarrow>
       (case ro_ListCheckpoints ops (PathValue r ''id'') (query_Get r ''namespace'') of
          Inl err \<Rightarrow> (writeError 502 (ErrText err), t)
        | Inr xs \<Rightarrow> (writeJSON 200 (BExternalList xs (int (length xs))), t)))"

definition handleListRuntimePlugins :: "('q, 'x) Server \<Rightarrow> Request \<Rightarrow> ServerState \<Rightarrow> 'x Response \<times> ServerState" where
  "handleListRuntimePlugins sv r t = (case sv_runtimePlugins sv of
     None \<Rightarrow> (writeJSON 200 (BExternalList [] 0), t)
   | Some ps \<Rightarrow> (writeJSON 200 (BExternalList ps (int (length ps))), t))"

definition handleMigrateWorkload :: "('q, 'x) Server \<Rightarrow> Request \<Rightarrow> ServerState \<Rightarrow> 'x Response \<times> ServerState" where
  "handleMigrateWorkload sv r t = (case sv_runtimeMigration sv of
     None \<Rightarrow> (writeError 501 (Str ''runtime migration not configured''), t)
   | Some migrate \<Rightarrow>
       let (ok, req) = jd_Targeted (sv_json sv) (rx_Body r)
       in if \<not> ok then (writeError 400 (Str ''invalid body''), t)
          else (gateway (migrate (fill_name (PathValue r ''id'') req)), t))"

section \<open>Routes\<close>

datatype segment = Lit string | Wild string

datatype route =
    RBulk | RCreate | RList | RDiff | RGet | RQuotas | RUsage | RQuota | RPutQuota | RDeleteQuota | RDelete | RRestart
  | RRevisions | RRollback | REvents | REvent | RAudit | RRotated | RNodes | RDrain | RCheckpoint | RRestore
  | RCheckpoints | RPlugins | RMigrate

definition api :: "segment list \<Rightarrow> segment list" where
  "api segs = [Lit ''api'', Lit ''v1''] @ segs"

definition RegisterRoutes :: "(string \<times> segment list \<times> route) list" where
  "RegisterRoutes =
     [(''POST'', api [Lit ''workloads'', Lit ''bulk''], RBulk),
      (''POST'', api [Lit ''workloads''], RCreate),
      (''GET'', api [Lit ''workloads''], RList),
      (''GET'', api [Lit ''workloads'', Wild ''id'', Lit ''diff''], RDiff),
      (''POST'', api [Lit ''workloads'', Wild ''id'', Lit ''diff''], RDiff),
      (''GET'', api [Lit ''workloads'', Wild ''id''], RGet),
      (''GET'', api [Lit ''quotas''], RQuotas),
      (''GET'', api [Lit ''quotas'', Wild ''namespace'', Lit ''usage''], RUsage),
      (''GET'', api [Lit ''quotas'', Wild ''namespace''], RQuota),
      (''PUT'', api [Lit ''quotas'', Wild ''namespace''], RPutQuota),
      (''DELETE'', api [Lit ''quotas'', Wild ''namespace''], RDeleteQuota),
      (''DELETE'', api [Lit ''workloads'', Wild ''id''], RDelete),
      (''POST'', api [Lit ''workloads'', Wild ''id'', Lit ''restart''], RRestart),
      (''GET'', api [Lit ''workloads'', Wild ''id'', Lit ''revisions''], RRevisions),
      (''POST'', api [Lit ''workloads'', Wild ''id'', Lit ''rollback''], RRollback),
      (''GET'', api [Lit ''workloads'', Wild ''id'', Lit ''events''], REvents),
      (''GET'', api [Lit ''events'', Wild ''id''], REvent),
      (''GET'', api [Lit ''audit'', Lit ''resources'', Wild ''type'', Wild ''id''], RAudit),
      (''POST'', api [Lit ''secrets'', Lit ''rotated''], RRotated),
      (''GET'', api [Lit ''nodes'', Lit ''health''], RNodes),
      (''POST'', api [Lit ''nodes'', Wild ''name'', Lit ''drain''], RDrain),
      (''POST'', api [Lit ''workloads'', Wild ''id'', Lit ''checkpoint''], RCheckpoint),
      (''POST'', api [Lit ''workloads'', Wild ''id'', Lit ''restore''], RRestore),
      (''GET'', api [Lit ''workloads'', Wild ''id'', Lit ''checkpoints''], RCheckpoints),
      (''GET'', api [Lit ''runtime'', Lit ''plugins''], RPlugins),
      (''POST'', api [Lit ''workloads'', Wild ''id'', Lit ''migrate''], RMigrate)]"

fun bind_path :: "segment list \<Rightarrow> string list \<Rightarrow> (string, string) gomap option" where
  \<comment> \<open>how the mux matches a pattern: a wildcard takes one non-empty segment\<close>
  "bind_path [] [] = Some []"
| "bind_path (Lit l # segs) (p # ps) = (if l = p then bind_path segs ps else None)"
| "bind_path (Wild k # segs) (p # ps) = (if p = [] then None else map_option (\<lambda>m. (k, p) # m) (bind_path segs ps))"
| "bind_path _ _ = None"

definition method_matches :: "string \<Rightarrow> string \<Rightarrow> bool" where
  \<comment> \<open>a GET pattern also takes HEAD requests\<close>
  "method_matches pat m = (pat = m \<or> pat = ''GET'' \<and> m = ''HEAD'')"

definition route_matches :: "string \<Rightarrow> string list \<Rightarrow> string \<times> segment list \<times> route \<Rightarrow> bool" where
  "route_matches m path pat = (case pat of (pm, segs, _) \<Rightarrow> method_matches pm m \<and> bind_path segs path \<noteq> None)"

definition dispatch :: "string \<Rightarrow> string list \<Rightarrow> (route \<times> (string, string) gomap) option" where
  "dispatch m path = (case filter (route_matches m path) RegisterRoutes of
     [] \<Rightarrow> None
   | (_, segs, rt) # _ \<Rightarrow> Some (rt, the (bind_path segs path)))"

fun handler :: "route \<Rightarrow> ('q, 'x) Server \<Rightarrow> Request \<Rightarrow> ServerState \<Rightarrow> 'x Response \<times> ServerState" where
  "handler RBulk = handleBulkWorkloads" | "handler RCreate = handleCreateWorkload"
| "handler RList = handleListWorkloads" | "handler RDiff = handleWorkloadDiff"
| "handler RGet = handleGetWorkload" | "handler RQuotas = handleListQuotas"
| "handler RUsage = handleQuotaUsage" | "handler RQuota = handleGetQuota"
| "handler RPutQuota = handlePutQuota" | "handler RDeleteQuota = handleDeleteQuota"
| "handler RDelete = handleDeleteWorkload" | "handler RRestart = handleRestartWorkload"
| "handler RRevisions = handleListRevisions" | "handler RRollback = handleRollbackWorkload"
| "handler REvents = handleWorkloadEvents" | "handler REvent = handleGetEvent"
| "handler RAudit = handleAuditResource" | "handler RRotated = handleSecretRotated"
| "handler RNodes = handleListNodeHealth" | "handler RDrain = handleDrainNode"
| "handler RCheckpoint = handleCheckpointWorkload" | "handler RRestore = handleRestoreWorkload"
| "handler RCheckpoints = handleListCheckpoints" | "handler RPlugins = handleListRuntimePlugins"
| "handler RMigrate = handleMigrateWorkload"

definition serve :: "('q, 'x) Server \<Rightarrow> Request \<Rightarrow> string list \<Rightarrow> ServerState \<Rightarrow> ('x Response \<times> ServerState) option" where
  \<comment> \<open>\<open>None\<close> when no route matches, which the mux answers itself\<close>
  "serve sv r path t = (case dispatch (rx_Method r) path of
     None \<Rightarrow> None
   | Some (rt, vars) \<Rightarrow> Some (handler rt sv (r\<lparr>rx_Path := vars\<rparr>) t))"

end
