(* ===== verification/Evolution.thy ===== *)
theory Evolution
  imports StateStore Scheduler
begin

text \<open>
  What every operation of the process keeps of the state, whatever it answers: the workload
  store stays well formed, the event log stays in order, no allocated object disappears, the
  calls made to runtime drivers are deployments, restarts and status queries, and an
  operation without a runtime driver makes none. \<open>evolves\<close> relates the states
  before and after; it is reflexive and transitive, so an operation is shown to respect it by
  chaining its steps. The locale \<open>audited_store\<close> extends the store contract by what the
  stores do to the event log; both stores of \<open>internal/state\<close> that keep one meet it.
\<close>

section \<open>The shape of the state\<close>

definition store_ok :: "(world \<Rightarrow> string \<Rightarrow> addr option) \<Rightarrow> (world \<Rightarrow> bool) \<Rightarrow> world \<Rightarrow> bool" where
  \<comment> \<open>one entry per id, every workload under its own id, no dangling address\<close>
  "store_ok stored valid s = (valid s \<and> keyed stored s \<and> (\<forall>i a. stored s i = Some a \<longrightarrow> a < wd_fresh s))"

definition id_frame :: "world \<Rightarrow> world \<Rightarrow> bool" where
  \<comment> \<open>the store is untouched and no object changes its id\<close>
  "id_frame s s' = (wd_mem s' = wd_mem s \<and> wd_fresh s \<le> wd_fresh s' \<and> (\<forall>a < wd_fresh s. wl_ID (deref s' a) = wl_ID (deref s a)))"

fun alters_deployed :: "DriverCall \<Rightarrow> bool" where
  \<comment> \<open>the calls \<open>Update\<close> and \<open>Delete\<close> of the driver interface\<close>
  "alters_deployed (CallUpdate w) = True"
| "alters_deployed (CallDelete i) = True"
| "alters_deployed _ = False"

definition trace_grows :: "world \<Rightarrow> world \<Rightarrow> bool" where
  "trace_grows s s' = (\<exists>cs. wd_calls s' = wd_calls s @ cs \<and> list_all (\<lambda>c. \<not> alters_deployed (snd c)) cs)"

lemma trace_grows_same: "wd_calls s' = wd_calls s \<Longrightarrow> trace_grows s s'"
  by (simp add: trace_grows_def)

lemma trace_grows_trans: "trace_grows s t \<Longrightarrow> trace_grows t u \<Longrightarrow> trace_grows s u"
  by (force simp: trace_grows_def)

lemma trace_grows_call: "\<not> alters_deployed c \<Longrightarrow> trace_grows s (call_driver d c s)"
  by (simp add: trace_grows_def)

definition evolves :: "(world \<Rightarrow> string \<Rightarrow> addr option) \<Rightarrow> (world \<Rightarrow> bool) \<Rightarrow> bool \<Rightarrow> world \<Rightarrow> world \<Rightarrow> bool" where
  \<comment> \<open>\<open>nd\<close>: no driver is at hand\<close>
  "evolves stored valid nd s s' = ((store_ok stored valid s \<longrightarrow> store_ok stored valid s') \<and>
     (log_inv (wd_log s) \<longrightarrow> log_inv (wd_log s')) \<and> wd_fresh s \<le> wd_fresh s' \<and> trace_grows s s' \<and>
     (nd \<longrightarrow> wd_calls s' = wd_calls s))"

definition driverless :: "Scheduler \<Rightarrow> bool" where
  "driverless sd = (sd_runtimeDrivers sd = [])"

lemma driverless_GetDriver: "driverless sd \<Longrightarrow> GetDriver sd b = None"
  by (simp add: driverless_def GetDriver_def)

lemma evolves_refl [simp]: "evolves stored valid nd s s"
  by (simp add: evolves_def trace_grows_same)

lemma evolves_trans [trans]: "evolves stored valid nd s t \<Longrightarrow> evolves stored valid nd t u \<Longrightarrow> evolves stored valid nd s u"
  using trace_grows_trans by (auto simp: evolves_def)

lemma evolves_ok: "evolves stored valid nd s s' \<Longrightarrow> store_ok stored valid s \<Longrightarrow> store_ok stored valid s'"
  by (simp add: evolves_def)

lemma evolves_fresh: "evolves stored valid nd s s' \<Longrightarrow> a < wd_fresh s \<Longrightarrow> a < wd_fresh s'"
  by (simp add: evolves_def)

lemma record_log_inv [inv_intros]:
  "log_inv (wd_log s) \<Longrightarrow> log_inv (wd_log (RecordWorkloadCreated a s))"
  "log_inv (wd_log s) \<Longrightarrow> log_inv (wd_log (RecordWorkloadUpdated a b s))"
  "log_inv (wd_log s) \<Longrightarrow> log_inv (wd_log (RecordWorkloadDeleted a s))"
  "log_inv (wd_log s) \<Longrightarrow> log_inv (wd_log (RecordWorkloadRestarted a r s))"
  "log_inv (wd_log s) \<Longrightarrow> log_inv (wd_log (RecordSecretRotated a nm v s))"
  by (simp_all add: record_defs RecordWorkloadRestarted_def RecordSecretRotated_def Let_def Append_inv)

section \<open>Stores that keep an event log\<close>

locale audited_store = workload_store +
  assumes log_Create: "log_inv (wd_log s) \<Longrightarrow> log_inv (wd_log (snd (store_Create st a s)))"
    and log_Update: "log_inv (wd_log s) \<Longrightarrow> log_inv (wd_log (snd (store_Update st a s)))"
    and log_Delete: "log_inv (wd_log s) \<Longrightarrow> log_inv (wd_log (snd (store_Delete st i s)))"
begin

abbreviation ev :: "bool \<Rightarrow> world \<Rightarrow> world \<Rightarrow> bool" where
  "ev \<equiv> evolves stored valid"

lemma ev_frame:
  assumes "id_frame s s'" "log_inv (wd_log s) \<Longrightarrow> log_inv (wd_log s')" "nd \<Longrightarrow> wd_calls s' = wd_calls s" "trace_grows s s'"
  shows "ev nd s s'"
  using assms stored_mem [of s' s] valid_mem [of s' s] by (fastforce simp: evolves_def store_ok_def id_frame_def keyed_def)

lemma ev_steps [simp, inv_intros]:
  "ev nd s (snd (time_Now s))" "ev nd s (publish e s)" "ev nd s (Append de s)" "ev nd s (snd (alloc w s))"
  "(wl_ID (f (deref s a)) = wl_ID (deref s a)) \<Longrightarrow> ev nd s (modify a f s)"
  "wl_ID w = wl_ID (deref s a) \<Longrightarrow> ev nd s (assign a w s)"
  "ev nd s (RecordWorkloadRestarted a reason s)" "ev nd s (RecordSecretRotated a nm v s)"
  by (rule ev_frame; auto simp: id_frame_def RecordWorkloadRestarted_def RecordSecretRotated_def Let_def alloc_def intro: Append_inv trace_grows_same)+

lemma ev_call: "\<not> nd \<Longrightarrow> \<not> alters_deployed c \<Longrightarrow> ev nd s (call_driver d c s)"
  by (rule ev_frame) (auto simp: id_frame_def trace_grows_call)

lemma ev_Create: "a < wd_fresh s \<Longrightarrow> ev nd s (snd (store_Create st a s))"
  using Create_frame [of s a]
  by (auto simp: evolves_def store_ok_def valid_Create keyed_Create log_Create Create_stored store_frame_def trace_grows_same split: if_splits)

lemma ev_Update: "a < wd_fresh s \<Longrightarrow> ev nd s (snd (store_Update st a s))"
  using Update_frame [of s a]
  by (auto simp: evolves_def store_ok_def valid_Update keyed_Update log_Update Update_stored store_frame_def trace_grows_same split: if_splits)

lemma ev_Delete: "ev nd s (snd (store_Delete st i s))"
  using Delete_frame [of s i]
  by (auto simp: evolves_def store_ok_def valid_Delete keyed_Delete log_Delete Delete_stored store_frame_def trace_grows_same split: if_splits)

lemma ev_modify_Update:
  assumes "ev nd s s1" "a < wd_fresh s" "wl_ID (f (deref s1 a)) = wl_ID (deref s1 a)"
  shows "ev nd s (snd (store_Update st a (modify a f s1)))"
proof -
  have "ev nd s (modify a f s1)" by (rule evolves_trans [OF assms(1)]) (simp add: assms(3))
  moreover from this have "ev nd (modify a f s1) (snd (store_Update st a (modify a f s1)))"
    by (intro ev_Update evolves_fresh [OF _ assms(2)])
  ultimately show ?thesis by (rule evolves_trans)
qed

lemma stored_fresh: "store_ok stored valid s \<Longrightarrow> stored s i = Some a \<Longrightarrow> a < wd_fresh s"
  by (simp add: store_ok_def)

lemma listed_fresh:
  assumes "store_ok stored valid s"
  obtains as where "store_List st ns s = (Ok as, s)" "\<forall>a \<in> set as. a < wd_fresh s"
proof -
  have "valid s" using assms by (simp add: store_ok_def)
  from List [OF this, of ns] obtain ids where
    "set ids = {i. \<exists>a. stored s i = Some a \<and> (ns = [] \<or> wl_Namespace (deref s a) = ns)}"
    "store_List st ns s = (Ok (map (\<lambda>i. the (stored s i)) ids), s)" by blast
  then show thesis using stored_fresh [OF assms] by (intro that [of "map (\<lambda>i. the (stored s i)) ids"]) auto
qed

section \<open>The scheduler\<close>

lemma ev_cost_aware: "ev nd s (snd (cost_aware_step sd a s))"
  by (auto simp: cost_aware_step_def applyCostAwareScheduling_def split: option.split sum.split)

lemma ev_Schedule: "ev (driverless sd) s (snd (Schedule sd a s))"
proof (cases "GetDriver sd (sp_Backend (wl_Spec (deref s a)))")
  case (Some d)
  let ?c = "cost_aware_step sd a s"
  have nd: "\<not> driverless sd" using Some driverless_GetDriver by auto
  have 1: "ev (driverless sd) s (snd ?c)" by (rule ev_cost_aware)
  then have "ev (driverless sd) s (call_driver d (CallDeploy (deref (snd ?c) a)) (snd ?c))"
    by (rule evolves_trans) (rule ev_call [OF nd], simp)
  then show ?thesis using 1 by (simp add: Schedule_def Some driver_Deploy_def split_beta split: option.split)
qed (simp add: Schedule_def)

lemma ev_restart: "ev (driverless sd) s (snd (RequestRollingRestart sd a s))"
proof (cases "GetDriver sd (sp_Backend (wl_Spec (deref s a)))")
  case (Some d)
  let ?s2 = "modify a (restart_mark (fst (time_Now s))) (snd (time_Now s))"
  let ?s3 = "call_driver d (CallRestart (deref ?s2 a)) ?s2"
  have nd: "\<not> driverless sd" using Some driverless_GetDriver by auto
  have "ev (driverless sd) s (snd (time_Now s))" by simp
  also have "ev (driverless sd) (snd (time_Now s)) ?s2" by (simp add: restart_mark_def)
  also have "ev (driverless sd) ?s2 ?s3" by (rule ev_call [OF nd]) simp
  finally have 3: "ev (driverless sd) s ?s3" .
  then have "ev (driverless sd) s (call_driver d (CallDeploy (deref ?s3 a)) ?s3)" by (rule evolves_trans) (rule ev_call [OF nd], simp)
  then show ?thesis
    using 3 by (simp add: RequestRollingRestart_def Some driver_Restart_def driver_Deploy_def Let_def split_beta split: option.split)
qed (simp add: RequestRollingRestart_def)

end

section \<open>The two stores\<close>

lemma mem_log_inv:
  "log_inv (wd_log s) \<Longrightarrow> log_inv (wd_log (snd (mem_Create a s)))"
  "log_inv (wd_log s) \<Longrightarrow> log_inv (wd_log (snd (mem_Update a s)))"
  "log_inv (wd_log s) \<Longrightarrow> log_inv (wd_log (snd (mem_Delete i s)))"
  by (auto simp: mem_Create_def mem_Update_def mem_Delete_def if_logging_def Let_def record_log_inv split: option.split)

interpretation am: audited_store MemStore mem_stored mem_valid
  by unfold_locales (simp_all add: MemStore_def mem_log_inv)

interpretation av: audited_store "NewVersionedStore MemStore n" mem_stored mem_valid for n
proof unfold_locales
  show "log_inv (wd_log s) \<Longrightarrow> log_inv (wd_log (snd (store_Create (NewVersionedStore MemStore n) a s)))" for s a
    by (simp add: NewVersionedStore_def versioned_Create_def Let_def am.log_Create RecordInitial_frame(3))
  show "log_inv (wd_log s) \<Longrightarrow> log_inv (wd_log (snd (store_Update (NewVersionedStore MemStore n) a s)))" for s a
    by (auto simp: NewVersionedStore_def versioned_Update_def mem.Get am.log_Update RecordBeforeUpdate_frame(3) Let_def split: option.split)
  show "log_inv (wd_log s) \<Longrightarrow> log_inv (wd_log (snd (store_Delete (NewVersionedStore MemStore n) i s)))" for s i
    by (simp add: NewVersionedStore_def am.log_Delete)
qed

end
