(* ===== verification/ServerProofs.thy ===== *)
theory ServerProofs
  imports Server Evolution
begin

text \<open>
  What the REST API of theory \<open>Server\<close> guarantees: every registered route is dispatched to its
  handler and no request matches two, error bodies and error codes go together, requests that
  read change nothing, a bulk request is its items in order, a created workload can be read
  back, the shape of the stored state survives every sequence of requests, and what a redeploy
  does to the rollback history.
\<close>

section \<open>Dispatch\<close>

fun seg_overlap :: "segment \<Rightarrow> segment \<Rightarrow> bool" where
  "seg_overlap (Lit a) (Lit b) = (a = b)"
| "seg_overlap _ _ = True"

definition overlap :: "string \<times> segment list \<times> route \<Rightarrow> string \<times> segment list \<times> route \<Rightarrow> bool" where
  \<comment> \<open>some request may match both\<close>
  "overlap p q = (fst p = fst q \<and> list_all2 seg_overlap (fst (snd p)) (fst (snd q)))"

lemma bind_path_overlap: "bind_path segs path \<noteq> None \<Longrightarrow> bind_path segs' path \<noteq> None \<Longrightarrow> list_all2 seg_overlap segs segs'"
proof (induction segs path arbitrary: segs' rule: bind_path.induct)
  case 1
  then show ?case by (cases segs') simp_all
next
  case (2 l segs p ps)
  obtain y ys where s: "segs' = y # ys" using 2(3) by (cases segs') auto
  then show ?case using 2 by (cases y) (auto split: if_splits)
next
  case (3 k segs p ps)
  obtain y ys where s: "segs' = y # ys" using 3(3) by (cases segs') auto
  then show ?case using 3 by (cases y) (auto split: if_splits)
qed auto

lemma route_methods: "list_all (\<lambda>p. fst p \<noteq> ''HEAD'') RegisterRoutes"
  by code_simp

lemma routes_disjoint: "sorted_wrt (\<lambda>p q. \<not> overlap p q) RegisterRoutes"
  by code_simp

lemma route_matches_overlap:
  assumes "p \<in> set RegisterRoutes" "q \<in> set RegisterRoutes" "route_matches m path p" "route_matches m path q"
  shows "overlap p q"
proof -
  have "fst p \<noteq> ''HEAD''" "fst q \<noteq> ''HEAD''" using assms(1,2) route_methods by (auto simp: list_all_iff)
  then show ?thesis
    using assms(3,4) bind_path_overlap [of "fst (snd p)" path "fst (snd q)"]
    by (auto simp: route_matches_def overlap_def method_matches_def split: prod.splits)
qed

lemma filter_at_most_one:
  assumes "sorted_wrt R xs" "\<And>x y. x \<in> set xs \<Longrightarrow> y \<in> set xs \<Longrightarrow> P x \<Longrightarrow> P y \<Longrightarrow> \<not> R x y" "x \<in> set xs" "P x"
  shows "filter P xs = [x]"
  using assms
proof (induction xs)
  case (Cons y ys)
  show ?case
  proof (cases "P y")
    case True
    then have none: "filter P ys = []" using Cons.prems(1,2) by (auto simp: filter_empty_conv)
    then have "x = y" using Cons.prems(3,4) by (auto simp: filter_empty_conv)
    then show ?thesis using True none by simp
  next
    case False
    then show ?thesis using Cons by auto
  qed
qed simp

text \<open>
  C32. Routing is complete and unambiguous: a request that matches a registered pattern (method and
  path, wildcards taking one non-empty segment each) is dispatched to that pattern's handler
  with that pattern's path values, whatever the order of registration; in particular
  \<open>/workloads/bulk\<close> and the diff, quota usage and event paths are never taken by another route.
\<close>

theorem every_route_is_dispatched:
  assumes "(pm, segs, rt) \<in> set RegisterRoutes" "method_matches pm m" "bind_path segs path = Some vars"
  shows "dispatch m path = Some (rt, vars)"
proof -
  have "filter (route_matches m path) RegisterRoutes = [(pm, segs, rt)]"
    by (rule filter_at_most_one [OF routes_disjoint _ assms(1)])
      (use route_matches_overlap assms(2,3) in \<open>auto simp: route_matches_def\<close>)
  then show ?thesis by (simp add: dispatch_def assms(3))
qed

theorem every_route_is_dispatched_witness:
  "dispatch ''HEAD'' [''api'', ''v1'', ''workloads'', ''w1'', ''diff''] = Some (RDiff, [(''id'', ''w1'')])"
  by (rule every_route_is_dispatched [of "''GET''" "api [Lit ''workloads'', Wild ''id'', Lit ''diff'']"])
    (simp_all add: RegisterRoutes_def api_def method_matches_def)

section \<open>Status codes\<close>

lemmas handler_defs = handleBulkWorkloads_def handleCreateWorkload_def handleListWorkloads_def handleWorkloadDiff_def
  handleGetWorkload_def handleListQuotas_def handleQuotaUsage_def handleGetQuota_def handlePutQuota_def handleDeleteQuota_def
  handleDeleteWorkload_def handleRestartWorkload_def handleListRevisions_def handleRollbackWorkload_def handleWorkloadEvents_def
  handleGetEvent_def handleAuditResource_def handleSecretRotated_def handleListNodeHealth_def handleDrainNode_def
  handleCheckpointWorkload_def handleRestoreWorkload_def handleListCheckpoints_def handleListRuntimePlugins_def
  handleMigrateWorkload_def

definition well_coded :: "'x Response \<Rightarrow> bool" where
  "well_coded resp = ((rp_Code resp \<ge> 400 \<longleftrightarrow> (\<exists>msg. rp_Body resp = BError msg)) \<and>
     rp_Code resp \<in> {200, 201, 204, 400, 404, 500, 501, 502, 503} \<and> (rp_Code resp = 204 \<longleftrightarrow> rp_Body resp = BEmpty))"

lemma well_coded_intros [simp]:
  "code \<in> {400, 404, 500, 501, 502, 503} \<Longrightarrow> well_coded (writeError code msg)"
  "code \<in> {200, 201} \<Longrightarrow> (\<And>msg. v \<noteq> BError msg) \<Longrightarrow> v \<noteq> BEmpty \<Longrightarrow> well_coded (writeJSON code v)"
  "well_coded \<lparr>rp_Code = 204, rp_Body = BEmpty\<rparr>" "well_coded (gateway res)"
  by (auto simp: well_coded_def writeError_def writeJSON_def gateway_def split: sum.split)

text \<open>
  C15. Errors are reported as errors: for every route, request and state, the status code is at
  least 400 exactly when the body is the error document, only the codes 200, 201, 204, 400, 404,
  500, 501, 502 and 503 are used, and 204 is used exactly for the empty body.
\<close>

theorem api_errors_are_reported:
  "well_coded (fst (handler rt sv r t))"
  by (cases rt) (simp_all add: handler_defs split_beta Let_def split: option.split sum.split prod.split bool.split)

section \<open>Reading\<close>

definition only_clock :: "ServerState \<Rightarrow> ServerState \<Rightarrow> bool" where
  "only_clock t t' = (\<exists>n. t' = t\<lparr>sx_world := (sx_world t)\<lparr>wd_ticks := n\<rparr>\<rparr>)"

definition reading_routes :: "route set" where
  "reading_routes = {RList, RDiff, RGet, RQuotas, RUsage, RQuota, RRevisions, REvents, REvent, RAudit, RNodes, RCheckpoints, RPlugins}"

lemma only_clock_refl [simp]: "only_clock t t" "only_clock t (t\<lparr>sx_world := sx_world t\<rparr>)"
  by (auto simp: only_clock_def intro!: exI [of _ "wd_ticks (sx_world t)"])

lemma only_clock_tick [simp]: "only_clock t (t\<lparr>sx_world := snd (time_Now (sx_world t))\<rparr>)"
  by (auto simp: only_clock_def time_Now_def)

context workload_store
begin

lemma NamespaceUsage_unchanged: "valid s \<Longrightarrow> snd (NamespaceUsage lib e st ns s) = s"
  using List [of s "trim_space ns"]
  by (auto simp: NamespaceUsage_def Let_def split: option.split sum.split)

lemma reading_only_clock:
  assumes "valid (sx_world t)" "sv_store sv = st" "rt \<in> reading_routes"
  shows "only_clock t (snd (handler rt sv r t))"
proof -
  obtain as where l: "store_List st (q_Namespace (parseSearchQuery r)) (sx_world t) = (Ok as, sx_world t)"
    using List [OF assms(1)] by blast
  obtain as' where l': "store_List st [] (sx_world t) = (Ok as', sx_world t)"
    using List [OF assms(1)] by blast
  have u: "snd (NamespaceUsage lib e st ns (sx_world t)) = sx_world t" for lib e ns
    by (rule NamespaceUsage_unchanged [OF assms(1)])
  show ?thesis
    using assms(3) unfolding reading_routes_def
    by (elim insertE emptyE; simp add: handler_defs get_workload_def ListRevisions_def nodeHealthFromRegistry_def assms(2) Get l l' Let_def
        split_beta u split: option.split sum.split prod.split)
qed

end

lemma reading_dispatch: "method_matches ''GET'' m \<Longrightarrow> dispatch m path = Some (rt, vars) \<Longrightarrow> rt \<in> reading_routes"
proof -
  assume m: "method_matches ''GET'' m" and d: "dispatch m path = Some (rt, vars)"
  then obtain p ps where f: "filter (route_matches m path) RegisterRoutes = p # ps" "snd (snd p) = rt"
    by (auto simp: dispatch_def split: list.splits)
  then have p: "p \<in> set (filter (route_matches m path) RegisterRoutes)" "snd (snd p) = rt" by simp_all
  have "list_all (\<lambda>p. fst p = ''GET'' \<longrightarrow> snd (snd p) \<in> reading_routes) RegisterRoutes"
    unfolding reading_routes_def by code_simp
  moreover have "fst p = ''GET''"
    using p(1) m route_methods by (auto simp: route_matches_def method_matches_def list_all_iff split: prod.splits)
  ultimately show ?thesis using p by (auto simp: list_all_iff)
qed

text \<open>
  C21. Reading is safe: a GET or HEAD request that reaches a handler changes nothing in the process
  but the reading of the clock: no workload, store entry, audit event, driver call, published
  event, quota or secret registration.
\<close>

theorem get_requests_are_safe:
  assumes "mem_valid (sx_world t)" "sv_store sv = NewVersionedStore MemStore n"
    and "rx_Method r = ''GET'' \<or> rx_Method r = ''HEAD''" "serve sv r path t = Some (resp, t')"
  shows "\<exists>k. t' = t\<lparr>sx_world := (sx_world t)\<lparr>wd_ticks := k\<rparr>\<rparr>"
proof -
  obtain rt vars where d: "dispatch (rx_Method r) path = Some (rt, vars)" "t' = snd (handler rt sv (r\<lparr>rx_Path := vars\<rparr>) t)"
    using assms(4) by (auto simp: serve_def split: option.splits)
  have "rt \<in> reading_routes" using d(1) assms(3) by (intro reading_dispatch) (auto simp: method_matches_def)
  then show ?thesis
    using vs.reading_only_clock [OF assms(1,2)] d(2) by (simp add: only_clock_def)
qed

section \<open>Bulk requests\<close>

fun run_items :: "('q, 'x) Server \<Rightarrow> BulkWorkloadRequest \<Rightarrow> BulkWorkloadItem list \<Rightarrow> ServerState \<Rightarrow> error option list \<times> ServerState" where
  \<comment> \<open>the items one after the other, up to the first failure unless errors are ignored\<close>
  "run_items sv req [] t = ([], t)"
| "run_items sv req (item # items) t = (case bulk_one sv (bq_Operation req) item t of
     (err, t1) \<Rightarrow> if err \<noteq> None \<and> \<not> bq_ContinueOnError req then ([err], t1)
                  else case run_items sv req items t1 of (errs, t2) \<Rightarrow> (err # errs, t2))"

lemma bulk_loop_run:
  "case run_items sv req items t of (errs, t') \<Rightarrow>
     bulk_loop sv req items resp t =
       (\<lparr>bp_Operation = bp_Operation resp,
         bp_Results = bp_Results resp @ map2 (\<lambda>item err. \<lparr>br_ID = bi_ID item, br_Success = (err = None), br_Error = err\<rparr>) items errs,
         bp_Succeeded = bp_Succeeded resp + int (length (filter (\<lambda>e. e = None) errs)),
         bp_Failed = bp_Failed resp + int (length (filter (\<lambda>e. e \<noteq> None) errs))\<rparr>, t')"
proof (induction sv req items t arbitrary: resp rule: run_items.induct)
  case (2 sv req item items t)
  obtain err t1 where o: "bulk_one sv (bq_Operation req) item t = (err, t1)" by (cases "bulk_one sv (bq_Operation req) item t")
  show ?case
  proof (cases "err \<noteq> None \<and> \<not> bq_ContinueOnError req")
    case True
    then show ?thesis by (auto simp: o Let_def)
  next
    case False
    obtain errs t2 where r: "run_items sv req items t1 = (errs, t2)" by (cases "run_items sv req items t1")
    show ?thesis using "2.IH" [OF o [symmetric] False] False by (cases err) (auto simp: o r Let_def)
  qed
qed simp

definition run_shape :: "bool \<Rightarrow> nat \<Rightarrow> error option list \<Rightarrow> bool" where
  "run_shape continue n errs = (length errs \<le> n \<and>
     (if continue then length errs = n
      else filter (\<lambda>e. e \<noteq> None) (butlast errs) = [] \<and> (length errs = n \<or> errs \<noteq> [] \<and> last errs \<noteq> None)))"

lemma run_shape_Cons: "run_shape c n errs \<Longrightarrow> e = None \<or> c \<Longrightarrow> run_shape c (Suc n) (e # errs)"
  by (auto simp: run_shape_def)

lemma run_items_shape: "run_shape (bq_ContinueOnError req) (length items) (fst (run_items sv req items t))"
proof (induction items arbitrary: t)
  case (Cons item items)
  obtain err t1 where o: "bulk_one sv (bq_Operation req) item t = (err, t1)" by (cases "bulk_one sv (bq_Operation req) item t")
  obtain errs t2 where r: "run_items sv req items t1 = (errs, t2)" by (cases "run_items sv req items t1")
  show ?case
  proof (cases "err \<noteq> None \<and> \<not> bq_ContinueOnError req")
    case False
    then show ?thesis using Cons.IH [of t1] run_shape_Cons [of "bq_ContinueOnError req" "length items" errs err] by (auto simp: o r)
  qed (simp add: o run_shape_def)
qed (simp add: run_shape_def)

text \<open>
  C26. A bulk request is its items in order: the resulting state is that of applying the operation to
  the items one after the other, each on the state its predecessor left, and the response has
  one result per processed item, in order, with its id and outcome, and exact counts. With
  \<open>continue_on_error\<close> every item is processed; without it processing stops at the first failure,
  which is then the last result and the only failed one.
\<close>

theorem bulk_request_runs_items_in_order:
  "case executeBulk sv req t of (resp, t') \<Rightarrow>
     \<exists>errs. run_items sv req (bq_Workloads req) t = (errs, t') \<and>
       map (\<lambda>res. (br_ID res, br_Success res, br_Error res)) (bp_Results resp) =
         map2 (\<lambda>item err. (bi_ID item, err = None, err)) (bq_Workloads req) errs \<and>
       bp_Succeeded resp = int (length (filter (\<lambda>e. e = None) errs)) \<and> bp_Failed resp = int (length (filter (\<lambda>e. e \<noteq> None) errs)) \<and>
       length errs \<le> length (bq_Workloads req) \<and>
       (if bq_ContinueOnError req then length errs = length (bq_Workloads req)
        else filter (\<lambda>e. e \<noteq> None) (butlast errs) = [] \<and> (length errs = length (bq_Workloads req) \<or> errs \<noteq> [] \<and> last errs \<noteq> None))"
proof -
  obtain errs t' where r: "run_items sv req (bq_Workloads req) t = (errs, t')"
    by (cases "run_items sv req (bq_Workloads req) t")
  note b = bulk_loop_run [where sv = sv and req = req and items = "bq_Workloads req" and t = t and resp =
      "\<lparr>bp_Operation = bq_Operation req, bp_Results = [], bp_Succeeded = 0, bp_Failed = 0\<rparr>", unfolded r prod.case]
  show ?thesis
    unfolding executeBulk_def b using run_items_shape [of req "bq_Workloads req" sv t] by (simp add: r run_shape_def comp_def split_beta del: not_None_eq)
qed

section \<open>Deploying\<close>

lemma item_id_frame [simp, frame_simps]:
  "wd_heap (snd (item_id item s)) = wd_heap s" "wd_mem (snd (item_id item s)) = wd_mem s"
  "wd_fresh (snd (item_id item s)) = wd_fresh s" "wd_calls (snd (item_id item s)) = wd_calls s"
  "wd_log (snd (item_id item s)) = wd_log s" "wd_bus (snd (item_id item s)) = wd_bus s"
  by (simp_all add: item_id_def split_beta Let_def)

definition fresh_pending :: "BulkWorkloadItem \<Rightarrow> world \<Rightarrow> world" where
  \<comment> \<open>the world in which \<open>deployOne\<close> calls \<open>Create\<close>\<close>
  "fresh_pending item s = (let s1 = snd (item_id item s); s2 = snd (time_Now s1)
     in snd (alloc (pending_workload (fst (item_id item s)) (bi_Spec item) (fst (time_Now s1))) s2))"

lemma fresh_pending_frame [simp, frame_simps]:
  "wd_mem (fresh_pending item s) = wd_mem s" "wd_fresh (fresh_pending item s) = Suc (wd_fresh s)"
  "wd_calls (fresh_pending item s) = wd_calls s"
  "a \<noteq> wd_fresh s \<Longrightarrow> deref (fresh_pending item s) a = deref s a"
  "wl_ID (deref (fresh_pending item s) (wd_fresh s)) = fst (item_id item s)"
  "wl_Spec (deref (fresh_pending item s) (wd_fresh s)) = bi_Spec item"
  "wl_Namespace (deref (fresh_pending item s) (wd_fresh s)) = ''default''"
  "phase (deref (fresh_pending item s) (wd_fresh s)) = WorkloadPhasePending"
  "wl_RollbackVersions (deref (fresh_pending item s) (wd_fresh s)) = []"
  "st_CircuitBreaker (wl_Status (deref (fresh_pending item s) (wd_fresh s))) = None"
  "wl_Labels (deref (fresh_pending item s) (wd_fresh s)) = None" "wl_Tags (deref (fresh_pending item s) (wd_fresh s)) = None"
  by (simp_all add: fresh_pending_def Let_def pending_workload_def zero_workload_def zero_status_def)

lemma deployOne_unfold:
  "deployOne sv item t = (let s3 = fresh_pending item (sx_world t); a = wd_fresh (sx_world t)
     in case store_Create (sv_store sv) a s3 of
          (Some err, s4) \<Rightarrow>
            if err = ErrWorkloadAlreadyExists
            then (fst (store_Update (sv_store sv) a s4), t\<lparr>sx_world := snd (store_Update (sv_store sv) a s4)\<rparr>)
            else (Some err, t\<lparr>sx_world := s4\<rparr>)
        | (None, s4) \<Rightarrow>
            (None, t\<lparr>sx_world := s4, sx_registry := (case sv_secrets sv of None \<Rightarrow> sx_registry t
                       | Some e \<Rightarrow> IndexWorkload e (deref s4 a) (sx_registry t))\<rparr>))"
proof -
  let ?s1 = "snd (item_id item (sx_world t))"
  have "alloc (pending_workload (fst (item_id item (sx_world t))) (bi_Spec item) (fst (time_Now ?s1))) (snd (time_Now ?s1)) =
      (wd_fresh (sx_world t), fresh_pending item (sx_world t))"
    by (simp add: fresh_pending_def Let_def prod_eq_iff)
  then show ?thesis by (simp only: deployOne_def Let_def split_beta fst_conv snd_conv)
qed

context workload_store
begin

lemma deployOne_spec:
  assumes "sv_store sv = st"
  obtains t' where "deployOne sv item t = (None, t')" "sx_quota t' = sx_quota t"
    "stored (sx_world t') = (stored (sx_world t))(fst (item_id item (sx_world t)) \<mapsto> wd_fresh (sx_world t))"
    "store_frame (fresh_pending item (sx_world t)) (sx_world t')" "valid (sx_world t) \<Longrightarrow> valid (sx_world t')"
proof -
  let ?s = "sx_world t" let ?s3 = "fresh_pending item ?s" let ?a = "wd_fresh ?s" let ?i = "fst (item_id item ?s)"
  have m: "stored ?s3 = stored ?s" "valid ?s3 = valid ?s" by (rule stored_mem valid_mem, simp)+
  have i: "wl_ID (deref ?s3 ?a) = ?i" by simp
  show thesis
  proof (cases "stored ?s ?i")
    case None
    then obtain s4 where s4: "store_Create st ?a ?s3 = (None, s4)" "stored s4 = (stored ?s)(?i \<mapsto> ?a)" "store_frame ?s3 s4"
      using Create_new [of ?s3 ?a] by (auto simp: m)
    have "valid s4" if "valid ?s" using valid_Create [of ?s3 ?a] that by (simp add: m s4(1))
    then show thesis using s4 by (intro that [of "snd (deployOne sv item t)"]) (auto simp: deployOne_unfold assms Let_def)
  next
    case (Some b)
    then obtain s4 where s4: "store_Create st ?a ?s3 = (Some ErrWorkloadAlreadyExists, s4)" "stored s4 = stored ?s" "store_frame ?s3 s4"
      using Create_known [of ?s3 ?a b] by (auto simp: m)
    have i4: "wl_ID (deref s4 ?a) = ?i" using store_frame_id [OF s4(3)] i by simp
    then obtain s5 where s5: "store_Update st ?a s4 = (None, s5)" "stored s5 = (stored ?s)(?i \<mapsto> ?a)" "store_frame s4 s5"
      using Update_known [of s4 ?a b] Some by (auto simp: s4(2))
    have "valid s5" if "valid ?s"
      using valid_Update [of s4 ?a] valid_Create [of ?s3 ?a] that by (simp add: m s4(1) s5(1))
    then show thesis
      using s4 s5 store_frame_trans [OF s4(3) s5(3)]
      by (intro that [of "snd (deployOne sv item t)"]) (auto simp: deployOne_unfold assms Let_def)
  qed
qed

end

text \<open>
  C27. A created workload can be read back: creating a workload with a decodable body always
  answers 201, and when an id is given, a following read of that id (blanks trimmed) answers
  200 with the new workload: the submitted spec, pending, in namespace \<open>default\<close>. This holds
  whether or not the id existed before, and no quota or policy is consulted.
\<close>

theorem created_workload_is_readable:
  assumes "sv_store sv = NewVersionedStore MemStore n" "jd_Item (sv_json sv) (rx_Body r) = Some item"
    and "trim_space (bi_ID item) \<noteq> []" "PathValue r' ''id'' = trim_space (bi_ID item)"
  shows "\<exists>t1 a. handleCreateWorkload sv r t = (writeJSON 201 (BID (bi_ID item)), t1) \<and>
    handleGetWorkload sv r' t1 = (writeJSON 200 (BWorkload a), t1) \<and>
    wl_ID (deref (sx_world t1) a) = trim_space (bi_ID item) \<and> wl_Spec (deref (sx_world t1) a) = bi_Spec item \<and>
    phase (deref (sx_world t1) a) = WorkloadPhasePending \<and> wl_Namespace (deref (sx_world t1) a) = ''default''"
proof -
  let ?s = "sx_world t" let ?a = "wd_fresh ?s"
  have i: "fst (item_id item ?s) = trim_space (bi_ID item)" using assms(3) by (simp add: item_id_def)
  obtain t1 where t1: "deployOne sv item t = (None, t1)"
    "mem_stored (sx_world t1) = (mem_stored ?s)(trim_space (bi_ID item) \<mapsto> ?a)" "store_frame (fresh_pending item ?s) (sx_world t1)"
    using vs.deployOne_spec [OF assms(1), of item t] unfolding i by blast
  have "handleCreateWorkload sv r t = (writeJSON 201 (BID (bi_ID item)), t1)"
    by (simp add: handleCreateWorkload_def assms(2) t1(1))
  moreover have "handleGetWorkload sv r' t1 = (writeJSON 200 (BWorkload ?a), t1)"
    by (simp add: handleGetWorkload_def get_workload_def assms(1,4) vs.Get t1(2))
  ultimately show ?thesis
    using store_frame_id [OF t1(3), of ?a] store_frame_spec [OF t1(3), of ?a] store_frame_phase [OF t1(3), of ?a]
      store_frame_namespace [OF t1(3), of ?a] i by auto
qed

section \<open>The shape of the state\<close>

definition server_quiet :: "('q, 'x) Server \<Rightarrow> bool" where
  "server_quiet sv = (case sv_sched sv of None \<Rightarrow> True | Some sd \<Rightarrow> driverless sd)"

lemma clear_restart_ID [simp]: "wl_ID (clear_restart w) = wl_ID w"
  by (simp add: clear_restart_def)

lemma RecordBeforeUpdate_ID [simp]: "wl_ID (deref (RecordBeforeUpdate a b n s) c) = wl_ID (deref s c)"
  by (rule store_frame_id [OF RecordBeforeUpdate_frame(1)])

context audited_store
begin

lemma ev_fresh_pending: "ev nd s (fresh_pending item s)"
proof -
  have "ev nd s (snd (item_id item s))" by (simp add: item_id_def split_beta Let_def)
  also have "ev nd (snd (item_id item s)) (snd (time_Now (snd (item_id item s))))" by simp
  also have "ev nd (snd (time_Now (snd (item_id item s)))) (fresh_pending item s)" by (simp add: fresh_pending_def Let_def)
  finally show ?thesis .
qed

lemma ev_deployOne:
  assumes "sv_store sv = st"
  shows "ev nd (sx_world t) (sx_world (snd (deployOne sv item t)))"
proof -
  let ?s3 = "fresh_pending item (sx_world t)" and ?a = "wd_fresh (sx_world t)"
  let ?s4 = "snd (store_Create st ?a ?s3)"
  have 4: "ev nd (sx_world t) ?s4" by (rule evolves_trans [OF ev_fresh_pending [of nd _ item]]) (simp add: ev_Create)
  have "wd_fresh ?s4 = wd_fresh ?s3" using Create_frame [of ?s3 ?a] by (simp add: store_frame_def)
  then have "ev nd ?s4 (snd (store_Update st ?a ?s4))" by (simp add: ev_Update)
  then have "ev nd (sx_world t) (snd (store_Update st ?a ?s4))" by (rule evolves_trans [OF 4])
  then show ?thesis using 4 by (simp add: deployOne_unfold assms Let_def split_beta split: option.split)
qed

lemma ev_restartOne:
  assumes "sv_store sv = st" "store_ok stored valid (sx_world t)"
  shows "ev (server_quiet sv) (sx_world t) (sx_world (snd (restartOne sv i t)))"
proof (cases "stored (sx_world t) i")
  case (Some a)
  let ?q = "server_quiet sv" and ?s = "sx_world t"
  let ?r = "case sv_sched sv of None \<Rightarrow> (None, ?s) | Some sd \<Rightarrow> RequestRollingRestart sd a ?s"
  let ?s3 = "modify a clear_restart (snd ?r)"
  let ?s4 = "if sv_eventStore sv then RecordWorkloadRestarted a ''api_restart'' ?s3 else ?s3"
  have r: "ev ?q ?s (snd ?r)" by (cases "sv_sched sv") (simp_all add: server_quiet_def ev_restart)
  have "ev ?q (snd ?r) ?s3" by simp
  also have "ev ?q ?s3 ?s4" by simp
  finally have 4: "ev ?q ?s ?s4" by (rule evolves_trans [OF r])
  have "a < wd_fresh ?s4" by (rule evolves_fresh [OF 4 stored_fresh [OF assms(2) Some]])
  then have "ev ?q ?s (snd (store_Update st a ?s4))" by (intro evolves_trans [OF 4] ev_Update)
  then show ?thesis
    using r by (simp add: restartOne_def assms(1) Get Some Let_def split_beta split: option.split)
qed (use assms in \<open>simp add: restartOne_def Get\<close>)

lemma ev_reverted:
  assumes "a < wd_fresh s"
  shows "ev nd s (reverted r rid n a s)"
proof -
  let ?s3 = "assign a (restore_revision r (deref s a)) (snd (alloc (captured_copy r (deref s a)) s))"
  let ?s4 = "RecordBeforeUpdate a (wd_fresh s) n ?s3"
  have "ev nd s (snd (alloc (captured_copy r (deref s a)) s))" by simp
  also have "ev nd (snd (alloc (captured_copy r (deref s a)) s)) ?s3" using assms by (simp add: restore_revision_def Let_def)
  also have "ev nd ?s3 ?s4"
    using RecordBeforeUpdate_frame [where s = ?s3 and n = a and p = "wd_fresh s" and maxN = n] by (intro ev_frame) (simp_all add: id_frame_def store_frame_def trace_grows_same)
  also have "ev nd ?s4 (snd (time_Now ?s4))" by simp
  also have "ev nd (snd (time_Now ?s4)) (reverted r rid n a s)" by (simp add: reverted_def Let_def)
  finally show ?thesis .
qed

lemma ev_Revert:
  assumes "store_ok stored valid s"
  shows "ev nd s (snd (Revert st i rid n s))"
proof (cases "\<exists>a revn. stored s i = Some a \<and> findRevision (wl_RollbackVersions (deref s a)) rid = Some revn")
  case True
  then obtain a revn where a: "stored s i = Some a" "findRevision (wl_RollbackVersions (deref s a)) rid = Some revn" by blast
  let ?s6 = "reverted revn rid (if n \<le> 0 then defaultMaxVersions else n) a s"
  have lt: "a < wd_fresh s" by (rule stored_fresh [OF assms a(1)])
  note 6 = ev_reverted [OF lt, of nd revn rid "if n \<le> 0 then defaultMaxVersions else n"]
  have "ev nd s (snd (store_Update st a ?s6))" by (rule evolves_trans [OF 6 ev_Update [OF evolves_fresh [OF 6 lt]]])
  moreover have "snd (Revert st i rid n s) = snd (store_Update st a ?s6)"
    by (simp add: Revert_def Get a reverted_def Let_def split_beta cong: option.case_cong split: option.split)
  ultimately show ?thesis by simp
next
  case False
  then have "snd (Revert st i rid n s) = s" by (auto simp: Revert_def Get split: option.split)
  then show ?thesis by simp
qed

end

context audited_store
begin

lemma ev_rotate_one:
  assumes "store_ok stored valid s"
  shows "ev nd s (snd (rotate_one e st name v now i s))"
proof (cases "stored s i")
  case (Some a)
  let ?u = "store_Update st a (modify a (mark_rotated name v now) s)"
  let ?s3 = "if sre_eventStore e then RecordSecretRotated a name v (snd ?u) else snd ?u"
  let ?s4 = "if sre_eventBus e then publish (rotated_event a name v) ?s3 else ?s3"
  have u: "ev nd s (snd ?u)" by (rule ev_modify_Update [OF evolves_refl stored_fresh [OF assms Some]]) simp
  have "ev nd (snd ?u) ?s3" by simp
  also have "ev nd ?s3 ?s4" by simp
  finally have "ev nd s ?s4" by (rule evolves_trans [OF u])
  then show ?thesis using u by (auto simp: rotate_one_def Get Some Let_def split_beta split: option.split if_splits)
qed (simp add: rotate_one_def Get)

lemma ev_rotate_loop: "store_ok stored valid s \<Longrightarrow> ev nd s (snd (rotate_loop e st name v now ids s))"
proof (induction ids arbitrary: s)
  case (Cons i ids)
  note 1 = ev_rotate_one [OF Cons.prems, of nd e name v now i]
  show ?case using evolves_trans [OF 1 Cons.IH [OF evolves_ok [OF 1 Cons.prems]]] by (simp add: split_beta Let_def)
qed simp

lemma ev_HandleRotation:
  assumes "store_ok stored valid s"
  shows "ev nd s (snd (snd (HandleRotation e st n r s)))"
proof -
  have 1: "ev nd s (snd (time_Now s))" by simp
  show ?thesis
    using 1 evolves_trans [OF 1 ev_rotate_loop [OF evolves_ok [OF 1 assms]]] by (simp add: HandleRotation_def split_beta Let_def)
qed

lemma ev_bulk_one:
  assumes "sv_store sv = st" "store_ok stored valid (sx_world t)"
  shows "ev (server_quiet sv) (sx_world t) (sx_world (snd (bulk_one sv opn item t)))"
  using assms by (simp add: bulk_one_def ev_deployOne ev_restartOne ev_Delete split_beta)

lemma ev_executeBulk:
  assumes "sv_store sv = st" "store_ok stored valid (sx_world t)"
  shows "ev (server_quiet sv) (sx_world t) (sx_world (snd (executeBulk sv req t)))"
proof -
  have "store_ok stored valid (sx_world t) \<Longrightarrow> ev (server_quiet sv) (sx_world t) (sx_world (snd (bulk_loop sv req items resp t)))"
    for items resp t
  proof (induction items arbitrary: resp t)
    case (Cons item items)
    obtain err t1 where o: "bulk_one sv (bq_Operation req) item t = (err, t1)" by fastforce
    have 1: "ev (server_quiet sv) (sx_world t) (sx_world t1)" using ev_bulk_one [OF assms(1) Cons.prems, of "bq_Operation req" item] o by simp
    show ?case
      using 1 evolves_trans [OF 1 Cons.IH [OF evolves_ok [OF 1 Cons.prems]]] by (cases err) (simp_all add: o Let_def)
  qed simp
  then show ?thesis using assms(2) by (simp add: executeBulk_def)
qed

lemma ev_writing:
  assumes "sv_store sv = st" "store_ok stored valid (sx_world t)" "rt \<notin> reading_routes"
  shows "ev (server_quiet sv) (sx_world t) (sx_world (snd (handler rt sv r t)))"
proof -
  note ev = ev_deployOne [OF assms(1)] ev_restartOne [OF assms(1,2)] ev_executeBulk [OF assms(1,2)] ev_Delete
    ev_Revert [OF assms(2)] ev_HandleRotation [OF assms(2)]
  show ?thesis
    using assms(2,3) by (cases rt)
      (simp_all add: handler_defs reading_routes_def ev assms(1) Get split_beta Let_def split: option.split sum.split bool.split)
qed

lemma ev_handler:
  assumes "sv_store sv = st" "store_ok stored valid (sx_world t)"
  shows "ev (server_quiet sv) (sx_world t) (sx_world (snd (handler rt sv r t)))"
proof (cases "rt \<in> reading_routes")
  case True
  have "valid (sx_world t)" using assms(2) by (simp add: store_ok_def)
  then obtain k where "snd (handler rt sv r t) = t\<lparr>sx_world := (sx_world t)\<lparr>wd_ticks := k\<rparr>\<rparr>"
    using reading_only_clock [OF _ assms(1) True] by (auto simp: only_clock_def)
  moreover have "ev (server_quiet sv) (sx_world t) ((sx_world t)\<lparr>wd_ticks := k\<rparr>)" by (rule ev_frame) (simp_all add: id_frame_def trace_grows_same)
  ultimately show ?thesis by simp
qed (rule ev_writing [OF assms])

lemma ev_serve:
  assumes "sv_store sv = st" "store_ok stored valid (sx_world t)" "serve sv r path t = Some (resp, t')"
  shows "ev (server_quiet sv) (sx_world t) (sx_world t')"
proof -
  obtain rt vars where "handler rt sv (r\<lparr>rx_Path := vars\<rparr>) t = (resp, t')"
    using assms(3) by (auto simp: serve_def split: option.splits)
  then show ?thesis using ev_handler [OF assms(1,2), of rt "r\<lparr>rx_Path := vars\<rparr>"] by simp
qed

end

fun serve_all :: "('q, 'x) Server \<Rightarrow> (Request \<times> string list) list \<Rightarrow> ServerState \<Rightarrow> ServerState" where
  \<comment> \<open>a sequence of requests; one that no route takes leaves the state alone\<close>
  "serve_all sv [] t = t"
| "serve_all sv ((r, path) # reqs) t = serve_all sv reqs (case serve sv r path t of None \<Rightarrow> t | Some (_, t') \<Rightarrow> t')"

text \<open>
  The API keeps the store well formed: over every sequence of requests, valid or not, the
  workload store keeps one entry per id, every stored workload carries the id it is stored
  under, and every stored address is allocated.
\<close>

theorem api_keeps_store_wellformed:
  assumes "sv_store sv = NewVersionedStore MemStore n" "store_ok mem_stored mem_valid (sx_world t)"
  shows "store_ok mem_stored mem_valid (sx_world (serve_all sv reqs t))"
  using assms(2)
proof (induction reqs arbitrary: t)
  case (Cons req reqs)
  obtain r path where req: "req = (r, path)" by (cases req)
  have "store_ok mem_stored mem_valid (sx_world (case serve sv r path t of None \<Rightarrow> t | Some (_, t') \<Rightarrow> t'))"
    using Cons.prems evolves_ok [OF av.ev_serve [OF assms(1) Cons.prems] Cons.prems] by (cases "serve sv r path t") auto
  then show ?case using Cons.IH by (simp add: req)
qed simp

section \<open>Redeploying\<close>

lemma mem_Create_known: "mem_stored s (wl_ID (deref s a)) = Some b \<Longrightarrow> mem_Create a s = (Some ErrWorkloadAlreadyExists, s)"
  by (simp add: mem_Create_def)

lemma RecordInitial_new:
  assumes "wl_RollbackVersions (deref s a) = []" "0 < n"
  shows "\<exists>c. rv_Spec c = wl_Spec (deref s a) \<and> wl_RollbackVersions (deref (RecordInitial a n s) a) = [c]"
  using assms by (auto simp: RecordInitial_def snapshotRevision_def revision_of_def Let_def split_beta)

lemma RecordBeforeUpdate_history:
  assumes "a \<noteq> b" "0 < n"
  shows "wl_RollbackVersions (deref (RecordBeforeUpdate a b n s) a) = wl_RollbackVersions (deref s a) \<or>
    (\<exists>u. rv_Spec u = wl_Spec (deref s b) \<and>
       wl_RollbackVersions (deref (RecordBeforeUpdate a b n s) a) = take (nat n) (u # wl_RollbackVersions (deref s a)))"
  using assms by (simp add: RecordBeforeUpdate_def tagsEqual_def snapshotRevision_def revision_of_def record_revision_def
      prependRevision_eq Let_def split_beta) (metis WorkloadRevision.select_convs(3))

lemma mem_Update_heap': "wd_heap (snd (mem_Update a s)) = wd_heap s"
  using mem_exec_heap [of "OpUpdate a" s] by (simp add: MemStore_def)

lemma redeploy_history:
  assumes "sv_store sv = NewVersionedStore MemStore n" "mem_stored (sx_world t) i = Some b" "b < wd_fresh (sx_world t)"
    and "fst (item_id item (sx_world t)) = i" "deployOne sv item t = (err, t')"
  shows "\<exists>c. rv_Spec c = bi_Spec item \<and>
    (wl_RollbackVersions (deref (sx_world t') (wd_fresh (sx_world t))) = [c] \<or>
     (\<exists>u. rv_Spec u = wl_Spec (deref (sx_world t) b) \<and>
       wl_RollbackVersions (deref (sx_world t') (wd_fresh (sx_world t))) = take (nat (versions_or_default n)) [u, c]))"
proof -
  let ?s = "sx_world t" let ?a = "wd_fresh ?s" let ?n = "versions_or_default n"
  let ?s1 = "modify ?a tags_Apply (fresh_pending item ?s)"
  let ?s4 = "RecordInitial ?a ?n ?s1"
  have ab: "?a \<noteq> b" using assms(3) by simp
  obtain c where c: "rv_Spec c = bi_Spec item" "wl_RollbackVersions (deref ?s4 ?a) = [c]"
    using RecordInitial_new [where s = ?s1 and a = ?a and n = ?n] by auto
  have f4: "store_frame (fresh_pending item ?s) ?s4" "wd_mem ?s4 = wd_mem ?s"
    using mem.versioned_prepare_Create [where s = "fresh_pending item ?s" and a = ?a and n = ?n] by simp_all
  have id4: "wl_ID (deref ?s4 ?a) = i" using store_frame_id [OF f4(1)] assms(4) by simp
  have st4: "mem_stored ?s4 i = Some b" using f4(2) assms(2) by (simp add: mem_stored_def)
  have cr: "store_Create (sv_store sv) ?a (fresh_pending item ?s) = (Some ErrWorkloadAlreadyExists, ?s4)"
    using st4 id4 by (simp add: assms(1) NewVersionedStore_def versioned_Create_def MemStore_def mem_Create_known)
  let ?s5 = "RecordBeforeUpdate ?a b ?n (modify ?a tags_Apply ?s4)"
  have "store_Update (sv_store sv) ?a ?s4 = mem_Update ?a ?s5"
    using st4 id4 by (simp add: assms(1) NewVersionedStore_def versioned_Update_def mem.Get MemStore_def mem_Get_def Let_def)
  then have "wd_heap (sx_world t') = wd_heap ?s5"
    using assms(5) mem_Update_heap' [where a = ?a and s = ?s5] by (auto simp: deployOne_unfold cr Let_def)
  moreover have "wl_Spec (deref ?s4 b) = wl_Spec (deref ?s b)"
    using store_frame_spec [OF f4(1), of b] ab by simp
  ultimately show ?thesis
    using c RecordBeforeUpdate_history [OF ab, where n = ?n and s = "modify ?a tags_Apply ?s4"] ab by (intro exI [of _ c]) auto
qed

text \<open>
  A redeploy through the API forgets the rollback history: deploying an existing id replaces
  the stored workload by a new one whose history holds at most two revisions whatever the
  old workload had recorded, and the revision that a rollback request without a revision id
  selects is a snapshot of the spec just deployed, so such a rollback restores nothing.
\<close>

theorem redeploy_forgets_history:
  assumes "sv_store sv = NewVersionedStore MemStore n" "mem_stored (sx_world t) (trim_space (bi_ID item)) = Some b"
    and "b < wd_fresh (sx_world t)" "trim_space (bi_ID item) \<noteq> []"
  shows "\<exists>t' a. deployOne sv item t = (None, t') \<and> mem_stored (sx_world t') (trim_space (bi_ID item)) = Some a \<and>
    length (wl_RollbackVersions (deref (sx_world t') a)) \<le> 2 \<and>
    (\<forall>rid. requested_revision [] (deref (sx_world t') a) = Some rid \<longrightarrow>
       (\<exists>rev \<in> set (wl_RollbackVersions (deref (sx_world t') a)). rv_ID rev = rid \<and> rv_Spec rev = wl_Spec (deref (sx_world t') a)))"
proof -
  let ?s = "sx_world t" let ?a = "wd_fresh ?s"
  have i: "fst (item_id item ?s) = trim_space (bi_ID item)" using assms(4) by (simp add: item_id_def)
  obtain t1 where t1: "deployOne sv item t = (None, t1)"
    "mem_stored (sx_world t1) = (mem_stored ?s)(trim_space (bi_ID item) \<mapsto> ?a)" "store_frame (fresh_pending item ?s) (sx_world t1)"
    using vs.deployOne_spec [OF assms(1), of item t] unfolding i by blast
  have spec: "wl_Spec (deref (sx_world t1) ?a) = bi_Spec item" using store_frame_spec [OF t1(3), of ?a] by simp
  obtain c u where c: "rv_Spec c = bi_Spec item"
    "wl_RollbackVersions (deref (sx_world t1) ?a) \<in> {[c], take (nat (versions_or_default n)) [u, c]}"
    using redeploy_history [OF assms(1-3) i t1(1)] by blast
  have "length (wl_RollbackVersions (deref (sx_world t1) ?a)) \<le> 2" using c(2) by auto
  moreover have "wl_RollbackVersions (deref (sx_world t1) ?a) = [u, c]" if "requested_revision [] (deref (sx_world t1) ?a) = Some rid" for rid
    using that c(2) by (auto simp: requested_revision_def split: if_splits)
  then have "\<exists>rev \<in> set (wl_RollbackVersions (deref (sx_world t1) ?a)). rv_ID rev = rid \<and> rv_Spec rev = wl_Spec (deref (sx_world t1) ?a)"
    if "requested_revision [] (deref (sx_world t1) ?a) = Some rid" for rid
    using that c(1) spec by (intro bexI [of _ c]) (auto simp: requested_revision_def)
  ultimately show ?thesis using t1(1,2) by (intro exI [of _ t1] exI [of _ ?a]) simp
qed

section \<open>Searching\<close>

text \<open>
  A listing shows exactly the matching workloads of the requested namespace: the paged items are
  the stored workloads, one per id, whose namespace is exactly the requested one (any, when all
  namespaces are asked for or none is named) and that meet every other criterion. The namespace
  comparison of the filter ignores case and blanks, but the store's does not, so a namespace
  spelt differently lists nothing.
\<close>

theorem listing_is_exact:
  assumes "mem_valid (sx_world t)" "sv_store sv = NewVersionedStore MemStore n"
  shows "let q = parseSearchQuery r; s = sx_world t
    in \<exists>ids. distinct ids \<and>
      set ids = {i. \<exists>a. mem_stored s i = Some a \<and> (q_AllNamespaces q \<or> q_Namespace q = [] \<or> wl_Namespace (deref s a) = q_Namespace q) \<and>
        list_all (\<lambda>c. c (deref s a)) (criteria q)} \<and>
      (case sv_SlicePage sv (GetID s) (map (\<lambda>i. mem_stored s i) ids) (sv_ParseParams sv (query_Get r ''limit'') (query_Get r ''cursor''))
       of (page, info) \<Rightarrow> handleListWorkloads sv r t = (writeJSON 200 (BPage page info (int (length page)) q), t))"
proof -
  let ?q = "parseSearchQuery r" let ?s = "sx_world t"
  let ?ns = "if q_AllNamespaces ?q then [] else q_Namespace ?q"
  let ?ok = "\<lambda>i. list_all (\<lambda>c. c (deref ?s (the (mem_stored ?s i)))) (criteria ?q)"
  obtain ids where ids: "distinct ids" "set ids = {i. \<exists>a. mem_stored ?s i = Some a \<and> (?ns = [] \<or> wl_Namespace (deref ?s a) = ?ns)}"
    "store_List (NewVersionedStore MemStore n) ?ns ?s = (Ok (map (\<lambda>i. the (mem_stored ?s i)) ids), ?s)"
    using vs.List [OF assms(1)] by blast
  have f: "Filter ?s (map Some (map (\<lambda>i. the (mem_stored ?s i)) ids)) ?q = map (\<lambda>i. Some (the (mem_stored ?s i))) (filter ?ok ids)"
    by (simp add: Filter_filter Match_criteria filter_map comp_def)
  also have "\<dots> = map (\<lambda>i. mem_stored ?s i) (filter ?ok ids)" using ids(2) by auto
  finally have h: "handleListWorkloads sv r t = (case sv_SlicePage sv (GetID ?s) (map (\<lambda>i. mem_stored ?s i) (filter ?ok ids))
      (sv_ParseParams sv (query_Get r ''limit'') (query_Get r ''cursor''))
    of (page, info) \<Rightarrow> (writeJSON 200 (BPage page info (int (length page)) ?q), t))"
    by (simp add: handleListWorkloads_def assms(2) ids(3) Paginate_def Let_def split_beta del: if_split)
  have "distinct (filter ?ok ids)" using ids(1) by simp
  moreover have "set (filter ?ok ids) = {i. \<exists>a. mem_stored ?s i = Some a \<and>
      (q_AllNamespaces ?q \<or> q_Namespace ?q = [] \<or> wl_Namespace (deref ?s a) = q_Namespace ?q) \<and> list_all (\<lambda>c. c (deref ?s a)) (criteria ?q)}"
    using ids(2) by (auto split: if_splits)
  ultimately show ?thesis unfolding Let_def h by (intro exI [of _ "filter ?ok ids"]) (simp add: split_beta)
qed

lemma ParseInt64_itoa: "- (2 ^ 63) \<le> i \<Longrightarrow> i < 2 ^ 63 \<Longrightarrow> ParseInt64 (itoa i) = i"
  by (simp add: ParseInt64_def ParseInt_itoa)

section \<open>Witnesses\<close>

definition demo_item :: BulkWorkloadItem where
  "demo_item = \<lparr>bi_ID = ''a'', bi_Spec = zero_spec\<lparr>sp_Image := ''v2''\<rparr>\<rparr>"

definition demo_server :: "(int, string) Server" where
  "demo_server = \<lparr>sv_store = NewVersionedStore MemStore 5, sv_versions = Some 5, sv_eventStore = True, sv_sched = None, sv_secrets = None,
     sv_quantity = int_quantities, sv_json = \<lparr>jd_Bulk = (\<lambda>_. None), jd_Item = (\<lambda>_. Some demo_item), jd_Wrap = (\<lambda>_. None),
       jd_Spec = (\<lambda>_. None), jd_Quota = (\<lambda>_. None), jd_Rotation = (\<lambda>_. None), jd_RevisionID = (\<lambda>_. []),
       jd_Targeted = (\<lambda>b. (False, \<lparr>tg_Name = [], tg_Rest = b\<rparr>)), jd_Zero = \<lparr>tg_Name = [], tg_Rest = []\<rparr>, jd_Revisions = (\<lambda>_. [])\<rparr>,
     sv_ParseParams = (\<lambda>l c. l @ c), sv_SlicePage = (\<lambda>_ as p. (as, p)), sv_nodeOps = None, sv_runtimeOps = None, sv_runtimePlugins = None,
     sv_runtimeMigration = None\<rparr>"

definition demo_request :: "string \<Rightarrow> Request" where
  "demo_request m = \<lparr>rx_Method = m, rx_Path = [(''id'', ''a'')], rx_Query = [], rx_Body = ''x'', rx_ContentLength = 1\<rparr>"

definition demo_state :: "(string \<times> addr) list \<Rightarrow> ServerState" where
  "demo_state m = \<lparr>sx_world = demo_world (\<lambda>_. demo_workload ''a'' ''v1'') m, sx_quota = None, sx_registry = secret_NewRegistry\<rparr>"

lemma trim_a: "trim_space ''a'' = ''a''"
  by code_simp

lemma demo_server_simps [simp]:
  "sv_store demo_server = NewVersionedStore MemStore 5" "jd_Item (sv_json demo_server) b = Some demo_item" "bi_ID demo_item = ''a''"
  "rx_Method (demo_request m) = m" "PathValue (demo_request m) ''id'' = ''a''" "bi_Spec demo_item = zero_spec\<lparr>sp_Image := ''v2''\<rparr>"
  by (simp_all add: demo_server_def demo_item_def demo_request_def PathValue_def sget_def)

lemma demo_state_ok: "store_ok mem_stored mem_valid (sx_world (demo_state [(''a'', 0)]))"
  by (simp add: store_ok_def demo_state_def mem_valid_def demo_world_def wf_map_def keyed_def mem_stored_def demo_workload_def)

lemma demo_dispatch:
  "dispatch ''GET'' [''api'', ''v1'', ''workloads'', ''a''] = Some (RGet, [(''id'', ''a'')])"
  by code_simp

theorem get_requests_are_safe_witness:
  "\<exists>resp t' k. serve demo_server (demo_request ''GET'') [''api'', ''v1'', ''workloads'', ''a''] (demo_state [(''a'', 0)]) = Some (resp, t') \<and>
     t' = (demo_state [(''a'', 0)])\<lparr>sx_world := (sx_world (demo_state [(''a'', 0)]))\<lparr>wd_ticks := k\<rparr>\<rparr>"
proof -
  let ?h = "handler RGet demo_server ((demo_request ''GET'')\<lparr>rx_Path := [(''id'', ''a'')]\<rparr>) (demo_state [(''a'', 0)])"
  have s: "serve demo_server (demo_request ''GET'') [''api'', ''v1'', ''workloads'', ''a''] (demo_state [(''a'', 0)]) = Some (fst ?h, snd ?h)"
    by (simp add: serve_def demo_dispatch)
  have "\<exists>k. snd ?h = (demo_state [(''a'', 0)])\<lparr>sx_world := (sx_world (demo_state [(''a'', 0)]))\<lparr>wd_ticks := k\<rparr>\<rparr>"
    by (rule get_requests_are_safe [OF _ _ _ s, of 5]) (use demo_state_ok in \<open>simp_all add: store_ok_def\<close>)
  then show ?thesis using s by blast
qed

theorem created_workload_is_readable_witness:
  "\<exists>t1 a. handleCreateWorkload demo_server (demo_request ''POST'') (demo_state []) = (writeJSON 201 (BID ''a''), t1) \<and>
     handleGetWorkload demo_server (demo_request ''GET'') t1 = (writeJSON 200 (BWorkload a), t1) \<and>
     wl_Spec (deref (sx_world t1) a) = zero_spec\<lparr>sp_Image := ''v2''\<rparr>"
  using created_workload_is_readable [of demo_server 5 "demo_request ''POST''" demo_item "demo_request ''GET''" "demo_state []"]
  by (simp add: trim_a) blast

theorem api_keeps_store_wellformed_witness:
  "store_ok mem_stored mem_valid (sx_world (serve_all demo_server [(demo_request ''POST'', [''api'', ''v1'', ''workloads'']),
     (demo_request ''DELETE'', [''api'', ''v1'', ''workloads'', ''a''])] (demo_state [(''a'', 0)])))"
  by (rule api_keeps_store_wellformed [where n = 5]) (simp_all add: demo_state_ok)

theorem redeploy_forgets_history_witness:
  "\<exists>t' a. deployOne demo_server demo_item (demo_state [(''a'', 0)]) = (None, t') \<and> mem_stored (sx_world t') ''a'' = Some a \<and>
     length (wl_RollbackVersions (deref (sx_world t') a)) \<le> 2"
  using redeploy_forgets_history [of demo_server 5 "demo_state [(''a'', 0)]" demo_item 0]
  by (auto simp: trim_a demo_state_def demo_world_def mem_stored_def)

theorem listing_is_exact_witness:
  "\<exists>ids. distinct ids \<and> set ids = {i. \<exists>a. mem_stored (sx_world (demo_state [(''a'', 0)])) i = Some a \<and>
      (q_AllNamespaces (parseSearchQuery (demo_request ''GET'')) \<or> q_Namespace (parseSearchQuery (demo_request ''GET'')) = [] \<or>
       wl_Namespace (deref (sx_world (demo_state [(''a'', 0)])) a) = q_Namespace (parseSearchQuery (demo_request ''GET''))) \<and>
      list_all (\<lambda>c. c (deref (sx_world (demo_state [(''a'', 0)])) a)) (criteria (parseSearchQuery (demo_request ''GET'')))}"
  using listing_is_exact [of "demo_state [(''a'', 0)]" demo_server 5 "demo_request ''GET''"] demo_state_ok
  by (auto simp: store_ok_def Let_def)

end
