(* ===== verification/PersistentStores.thy ===== *)
theory PersistentStores
  imports StateStore
begin

text \<open>
  \<open>internal/state/etcd.go\<close> and \<open>internal/state/postgres.go\<close>: the two persistent stores. Unlike the
  in-memory store they keep encoded copies, so every read allocates a new workload object. The
  etcd client, the SQL database and \<open>encoding/json\<close> are the parameters \<open>EtcdClient\<close>, \<open>SqlDB\<close>,
  \<open>Codec\<close> and \<open>PgCodec\<close> over an abstract connection state; the laws a theorem needs of them are
  \<open>etcd_laws\<close> and \<open>json_roundtrip\<close>.

  Both stores guard their operations with one \<open>sync.RWMutex\<close>. The mutex is part of the state: an
  operation that waits for a lock its own goroutine holds never returns, which is \<open>None\<close>. The
  watch stream of etcd (\<open>watchEtcd\<close>) is the relay of one batch of changes to a channel. The
  constructors connect through the drivers' own functions and, for PostgreSQL, run the table
  definitions one by one.

  The lemmas: what is written to etcd is read back, \<open>Create\<close> and \<open>Update\<close> do not look at what is
  there, listing by namespace looks at ids, \<open>Delete\<close> never returns, a watcher hears of every
  write twice and of no deletion, and the table definitions run in order up to the first failure.
\<close>

section \<open>Locks and watchers\<close>

datatype RWMutex = Unlocked | ReadLocked nat | WriteLocked

definition RLock :: "RWMutex \<Rightarrow> RWMutex option" where
  "RLock m = (case m of Unlocked \<Rightarrow> Some (ReadLocked 1) | ReadLocked n \<Rightarrow> Some (ReadLocked (n + 1)) | WriteLocked \<Rightarrow> None)"

definition Lock :: "RWMutex \<Rightarrow> RWMutex option" where
  "Lock m = (case m of Unlocked \<Rightarrow> Some WriteLocked | _ \<Rightarrow> None)"

record 'k PersistentStore =
  ps_conn :: 'k
  ps_mu :: RWMutex
  ps_watchers :: "Event chan list"

definition ps_notify :: "Event \<Rightarrow> 'k PersistentStore \<Rightarrow> 'k PersistentStore" where
  "ps_notify ev st = st\<lparr>ps_watchers := map (try_send ev) (ps_watchers st)\<rparr>"

definition ps_Watch :: "'k PersistentStore \<Rightarrow> world \<Rightarrow> nat \<times> 'k PersistentStore \<times> world" where
  "ps_Watch st s = (let ch = make_chan (wd_chans s) 100
     in (ch_id ch, st\<lparr>ps_watchers := ps_watchers st @ [ch]\<rparr>, s\<lparr>wd_chans := Suc (wd_chans s)\<rparr>))"

section \<open>etcd\<close>

record 'k EtcdClient =
  ec_Get :: "string \<Rightarrow> 'k \<Rightarrow> (error, (string \<times> string) list) result"
  ec_GetPrefix :: "string \<Rightarrow> 'k \<Rightarrow> (error, (string \<times> string) list) result"
  ec_Put :: "string \<Rightarrow> string \<Rightarrow> 'k \<Rightarrow> error option \<times> 'k"
  ec_Delete :: "string \<Rightarrow> 'k \<Rightarrow> error option \<times> 'k"

record Codec =
  jc_Marshal :: "Workload \<Rightarrow> (error, string) result"
  jc_Unmarshal :: "string \<Rightarrow> (error, Workload) result"

definition NewEtcdStore :: "(string list \<Rightarrow> (error, 'k) result) \<Rightarrow> string list \<Rightarrow> (error, 'k PersistentStore) result" where
  \<comment> \<open>the argument is \<open>clientv3.New\<close>\<close>
  "NewEtcdStore connect endpoints = (case connect endpoints of
     Inl err \<Rightarrow> Err (Wrapf ''failed to connect to etcd: %w'' [] err)
   | Inr k \<Rightarrow> Ok \<lparr>ps_conn = k, ps_mu = Unlocked, ps_watchers = []\<rparr>)"

definition etcd_Close :: "('k \<Rightarrow> error option \<times> 'k) \<Rightarrow> 'k PersistentStore \<Rightarrow> error option \<times> 'k PersistentStore" where
  "etcd_Close close st = (case close (ps_conn st) of (err, k) \<Rightarrow> (err, st\<lparr>ps_conn := k\<rparr>))"

definition etcd_key :: "string \<Rightarrow> string" where
  "etcd_key i = ''/workloads/'' @ i"

definition etcd_Get ::
  "'k EtcdClient \<Rightarrow> Codec \<Rightarrow> string \<Rightarrow> 'k PersistentStore \<Rightarrow> world \<Rightarrow> ((error, addr) result \<times> 'k PersistentStore \<times> world) option" where
  "etcd_Get client js i st s = (case RLock (ps_mu st) of
     None \<Rightarrow> None
   | Some _ \<Rightarrow>
       (case ec_Get client (etcd_key i) (ps_conn st) of
          Inl err \<Rightarrow> Some (Err (Wrapf ''failed to get workload from etcd: %w'' [] err), st, s)
        | Inr [] \<Rightarrow> Some (Err ErrWorkloadNotFound, st, s)
        | Inr ((_, v) # _) \<Rightarrow>
            (case jc_Unmarshal js v of
               Inl err \<Rightarrow> Some (Err (Wrapf ''failed to unmarshal workload: %w'' [] err), st, s)
             | Inr w \<Rightarrow> let (a, s1) = alloc w s in Some (Ok a, st, s1))))"

fun decode_all :: "Codec \<Rightarrow> (string \<times> string) list \<Rightarrow> addr list \<Rightarrow> world \<Rightarrow> (error, addr list) result \<times> world" where
  "decode_all js [] ws s = (Ok ws, s)"
| "decode_all js ((_, v) # kvs) ws s = (case jc_Unmarshal js v of
     Inl err \<Rightarrow> (Err (Wrapf ''failed to unmarshal workload: %w'' [] err), s)
   | Inr w \<Rightarrow> let (a, s1) = alloc w s in decode_all js kvs (ws @ [a]) s1)"

definition etcd_List ::
  "'k EtcdClient \<Rightarrow> Codec \<Rightarrow> string \<Rightarrow> 'k PersistentStore \<Rightarrow> world \<Rightarrow> ((error, addr list) result \<times> 'k PersistentStore \<times> world) option" where
  "etcd_List client js namespace st s = (case RLock (ps_mu st) of
     None \<Rightarrow> None
   | Some _ \<Rightarrow>
       let pfx = (if namespace \<noteq> [] then ''/workloads/'' @ namespace @ ''/'' else ''/workloads/'')
       in (case ec_GetPrefix client pfx (ps_conn st) of
             Inl err \<Rightarrow> Some (Err (Wrapf ''failed to list workloads from etcd: %w'' [] err), st, s)
           | Inr kvs \<Rightarrow> let (r, s1) = decode_all js kvs [] s in Some (r, st, s1)))"

definition etcd_Create :: "'k EtcdClient \<Rightarrow> Codec \<Rightarrow> addr \<Rightarrow> 'k PersistentStore \<Rightarrow> world \<Rightarrow> (error option \<times> 'k PersistentStore) option" where
  "etcd_Create client js a st s = (case Lock (ps_mu st) of
     None \<Rightarrow> None
   | Some _ \<Rightarrow>
       (case jc_Marshal js (deref s a) of
          Inl err \<Rightarrow> Some (Some (Wrapf ''failed to marshal workload: %w'' [] err), st)
        | Inr data \<Rightarrow>
            (case ec_Put client (etcd_key (wl_ID (deref s a))) data (ps_conn st) of
               (Some err, k) \<Rightarrow> Some (Some (Wrapf ''failed to create workload in etcd: %w'' [] err), st\<lparr>ps_conn := k\<rparr>)
             | (None, k) \<Rightarrow> Some (None, ps_notify (workload_event WorkloadDeployRequested a) (st\<lparr>ps_conn := k\<rparr>)))))"

definition etcd_Update :: "'k EtcdClient \<Rightarrow> Codec \<Rightarrow> addr \<Rightarrow> 'k PersistentStore \<Rightarrow> world \<Rightarrow> (error option \<times> 'k PersistentStore) option" where
  "etcd_Update client js a st s = (case Lock (ps_mu st) of
     None \<Rightarrow> None
   | Some _ \<Rightarrow>
       (case jc_Marshal js (deref s a) of
          Inl err \<Rightarrow> Some (Some (Wrapf ''failed to marshal workload: %w'' [] err), st)
        | Inr data \<Rightarrow>
            (case ec_Get client (etcd_key (wl_ID (deref s a))) (ps_conn st) of
               Inl err \<Rightarrow> Some (Some (Wrapf ''failed to check workload existence: %w'' [] err), st)
             | Inr _ \<Rightarrow>
                 (case ec_Put client (etcd_key (wl_ID (deref s a))) data (ps_conn st) of
                    (Some err, k) \<Rightarrow> Some (Some (Wrapf ''failed to update workload in etcd: %w'' [] err), st\<lparr>ps_conn := k\<rparr>)
                  | (None, k) \<Rightarrow> Some (None, ps_notify (workload_event WorkloadUpdated a) (st\<lparr>ps_conn := k\<rparr>))))))"

definition etcd_Delete :: "'k EtcdClient \<Rightarrow> Codec \<Rightarrow> string \<Rightarrow> 'k PersistentStore \<Rightarrow> world \<Rightarrow> (error option \<times> 'k PersistentStore \<times> world) option" where
  "etcd_Delete client js i st s = (case Lock (ps_mu st) of
     None \<Rightarrow> None
   | Some mu \<Rightarrow>
       (case etcd_Get client js i (st\<lparr>ps_mu := mu\<rparr>) s of
          None \<Rightarrow> None
        | Some (Inl err, _, s1) \<Rightarrow> Some (Some err, st, s1)
        | Some (Inr a, _, s1) \<Rightarrow>
            (case ec_Delete client (etcd_key i) (ps_conn st) of
               (Some err, k) \<Rightarrow> Some (Some (Wrapf ''failed to delete workload from etcd: %w'' [] err), st\<lparr>ps_conn := k\<rparr>, s1)
             | (None, k) \<Rightarrow> Some (None, ps_notify (workload_event WorkloadDeleted a) (st\<lparr>ps_conn := k\<rparr>), s1))))"

fun relay :: "Codec \<Rightarrow> (bool \<times> string) list \<Rightarrow> Event chan \<Rightarrow> world \<Rightarrow> Event chan \<times> world" where
  \<comment> \<open>the events of one watch response, in the loop of \<open>watchEtcd\<close>: whether each is a deletion, and its value\<close>
  "relay js [] ch s = (ch, s)"
| "relay js ((deleted, v) # evs) ch s = (case jc_Unmarshal js v of
     Inl _ \<Rightarrow> relay js evs ch s
   | Inr w \<Rightarrow>
       let (a, s1) = alloc w s
       in relay js evs (try_send (workload_event (if deleted then WorkloadDeleted else WorkloadUpdated) a) ch) s1)"

fun relay_all :: "Codec \<Rightarrow> (bool \<times> string) list \<Rightarrow> Event chan list \<Rightarrow> world \<Rightarrow> Event chan list \<times> world" where
  \<comment> \<open>every watcher has its own stream\<close>
  "relay_all js evs [] s = ([], s)"
| "relay_all js evs (ch # chs) s =
     (let (ch1, s1) = relay js evs ch s; (chs1, s2) = relay_all js evs chs s1 in (ch1 # chs1, s2))"

section \<open>PostgreSQL\<close>

record PgRow =
  pg_id :: string
  pg_name :: string
  pg_namespace :: string
  pg_labels :: string
  pg_spec :: string
  pg_status :: string
  pg_history :: string
  pg_tenant :: string
  pg_rollback_versions :: string
  pg_tags :: string
  pg_created_at :: gotime
  pg_updated_at :: gotime

datatype sqlarg = ArgText string | ArgBytes string | ArgTime gotime | ArgSpec WorkloadSpec | ArgStatus WorkloadStatus

datatype tablestmt = CreateWorkloads | CreateNamespaceIndex | CreateLabelsIndex | AddRollbackVersions | AddTags

fun exec_all :: "(tablestmt \<Rightarrow> 'k \<Rightarrow> error option \<times> 'k) \<Rightarrow> tablestmt list \<Rightarrow> 'k \<Rightarrow> error option \<times> 'k" where
  "exec_all exec [] k = (None, k)"
| "exec_all exec (query # queries) k = (case exec query k of
     (Some err, k1) \<Rightarrow> (Some (Wrapf ''failed to execute query: %w'' [] err), k1)
   | (None, k1) \<Rightarrow> exec_all exec queries k1)"

definition createTables :: "(tablestmt \<Rightarrow> 'k \<Rightarrow> error option \<times> 'k) \<Rightarrow> 'k \<Rightarrow> error option \<times> 'k" where
  "createTables exec k = exec_all exec [CreateWorkloads, CreateNamespaceIndex, CreateLabelsIndex, AddRollbackVersions, AddTags] k"

definition NewPostgresStore ::
  "(string \<Rightarrow> (error, 'k) result) \<Rightarrow> ('k \<Rightarrow> error option) \<Rightarrow> (tablestmt \<Rightarrow> 'k \<Rightarrow> error option \<times> 'k) \<Rightarrow> string \<Rightarrow>
   (error, 'k PersistentStore) result" where
  \<comment> \<open>the arguments are \<open>sql.Open\<close>, \<open>Ping\<close> and \<open>Exec\<close>\<close>
  "NewPostgresStore openDB ping exec dsn = (case openDB dsn of
     Inl err \<Rightarrow> Err (Wrapf ''failed to connect to postgres: %w'' [] err)
   | Inr k \<Rightarrow>
       (case ping k of
          Some err \<Rightarrow> Err (Wrapf ''failed to ping postgres: %w'' [] err)
        | None \<Rightarrow>
            (case createTables exec k of
               (Some err, _) \<Rightarrow> Err (Wrapf ''failed to create tables: %w'' [] err)
             | (None, k1) \<Rightarrow> Ok \<lparr>ps_conn = k1, ps_mu = Unlocked, ps_watchers = []\<rparr>)))"

definition pg_notify :: "Event \<Rightarrow> 'k PersistentStore \<Rightarrow> 'k PersistentStore" where
  "pg_notify ev st = st\<lparr>ps_watchers := map (try_send ev) (ps_watchers st)\<rparr>"

definition pg_Watch :: "'k PersistentStore \<Rightarrow> world \<Rightarrow> nat \<times> 'k PersistentStore \<times> world" where
  "pg_Watch st s = (let ch = make_chan (wd_chans s) 100
     in (ch_id ch, st\<lparr>ps_watchers := ps_watchers st @ [ch]\<rparr>, s\<lparr>wd_chans := Suc (wd_chans s)\<rparr>))"

definition pg_Close :: "('k \<Rightarrow> error option \<times> 'k) \<Rightarrow> 'k PersistentStore \<Rightarrow> error option \<times> 'k PersistentStore" where
  "pg_Close close st = (case close (ps_conn st) of (err, k) \<Rightarrow> (err, st\<lparr>ps_conn := k\<rparr>))"

datatype sqlstmt = SelectByID | SelectByNamespace | SelectAll | InsertWorkload | UpdateWorkload | DeleteByID

record 'k SqlDB =
  sq_Query :: "sqlstmt \<Rightarrow> sqlarg list \<Rightarrow> 'k \<Rightarrow> (error, PgRow list) result"
  sq_Exec :: "sqlstmt \<Rightarrow> sqlarg list \<Rightarrow> 'k \<Rightarrow> (error, int) result \<times> 'k"
  sq_ScanSpec :: "string \<Rightarrow> (error, WorkloadSpec) result"
  sq_ScanStatus :: "string \<Rightarrow> (error, WorkloadStatus) result"

record PgCodec =
  pj_Labels :: "strmap \<Rightarrow> (error, string) result"
  pj_History :: "WorkloadStateTransition list \<Rightarrow> (error, string) result"
  pj_Tenant :: "TenantInfo option \<Rightarrow> (error, string) result"
  pj_Rollback :: "WorkloadRevision list \<Rightarrow> (error, string) result"
  pj_Tags :: "WorkloadTags option \<Rightarrow> (error, string) result"
  pu_Labels :: "string \<Rightarrow> (error, strmap) result"
  pu_History :: "string \<Rightarrow> (error, WorkloadStateTransition list) result"
  pu_Tenant :: "string \<Rightarrow> (error, TenantInfo option) result"
  pu_Rollback :: "string \<Rightarrow> (error, WorkloadRevision list) result"
  pu_Tags :: "string \<Rightarrow> (error, WorkloadTags option) result"

definition bind_result :: "('e, 'a) result \<Rightarrow> ('a \<Rightarrow> ('e, 'b) result) \<Rightarrow> ('e, 'b) result" where
  "bind_result r f = (case r of Inl e \<Rightarrow> Inl e | Inr x \<Rightarrow> f x)"

definition column :: "string \<Rightarrow> (string \<Rightarrow> (error, 'a) result) \<Rightarrow> 'a \<Rightarrow> string \<Rightarrow> (error, 'a) result" where
  \<comment> \<open>\<open>if len(bytes) > 0 { if err := json.Unmarshal(bytes, &x); err != nil { \<dots> } }\<close>\<close>
  "column name dec dflt bytes =
     (if bytes = [] then Ok dflt
      else case dec bytes of Inl err \<Rightarrow> Err (Wrapf (''failed to unmarshal '' @ name @ '': %w'') [] err) | Inr x \<Rightarrow> Ok x)"

definition pg_scan :: "'k SqlDB \<Rightarrow> PgRow \<Rightarrow> (error, Workload) result" where
  \<comment> \<open>\<open>Scan\<close> of the twelve columns\<close>
  "pg_scan db row = bind_result (sq_ScanSpec db (pg_spec row)) (\<lambda>spec. bind_result (sq_ScanStatus db (pg_status row)) (\<lambda>status.
     Ok (zero_workload\<lparr>wl_ID := pg_id row, wl_Name := pg_name row, wl_Namespace := pg_namespace row, wl_Spec := spec, wl_Status := status,
           wl_CreatedAt := pg_created_at row, wl_UpdatedAt := pg_updated_at row\<rparr>)))"

definition pg_columns :: "PgCodec \<Rightarrow> PgRow \<Rightarrow> Workload \<Rightarrow> (error, Workload) result" where
  "pg_columns js row w =
     bind_result (column ''labels'' (pu_Labels js) None (pg_labels row)) (\<lambda>labels.
     bind_result (column ''history'' (pu_History js) [] (pg_history row)) (\<lambda>history.
     bind_result (column ''tenant'' (pu_Tenant js) None (pg_tenant row)) (\<lambda>tenant.
     bind_result (column ''rollback_versions'' (pu_Rollback js) [] (pg_rollback_versions row)) (\<lambda>versions.
     bind_result (column ''tags'' (pu_Tags js) None (pg_tags row)) (\<lambda>tags.
       Ok (w\<lparr>wl_Labels := labels, wl_History := history, wl_Tenant := tenant, wl_RollbackVersions := versions, wl_Tags := tags\<rparr>))))))"

definition pg_Get :: "'k SqlDB \<Rightarrow> PgCodec \<Rightarrow> string \<Rightarrow> 'k PersistentStore \<Rightarrow> world \<Rightarrow> ((error, addr) result \<times> world) option" where
  "pg_Get db js i st s = (case RLock (ps_mu st) of
     None \<Rightarrow> None
   | Some _ \<Rightarrow>
       (case sq_Query db SelectByID [ArgText i] (ps_conn st) of
          Inl err \<Rightarrow> Some (Err (Wrapf ''failed to query workload: %w'' [] err), s)
        | Inr [] \<Rightarrow> Some (Err ErrWorkloadNotFound, s)
        | Inr (row # _) \<Rightarrow>
            (case pg_scan db row of
               Inl err \<Rightarrow> Some (Err (Wrapf ''failed to query workload: %w'' [] err), s)
             | Inr w0 \<Rightarrow>
                 (case pg_columns js row w0 of
                    Inl err \<Rightarrow> Some (Err err, s)
                  | Inr w \<Rightarrow> let (a, s1) = alloc w s in Some (Ok a, s1)))))"

fun pg_rows :: "'k SqlDB \<Rightarrow> PgCodec \<Rightarrow> PgRow list \<Rightarrow> addr list \<Rightarrow> world \<Rightarrow> (error, addr list) result \<times> world" where
  "pg_rows db js [] ws s = (Ok ws, s)"
| "pg_rows db js (row # rows) ws s = (case pg_scan db row of
     Inl err \<Rightarrow> (Err (Wrapf ''failed to scan workload: %w'' [] err), s)
   | Inr w0 \<Rightarrow>
       (case pg_columns js row w0 of
          Inl err \<Rightarrow> (Err err, s)
        | Inr w \<Rightarrow> let (a, s1) = alloc w s in pg_rows db js rows (ws @ [a]) s1))"

definition pg_List :: "'k SqlDB \<Rightarrow> PgCodec \<Rightarrow> string \<Rightarrow> 'k PersistentStore \<Rightarrow> world \<Rightarrow> ((error, addr list) result \<times> world) option" where
  "pg_List db js namespace st s = (case RLock (ps_mu st) of
     None \<Rightarrow> None
   | Some _ \<Rightarrow>
       (case (if namespace \<noteq> [] then sq_Query db SelectByNamespace [ArgText namespace] (ps_conn st) else sq_Query db SelectAll [] (ps_conn st)) of
          Inl err \<Rightarrow> Some (Err (Wrapf ''failed to query workloads: %w'' [] err), s)
        | Inr rows \<Rightarrow> Some (pg_rows db js rows [] s)))"

definition marshalled :: "string \<Rightarrow> (error, string) result \<Rightarrow> (error, string) result" where
  "marshalled name r = (case r of Inl err \<Rightarrow> Err (Wrapf (''failed to marshal '' @ name @ '': %w'') [] err) | Inr b \<Rightarrow> Ok b)"

definition pg_args :: "PgCodec \<Rightarrow> bool \<Rightarrow> Workload \<Rightarrow> (error, sqlarg list) result" where
  \<comment> \<open>the arguments of the insert (with \<open>created_at\<close>) and the update statement\<close>
  "pg_args js inserting w =
     bind_result (marshalled ''labels'' (pj_Labels js (wl_Labels w))) (\<lambda>labelsJSON.
     bind_result (marshalled ''history'' (pj_History js (wl_History w))) (\<lambda>historyJSON.
     bind_result (marshalled ''tenant'' (pj_Tenant js (wl_Tenant w))) (\<lambda>tenantJSON.
     bind_result (marshalled ''rollback_versions'' (pj_Rollback js (wl_RollbackVersions w))) (\<lambda>rollbackJSON.
     bind_result (marshalled ''tags'' (pj_Tags js (wl_Tags w))) (\<lambda>tagsJSON.
       Ok ([ArgText (wl_ID w), ArgText (wl_Name w), ArgText (wl_Namespace w), ArgBytes labelsJSON, ArgSpec (wl_Spec w),
            ArgStatus (wl_Status w), ArgBytes historyJSON, ArgBytes tenantJSON, ArgBytes rollbackJSON, ArgBytes tagsJSON] @
           (if inserting then [ArgTime (wl_CreatedAt w)] else []) @ [ArgTime (wl_UpdatedAt w)]))))))"

definition pg_Create :: "'k SqlDB \<Rightarrow> PgCodec \<Rightarrow> addr \<Rightarrow> 'k PersistentStore \<Rightarrow> world \<Rightarrow> (error option \<times> 'k PersistentStore) option" where
  "pg_Create db js a st s = (case Lock (ps_mu st) of
     None \<Rightarrow> None
   | Some _ \<Rightarrow>
       (case pg_args js True (deref s a) of
          Inl err \<Rightarrow> Some (Some err, st)
        | Inr args \<Rightarrow>
            (case sq_Exec db InsertWorkload args (ps_conn st) of
               (Inl err, k) \<Rightarrow> Some (Some (Wrapf ''failed to create workload: %w'' [] err), st\<lparr>ps_conn := k\<rparr>)
             | (Inr _, k) \<Rightarrow> Some (None, pg_notify (workload_event WorkloadDeployRequested a) (st\<lparr>ps_conn := k\<rparr>)))))"

definition pg_Update :: "'k SqlDB \<Rightarrow> PgCodec \<Rightarrow> addr \<Rightarrow> 'k PersistentStore \<Rightarrow> world \<Rightarrow> (error option \<times> 'k PersistentStore) option" where
  "pg_Update db js a st s = (case Lock (ps_mu st) of
     None \<Rightarrow> None
   | Some _ \<Rightarrow>
       (case pg_args js False (deref s a) of
          Inl err \<Rightarrow> Some (Some err, st)
        | Inr args \<Rightarrow>
            (case sq_Exec db UpdateWorkload args (ps_conn st) of
               (Inl err, k) \<Rightarrow> Some (Some (Wrapf ''failed to update workload: %w'' [] err), st\<lparr>ps_conn := k\<rparr>)
             | (Inr n, k) \<Rightarrow>
                 if n = 0 then Some (Some ErrWorkloadNotFound, st\<lparr>ps_conn := k\<rparr>)
                 else Some (None, pg_notify (workload_event WorkloadUpdated a) (st\<lparr>ps_conn := k\<rparr>)))))"

definition pg_Delete :: "'k SqlDB \<Rightarrow> PgCodec \<Rightarrow> string \<Rightarrow> 'k PersistentStore \<Rightarrow> world \<Rightarrow> (error option \<times> 'k PersistentStore \<times> world) option" where
  "pg_Delete db js i st s = (case Lock (ps_mu st) of
     None \<Rightarrow> None
   | Some mu \<Rightarrow>
       (case pg_Get db js i (st\<lparr>ps_mu := mu\<rparr>) s of
          None \<Rightarrow> None
        | Some (Inl err, s1) \<Rightarrow> Some (Some err, st, s1)
        | Some (Inr a, s1) \<Rightarrow>
            (case sq_Exec db DeleteByID [ArgText i] (ps_conn st) of
               (Inl err, k) \<Rightarrow> Some (Some (Wrapf ''failed to delete workload: %w'' [] err), st\<lparr>ps_conn := k\<rparr>, s1)
             | (Inr n, k) \<Rightarrow>
                 if n = 0 then Some (Some ErrWorkloadNotFound, st\<lparr>ps_conn := k\<rparr>, s1)
                 else Some (None, pg_notify (workload_event WorkloadDeleted a) (st\<lparr>ps_conn := k\<rparr>), s1))))"

section \<open>What holds\<close>

definition etcd_laws :: "'k EtcdClient \<Rightarrow> ('k \<Rightarrow> string \<Rightarrow> string option) \<Rightarrow> bool" where
  \<comment> \<open>a healthy client is a map from keys to values, and a prefix query gives the matching entries\<close>
  "etcd_laws client kv =
     ((\<forall>key k. ec_Get client key k = Ok (case kv k key of None \<Rightarrow> [] | Some v \<Rightarrow> [(key, v)])) \<and>
      (\<forall>pfx k. \<exists>kvs. ec_GetPrefix client pfx k = Ok kvs \<and> set kvs = {(key, v). kv k key = Some v \<and> prefix pfx key}) \<and>
      (\<forall>key v k. fst (ec_Put client key v k) = None \<and> kv (snd (ec_Put client key v k)) = (kv k)(key \<mapsto> v)))"

definition json_roundtrip :: "Codec \<Rightarrow> Workload \<Rightarrow> bool" where
  "json_roundtrip js w = (\<exists>b. jc_Marshal js w = Ok b \<and> jc_Unmarshal js b = Ok w)"

lemma etcd_put:
  assumes "etcd_laws client kv"
  obtains k where "ec_Put client key v k0 = (None, k)" "kv k = (kv k0)(key \<mapsto> v)"
  using assms unfolding etcd_laws_def by (metis prod.collapse)

lemma etcd_write:
  assumes "etcd_laws client kv" "json_roundtrip js (deref s a)" "ps_mu st = Unlocked" "write \<in> {etcd_Create, etcd_Update}"
  obtains b st' where "write client js a st s = Some (None, st')" "ps_mu st' = Unlocked"
    "jc_Unmarshal js b = Ok (deref s a)" "kv (ps_conn st') = (kv (ps_conn st))(etcd_key (wl_ID (deref s a)) \<mapsto> b)"
proof -
  obtain b where b: "jc_Marshal js (deref s a) = Ok b" "jc_Unmarshal js b = Ok (deref s a)"
    using assms(2) by (auto simp: json_roundtrip_def)
  obtain k where k: "ec_Put client (etcd_key (wl_ID (deref s a))) b (ps_conn st) = (None, k)"
    "kv k = (kv (ps_conn st))(etcd_key (wl_ID (deref s a)) \<mapsto> b)"
    by (rule etcd_put [OF assms(1)])
  have g: "\<exists>x. ec_Get client (etcd_key (wl_ID (deref s a))) (ps_conn st) = Ok x" using assms(1) by (simp add: etcd_laws_def)
  show thesis
    using assms(3,4) b k g
    by (intro that [of "snd (the (write client js a st s))" b]) (auto simp: etcd_Create_def etcd_Update_def Lock_def ps_notify_def)
qed

text \<open>
  C38. What is written to etcd is read back: with a healthy client and a workload that JSON
  preserves, both \<open>Create\<close> and \<open>Update\<close> succeed whether or not the id is already stored, leave
  every other key as it was, and a following \<open>Get\<close> returns a fresh object equal to the workload.
  So \<open>Create\<close> overwrites an existing workload and \<open>Update\<close> creates a missing one.
\<close>

theorem etcd_write_is_read_back:
  assumes "etcd_laws client kv" "json_roundtrip js (deref s a)" "ps_mu st = Unlocked" "write \<in> {etcd_Create, etcd_Update}"
  shows "\<exists>st' b s'. write client js a st s = Some (None, st') \<and>
    (\<forall>key. key \<noteq> etcd_key (wl_ID (deref s a)) \<longrightarrow> kv (ps_conn st') key = kv (ps_conn st) key) \<and>
    etcd_Get client js (wl_ID (deref s a)) st' s = Some (Ok b, st', s') \<and> deref s' b = deref s a \<and> b = wd_fresh s"
proof -
  obtain v st' where w: "write client js a st s = Some (None, st')" "ps_mu st' = Unlocked" "jc_Unmarshal js v = Ok (deref s a)"
    "kv (ps_conn st') = (kv (ps_conn st))(etcd_key (wl_ID (deref s a)) \<mapsto> v)"
    using etcd_write [OF assms] by metis
  have "ec_Get client (etcd_key (wl_ID (deref s a))) (ps_conn st') = Ok [(etcd_key (wl_ID (deref s a)), v)]"
    using assms(1) w(4) by (simp add: etcd_laws_def)
  then have "etcd_Get client js (wl_ID (deref s a)) st' s = Some (Ok (wd_fresh s), st', snd (alloc (deref s a) s))"
    using w(2,3) by (simp add: etcd_Get_def RLock_def split_beta)
  then show ?thesis using w(1,4) by (intro exI [of _ st'] exI [of _ "wd_fresh s"] exI [of _ "snd (alloc (deref s a) s)"]) simp
qed

text \<open>
  C39. Deleting from a persistent store never returns: \<open>Delete\<close> of the etcd store and of the
  PostgreSQL store takes the write lock and then calls \<open>Get\<close>, which waits for the read lock of
  the same mutex, whatever the id, the backend and the state. No row or key is ever removed.
\<close>

theorem persistent_delete_never_returns:
  "etcd_Delete client js i st s = None \<and> pg_Delete db pjs i st' s = None"
  by (simp add: etcd_Delete_def pg_Delete_def etcd_Get_def pg_Get_def Lock_def RLock_def split: RWMutex.split)

text \<open>
  A watcher of the etcd store hears of every write twice and of no deletion: \<open>Create\<close> and \<open>Update\<close>
  notify it themselves, with the object of the caller, and the watch stream of etcd relays the
  same change again as an update, with a copy. A deletion arrives on the stream without a value,
  which is not valid JSON, and is skipped; \<open>Delete\<close> never gets to its own notification.
\<close>

theorem etcd_watcher_hears_twice:
  assumes "etcd_laws client kv" "json_roundtrip js (deref s a)" "ps_mu st = Unlocked" "ps_watchers st = [ch]"
    and "length (ch_buf ch) + 2 \<le> ch_cap ch" "(write, kind) \<in> {(etcd_Create, WorkloadDeployRequested), (etcd_Update, WorkloadUpdated)}"
    and "jc_Unmarshal js [] = Err err"
  shows "\<exists>st' v ch' s'. write client js a st s = Some (None, st') \<and> kv (ps_conn st') (etcd_key (wl_ID (deref s a))) = Some v \<and>
    relay_all js [(False, v), (True, [])] (ps_watchers st') s = ([ch'], s') \<and>
    ch_buf ch' = ch_buf ch @ [workload_event kind a, workload_event WorkloadUpdated (wd_fresh s)] \<and> deref s' (wd_fresh s) = deref s a"
proof -
  have "write \<in> {etcd_Create, etcd_Update}" using assms(6) by auto
  from etcd_write [OF assms(1-3) this] obtain v st' where w: "write client js a st s = Some (None, st')"
    "jc_Unmarshal js v = Ok (deref s a)" "kv (ps_conn st') = (kv (ps_conn st))(etcd_key (wl_ID (deref s a)) \<mapsto> v)" by metis
  have "ps_watchers st' = [try_send (workload_event kind a) ch]"
    using w(1) assms(3,4,6) by (auto simp: etcd_Create_def etcd_Update_def Lock_def ps_notify_def split: sum.splits prod.splits option.splits)
  then show ?thesis
    using w assms(5,7)
    by (intro exI [of _ st'] exI [of _ v] exI [of _ "fst (relay js [(False, v), (True, [])] (try_send (workload_event kind a) ch) s)"]
        exI [of _ "snd (relay js [(False, v), (True, [])] (try_send (workload_event kind a) ch) s)"])
      (simp add: split_beta Let_def try_send_buf has_room_def)
qed

lemma exec_all_in_order:
  "exec_all exec (before @ query # rest) k =
     (case exec_all exec before k of
        (Some err, k1) \<Rightarrow> (Some err, k1)
      | (None, k1) \<Rightarrow> (case exec query k1 of
          (Some err, k2) \<Rightarrow> (Some (Wrapf ''failed to execute query: %w'' [] err), k2)
        | (None, k2) \<Rightarrow> exec_all exec rest k2))"
  by (induction before arbitrary: k) (auto split: prod.split option.split)

lemma NewPostgresStore_Ok:
  "NewPostgresStore openDB ping exec dsn = Ok st \<longleftrightarrow>
     (\<exists>k k'. openDB dsn = Ok k \<and> ping k = None \<and> createTables exec k = (None, k') \<and> st = \<lparr>ps_conn = k', ps_mu = Unlocked, ps_watchers = []\<rparr>)"
  by (auto simp: NewPostgresStore_def split: sum.splits option.splits prod.splits)

text \<open>
  Listing a namespace from etcd looks at ids: the workloads listed for a non-empty namespace
  are those stored under an id that starts with the namespace and a slash. When no stored id
  contains a slash, the list is empty, whatever namespaces the workloads have.
\<close>

theorem etcd_namespace_list_is_empty:
  assumes "etcd_laws client kv" "ps_mu st = Unlocked" "ns \<noteq> []"
    and "\<And>key v. kv (ps_conn st) key = Some v \<Longrightarrow> \<exists>i. key = etcd_key i \<and> CHR ''/'' \<notin> set i"
  shows "etcd_List client js ns st s = Some (Ok [], st, s)"
proof -
  obtain kvs where kvs: "ec_GetPrefix client (''/workloads/'' @ ns @ ''/'') (ps_conn st) = Ok kvs"
    "set kvs = {(key, v). kv (ps_conn st) key = Some v \<and> prefix (''/workloads/'' @ ns @ ''/'') key}"
    using assms(1) unfolding etcd_laws_def by blast
  have "\<not> prefix (''/workloads/'' @ ns @ ''/'') key" if k: "kv (ps_conn st) key = Some v" for key v
  proof
    assume p: "prefix (''/workloads/'' @ ns @ ''/'') key"
    obtain i where i: "key = ''/workloads/'' @ i" "CHR ''/'' \<notin> set i" using assms(4) [OF k] by (auto simp: etcd_key_def)
    then have "prefix (ns @ ''/'') i" using p by simp
    then show False using i(2) by (auto simp: prefix_def)
  qed
  then have "set kvs = {}" using kvs(2) by auto
  then have "kvs = []" by simp
  then show ?thesis using assms(2,3) kvs(1) by (simp add: etcd_List_def RLock_def Let_def)
qed

text \<open>
  \<open>database/sql\<close> accepts a struct neither as an argument nor as a scan destination unless its type
  implements \<open>driver.Valuer\<close> or \<open>sql.Scanner\<close>, and \<open>types.WorkloadSpec\<close> implements neither. Under
  that law no workload can be written to or read from PostgreSQL.
\<close>

lemma postgres_cannot_store:
  assumes "\<And>stmt args k. list_ex (\<lambda>x. \<exists>v. x = ArgSpec v) args \<Longrightarrow> \<exists>err. sq_Exec db stmt args k = (Inl err, k)"
    and "\<And>b. \<exists>err. sq_ScanSpec db b = Inl err" "ps_mu st = Unlocked"
  shows "\<exists>err. pg_Create db js a st s = Some (Some err, st)" "\<exists>err. pg_Update db js a st s = Some (Some err, st)"
    "\<exists>err. pg_Get db js i st s = Some (Inl err, s)"
proof -
  have args: "list_ex (\<lambda>x. \<exists>v. x = ArgSpec v) args" if "pg_args js ins w = Inr args" for ins w args
    using that by (auto simp: pg_args_def bind_result_def split: sum.splits)
  have ex: "\<exists>err. sq_Exec db stmt args k = (Inl err, k)" if "pg_args js ins w = Inr args" for stmt ins w args k
    using assms(1) args [OF that] by blast
  have same: "st\<lparr>ps_conn := ps_conn st\<rparr> = st" by simp
  show "\<exists>err. pg_Create db js a st s = Some (Some err, st)"
  proof (cases "pg_args js True (deref s a)")
    case (Inr xs)
    obtain err where "sq_Exec db InsertWorkload xs (ps_conn st) = (Inl err, ps_conn st)" using ex [OF Inr] by blast
    then show ?thesis by (simp add: pg_Create_def Lock_def assms(3) Inr)
  qed (simp add: pg_Create_def Lock_def assms(3))
  show "\<exists>err. pg_Update db js a st s = Some (Some err, st)"
  proof (cases "pg_args js False (deref s a)")
    case (Inr xs)
    obtain err where "sq_Exec db UpdateWorkload xs (ps_conn st) = (Inl err, ps_conn st)" using ex [OF Inr] by blast
    then show ?thesis by (simp add: pg_Update_def Lock_def assms(3) Inr)
  qed (simp add: pg_Update_def Lock_def assms(3))
  have scan: "\<exists>err. pg_scan db row = Inl err" for row using assms(2) [of "pg_spec row"] by (auto simp: pg_scan_def bind_result_def)
  show "\<exists>err. pg_Get db js i st s = Some (Inl err, s)"
  proof (cases "sq_Query db SelectByID [ArgText i] (ps_conn st)")
    case (Inr rows)
    then show ?thesis using scan [of "hd rows"] by (cases rows) (auto simp: pg_Get_def RLock_def assms(3))
  qed (simp add: pg_Get_def RLock_def assms(3))
qed

section \<open>Witnesses\<close>

definition map_client :: "((string, string) gomap) EtcdClient" where
  "map_client = \<lparr>ec_Get = (\<lambda>key k. Ok (case map_of k key of None \<Rightarrow> [] | Some v \<Rightarrow> [(key, v)])),
     ec_GetPrefix = (\<lambda>pfx k. Ok (filter (\<lambda>(key, v). map_of k key = Some v \<and> prefix pfx key) k)),
     ec_Put = (\<lambda>key v k. (None, AList.update key v k)), ec_Delete = (\<lambda>key k. (None, AList.delete key k))\<rparr>"

lemma map_client_laws: "etcd_laws map_client map_of"
  by (auto simp: etcd_laws_def map_client_def update_conv' dest: map_of_SomeD)

definition id_codec :: Codec where
  \<comment> \<open>a codec for workloads that only have an id\<close>
  "id_codec = \<lparr>jc_Marshal = (\<lambda>w. Ok (wl_ID w)), jc_Unmarshal = (\<lambda>b. Ok (zero_workload\<lparr>wl_ID := b\<rparr>))\<rparr>"

definition demo_persistent :: "((string, string) gomap) PersistentStore" where
  "demo_persistent = \<lparr>ps_conn = [(''/workloads/a'', ''a'')], ps_mu = Unlocked, ps_watchers = []\<rparr>"

theorem etcd_write_is_read_back_witness:
  "\<exists>st' b s'. etcd_Create map_client id_codec 0 demo_persistent (demo_world (\<lambda>_. zero_workload\<lparr>wl_ID := ''a''\<rparr>) []) = Some (None, st') \<and>
     etcd_Get map_client id_codec ''a'' st' (demo_world (\<lambda>_. zero_workload\<lparr>wl_ID := ''a''\<rparr>) []) = Some (Ok b, st', s') \<and> wl_ID (deref s' b) = ''a''"
  using etcd_write_is_read_back [OF map_client_laws, of id_codec "demo_world (\<lambda>_. zero_workload\<lparr>wl_ID := ''a''\<rparr>) []" 0 demo_persistent etcd_Create]
  by (auto simp: json_roundtrip_def id_codec_def demo_persistent_def)

theorem etcd_namespace_list_is_empty_witness:
  "etcd_List map_client id_codec ''prod'' demo_persistent (demo_world (\<lambda>_. zero_workload) []) =
     Some (Ok [], demo_persistent, demo_world (\<lambda>_. zero_workload) [])"
  by (rule etcd_namespace_list_is_empty [OF map_client_laws]) (auto simp: demo_persistent_def etcd_key_def split: if_splits)

definition strict_codec :: Codec where
  "strict_codec = id_codec\<lparr>jc_Unmarshal := (\<lambda>b. if b = [] then Err (Errorf ''unexpected end of JSON input'' []) else Ok (zero_workload\<lparr>wl_ID := b\<rparr>))\<rparr>"

definition watched_store :: "((string, string) gomap) PersistentStore" where
  "watched_store = demo_persistent\<lparr>ps_watchers := [make_chan 0 100]\<rparr>"

theorem etcd_watcher_hears_twice_witness:
  "\<exists>st' v ch' s'. etcd_Create map_client strict_codec 0 watched_store (demo_world (\<lambda>_. zero_workload\<lparr>wl_ID := ''a''\<rparr>) []) = Some (None, st') \<and>
     relay_all strict_codec [(False, v), (True, [])] (ps_watchers st') (demo_world (\<lambda>_. zero_workload\<lparr>wl_ID := ''a''\<rparr>) []) = ([ch'], s') \<and>
     map ev_Type (ch_buf ch') = [WorkloadDeployRequested, WorkloadUpdated]"
proof -
  let ?s = "demo_world (\<lambda>_. zero_workload\<lparr>wl_ID := ''a''\<rparr>) []"
  have "json_roundtrip strict_codec (deref ?s 0)" "ps_mu watched_store = Unlocked" "ps_watchers watched_store = [make_chan 0 100]"
    "jc_Unmarshal strict_codec [] = Err (Errorf ''unexpected end of JSON input'' [])"
    "length (ch_buf (make_chan 0 100 :: Event chan)) + 2 \<le> ch_cap (make_chan 0 100 :: Event chan)"
    by (auto simp: json_roundtrip_def strict_codec_def id_codec_def watched_store_def demo_persistent_def make_chan_def)
  from etcd_watcher_hears_twice [OF map_client_laws this(1-3,5), of etcd_Create WorkloadDeployRequested] this(4)
  obtain st' v ch' s' where "etcd_Create map_client strict_codec 0 watched_store ?s = Some (None, st')"
    "relay_all strict_codec [(False, v), (True, [])] (ps_watchers st') ?s = ([ch'], s')"
    "ch_buf ch' = ch_buf (make_chan 0 100) @ [workload_event WorkloadDeployRequested 0, workload_event WorkloadUpdated (wd_fresh ?s)]"
    by auto
  then show ?thesis by (intro exI conjI) (auto simp: make_chan_def workload_event_def)
qed

end
