(* ===== verification/Passes.thy ===== *)
theory Passes
  imports Evolution Reconciler Autoscaler Drift
begin

text \<open>
  The background passes respect \<open>evolves\<close>: a reconciler pass with all its collaborators (policy,
  quota, circuit breaker, warm standby, secret rotation, cron, rollout strategies, health
  gates), an autoscaler pass and a drift check keep the workload store well formed and the
  event log in order, and without a runtime driver they make no driver call.
\<close>

lemma evolves_mono: "evolves stored valid nd s s' \<Longrightarrow> (nd' \<Longrightarrow> nd) \<Longrightarrow> evolves stored valid nd' s s'"
  by (auto simp: evolves_def)

section \<open>Identity is never changed\<close>

lemma collaborators_ID [simp]:
  "wl_ID (fst (SyncFromWorkload c w now)) = wl_ID w" "wl_ID (RecordRouteAttempt w) = wl_ID w"
  "wl_ID (rescheduled w sc) = wl_ID w" "wl_ID (cool_down p now w) = wl_ID w" "wl_ID (heat_up p now w) = wl_ID w"
  "wl_ID (restart_completed w) = wl_ID w" "wl_ID (set_image img w) = wl_ID w"
  "wl_ID (set_standby_status f w) = wl_ID w"
  by (simp_all add: set_standby_status_def SyncFromWorkload_def RecordRouteAttempt_def rescheduled_def cool_down_def heat_up_def restart_completed_def
      set_image_def Let_def split: option.split)

lemma AllowRoute_ID: "wl_ID (case fst (AllowRoute c (Some w) now) of None \<Rightarrow> w | Some w' \<Rightarrow> w') = wl_ID w"
  using AllowRoute_core [of c w now] by (auto simp: workload_core_def)

lemma ShouldAutoPromote_ID: "wl_ID (fst (ShouldAutoPromote m w now)) = wl_ID w"
  by (simp add: ShouldAutoPromote_def Let_def split: option.split)

section \<open>Rollouts\<close>

definition rollout_quiet :: "RolloutManager option \<Rightarrow> bool" where
  "rollout_quiet mo = (case mo of None \<Rightarrow> True | Some m \<Rightarrow> driverless (rm_scheduler m))"

definition pass_quiet :: "'q Reconciler \<Rightarrow> bool" where
  \<comment> \<open>neither scheduler has a driver\<close>
  "pass_quiet e = (driverless (rec_scheduler e) \<and> rollout_quiet (rec_rollout e))"

context audited_store
begin

lemma ev_and_then: "ev nd s (snd r) \<Longrightarrow> (\<And>s'. ev nd s' (snd (f s'))) \<Longrightarrow> ev nd s (snd (and_then r f))"
  by (cases r; cases "fst r") (auto simp: and_then_def intro: evolves_trans)

lemma ev_publishEvent: "ev nd s (publishEvent a t meta s)"
proof -
  have "ev nd s (snd (time_Now s))" by simp
  then show ?thesis by (simp add: publishEvent_def split_beta Let_def evolves_trans [OF _ ev_steps(2)])
qed

lemma ev_completed: "ev nd s (snd (completed a strategy s))"
  by (simp add: completed_def ev_publishEvent)

lemma ev_rollout_step: "ev (driverless (rm_scheduler m)) s (snd (rollout_step m a c strategy s))"
  using ev_Schedule [of "rm_scheduler m" s c] evolves_trans [OF ev_Schedule [of "rm_scheduler m" s c] ev_publishEvent]
  by (simp add: rollout_step_def split_beta split: option.split)

lemma ev_schedule_now: "ev (driverless (rm_scheduler m)) s (snd (schedule_now m a strategy s))"
  by (simp only: schedule_now_def) (intro ev_and_then evolves_trans [OF ev_publishEvent ev_rollout_step] ev_completed)

lemma ev_schedule_copy: "ev (driverless (rm_scheduler m)) s (snd (schedule_copy m a copy strategy s))"
proof -
  let ?s1 = "snd (alloc copy s)" let ?s2 = "snd (rollout_step m a (wd_fresh s) strategy ?s1)"
  have "ev (driverless (rm_scheduler m)) s ?s1" by simp
  also have "ev (driverless (rm_scheduler m)) ?s1 ?s2" by (rule ev_rollout_step)
  also have "ev (driverless (rm_scheduler m)) ?s2
      (modify a (\<lambda>w. rescheduled w (sp_Scheduling (wl_Spec (deref ?s2 (wd_fresh s))))) ?s2)" by simp
  finally show ?thesis by (simp add: schedule_copy_def split_beta Let_def)
qed

lemma ev_execute_strategy: "ev (driverless (rm_scheduler m)) s (snd (execute_strategy m a s))"
proof -
  have canary: "ev (driverless (rm_scheduler m)) s (snd (executeCanary m a s))"
    by (auto simp: executeCanary_def Let_def split: option.split
        intro!: ev_and_then evolves_trans [OF ev_publishEvent ev_schedule_copy] ev_rollout_step ev_completed)
  have "ev (driverless (rm_scheduler m)) s (snd (executeABTest m a s))"
    by (auto simp: executeABTest_def Let_def split: option.split
        intro!: ev_and_then evolves_trans [OF ev_publishEvent ev_schedule_copy] evolves_trans [OF ev_steps(5) ev_rollout_step]
          ev_schedule_copy ev_completed)
  then show ?thesis
    using canary by (simp add: execute_strategy_def executeRollingUpdate_def executeRecreate_def executeBlueGreen_def ev_schedule_now Let_def)
qed

lemma ev_ExecuteRollout: "ev (driverless (rm_scheduler m)) s (snd (ExecuteRollout m a s))"
proof (cases "rm_healthGate m")
  case None
  then show ?thesis by (simp add: ExecuteRollout_def ev_execute_strategy)
next
  case (Some g)
  let ?s1 = "snd (EvaluateHealthGates g a s)"
  have "ev nd s ?s1" for nd using EvaluateHealthGates_same [of s g a] by (intro ev_frame) (simp_all add: same_world_def id_frame_def trace_grows_same)
  then show ?thesis
    using evolves_trans [OF _ ev_execute_strategy [of m ?s1 a]] by (simp add: ExecuteRollout_def Some split_beta Let_def)
qed

section \<open>Warm standby\<close>

lemma ev_provision_standby:
  assumes "store_ok stored valid s"
  shows "ev nd s (snd (provision_standby st a sid s))"
proof (cases "stored s sid")
  case None
  let ?b = "wd_fresh s" let ?s2 = "snd (time_Now s)"
  let ?s3 = "snd (alloc (newStandbyWorkload (deref s a) sid (wd_clock s (wd_ticks s))) ?s2)"
  have "ev nd s ?s2" by simp
  also have "ev nd ?s2 ?s3" by simp
  also have "ev nd ?s3 (modify ?b tags_Apply ?s3)" by simp
  also have "ev nd (modify ?b tags_Apply ?s3) (snd (store_Create st ?b (modify ?b tags_Apply ?s3)))" by (rule ev_Create) simp
  finally show ?thesis using None by (simp add: provision_standby_def Get split_beta Let_def split: option.split)
next
  case (Some b)
  let ?s2 = "modify b (cool_down (deref s a) (wd_clock s (wd_ticks s))) (snd (time_Now s))"
  have "ev nd s (snd (time_Now s))" by simp
  also have "ev nd (snd (time_Now s)) ?s2" by simp
  finally have "ev nd s ?s2" .
  then have "ev nd s (snd (store_Update st b (modify b tags_Apply ?s2)))"
    by (rule ev_modify_Update) (use stored_fresh [OF assms Some] in simp_all)
  then show ?thesis using Some by (simp add: provision_standby_def Get split_beta Let_def split: option.split)
qed

lemma ev_EnsureColdStandby:
  assumes "store_ok stored valid s" "a < wd_fresh s"
  shows "ev nd s (snd (EnsureColdStandby m st a s))"
proof -
  let ?p = "provision_standby st a (cold_standby_id (deref s a)) s"
  note p = ev_provision_standby [OF assms(1), of nd a "cold_standby_id (deref s a)"]
  have "ev nd s (snd (store_Update st a (modify a (set_standby_status (mark_cold (cold_standby_id (deref s a)))) (snd ?p))))"
    by (rule ev_modify_Update [OF p assms(2)]) simp
  then show ?thesis using p by (simp add: EnsureColdStandby_def split_beta Let_def split: option.split)
qed

lemma ev_Promote:
  assumes "store_ok stored valid s" "a < wd_fresh s"
  shows "ev nd s (snd (Promote m st a s))"
proof (cases "stored s (standbyIDFor (deref s a))")
  case (Some b)
  let ?s2 = "modify b (heat_up (deref s a) (wd_clock s (wd_ticks s))) (snd (time_Now s))"
  let ?u = "store_Update st b (modify b tags_Apply ?s2)"
  let ?s5 = "snd (time_Now (snd ?u))"
  have "ev nd s (snd (time_Now s))" by simp
  also have "ev nd (snd (time_Now s)) ?s2" by simp
  finally have "ev nd s ?s2" .
  then have u: "ev nd s (snd ?u)" by (rule ev_modify_Update) (use stored_fresh [OF assms(1) Some] in simp_all)
  then have "ev nd s ?s5" by (rule evolves_trans) simp
  then have "ev nd s (snd (store_Update st a (modify a (set_standby_status (mark_promoted now)) ?s5)))" for now
    by (rule ev_modify_Update) (use assms(2) in simp_all)
  then show ?thesis using u Some by (simp add: Promote_def Get split_beta Let_def split: option.split)
qed (simp add: Promote_def Get Let_def)

section \<open>The reconciler\<close>

lemma ev_policy_gate: "ev nd s (snd (policy_gate e a s))"
  by (simp add: policy_gate_eq)

lemma ev_quota_gate:
  assumes "store_ok stored valid s" "rec_store e = st"
  shows "snd (quota_gate e a s) = s"
proof -
  have "valid s" using assms(1) by (simp add: store_ok_def)
  then show ?thesis using assms(2) by (simp add: quota_gate_def split_beta Let_def quota_Enforce_unchanged split: option.split)
qed

lemma ev_auto_promote:
  assumes "store_ok stored valid s" "a < wd_fresh s" "rec_store e = st"
  shows "ev (driverless (rec_scheduler e)) s (auto_promote e a now s)"
proof (cases "rec_standby e")
  case (Some m)
  let ?nd = "driverless (rec_scheduler e)"
  let ?s1 = "assign a (fst (ShouldAutoPromote m (deref s a) now)) s"
  have 1: "ev ?nd s ?s1" by (simp add: ShouldAutoPromote_ID)
  obtain res s2 where p: "Promote m st a ?s1 = (res, s2)" by fastforce
  have 2: "ev ?nd s s2"
    using evolves_trans [OF 1 ev_Promote [OF evolves_ok [OF 1 assms(1)] evolves_fresh [OF 1 assms(2)], of ?nd m]] p by simp
  have 4: "ev ?nd s (snd (Schedule (rec_scheduler e) b (publish x s2)))" for b x
    by (rule evolves_trans [OF evolves_trans [OF 2 ev_steps(2)] ev_Schedule])
  have "ev ?nd s (modify a (\<lambda>w. rescheduled w sc) (snd (Schedule (rec_scheduler e) b (publish x s2))))" for b x sc
    by (rule evolves_trans [OF 4 [of b x]]) simp
  then show ?thesis
    using 1 2 p assms(3) by (simp add: auto_promote_def Some split_beta Let_def split: sum.split)
qed (simp add: auto_promote_def)

lemma ev_circuit_stage:
  assumes "store_ok stored valid s" "a < wd_fresh s" "rec_store e = st"
  shows "ev (driverless (rec_scheduler e)) s (circuit_stage e a now s)"
proof (cases "rec_circuit e")
  case (Some c)
  let ?nd = "driverless (rec_scheduler e)"
  obtain w prev cur where sync: "SyncFromWorkload c (deref s a) now = (w, prev, cur)" using prod_cases3 by blast
  have w: "wl_ID w = wl_ID (deref s a)" using collaborators_ID(1) [of c "deref s a" now] sync by simp
  let ?s1 = "snd (store_Update st a (assign a w s))"
  let ?s2 = "if prev \<noteq> cur \<and> cur = CircuitStateOpen then publish (workload_event WorkloadCircuitOpen a) ?s1 else ?s1"
  let ?s3 = "if prev \<noteq> cur \<and> cur = CircuitStateClosed then publish (workload_event WorkloadCircuitClosed a) ?s2 else ?s2"
  have "ev ?nd s (assign a w s)" using w by simp
  also have "ev ?nd (assign a w s) ?s1" using assms(2) by (intro ev_Update) simp
  also have "ev ?nd ?s1 ?s2" by simp
  also have "ev ?nd ?s2 ?s3" by simp
  finally have 3: "ev ?nd s ?s3" .
  have "ev ?nd s (auto_promote e a now ?s3)"
    by (rule evolves_trans [OF 3 ev_auto_promote [OF evolves_ok [OF 3 assms(1)] evolves_fresh [OF 3 assms(2)] assms(3)]])
  then show ?thesis by (simp add: circuit_stage_def Some sync Let_def assms(3) cong: if_cong)
qed (simp add: circuit_stage_def)

lemma ev_standby_stage:
  "store_ok stored valid s \<Longrightarrow> a < wd_fresh s \<Longrightarrow> rec_store e = st \<Longrightarrow> ev nd s (standby_stage e a s)"
  by (simp add: standby_stage_def ev_EnsureColdStandby split: option.split)

lemma ev_secrets_stage:
  assumes "a < wd_fresh s" "rec_store e = st"
  shows "ev (driverless (rec_scheduler e)) s (snd (secrets_stage e a r s))"
proof -
  let ?nd = "driverless (rec_scheduler e)" and ?r = "RequestRollingRestart (rec_scheduler e) a s"
  have 1: "ev ?nd s (snd ?r)" by (rule ev_restart)
  have "ev ?nd s (snd (store_Update st a (modify a restart_completed (snd ?r))))"
    by (rule ev_modify_Update [OF 1 assms(1)]) simp
  then have "ev ?nd s (publish x (snd (store_Update st a (modify a restart_completed (snd ?r)))))" for x
    by (rule evolves_trans) simp
  then show ?thesis
    using 1 assms(2) by (simp add: secrets_stage_def split_beta Let_def split: option.split)
qed

lemma ev_cron_stage: "ev nd s (snd (cron_stage e a s))"
  by (simp add: cron_stage_def split_beta Let_def split: option.split sum.split)

lemma ev_route_stage: "ev nd s (snd (route_stage e a now s))"
proof (cases "rec_circuit e")
  case (Some c)
  let ?s1 = "assign a (case fst (AllowRoute c (Some (deref s a)) now) of None \<Rightarrow> deref s a | Some w \<Rightarrow> w) s"
  have 1: "ev nd s ?s1" by (rule ev_steps(6)) (rule AllowRoute_ID)
  then have "ev nd s (modify a RecordRouteAttempt ?s1)" by (rule evolves_trans) simp
  then show ?thesis using 1 by (simp add: route_stage_def Some split_beta Let_def)
qed (simp add: route_stage_def)

lemma ev_postSchedule:
  assumes "a < wd_fresh s" "rec_store e = st"
  shows "ev nd s (snd (postSchedule e a c s))"
proof -
  obtain now s1 where t: "time_Now s = (now, s1)" by fastforce
  have 1: "ev nd s s1" using ev_steps(1) [of nd s] t by simp
  obtain err s2 where u: "store_Update st a (modify a (mark_running now c) s1) = (err, s2)" by fastforce
  have 2: "ev nd s s2" using ev_modify_Update [OF 1 assms(1), of "mark_running now c"] u by simp
  have 3: "ev nd s (publish x s2)" for x by (rule evolves_trans [OF 2]) simp
  have 4: "ev nd s (publish x (publish y s2))" for x y by (rule evolves_trans [OF 3 [of y]]) simp
  show ?thesis
    using 2 3 4 by (simp add: postSchedule_def t u assms(2) Let_def split: option.split)
qed

lemma ev_launch: "ev (pass_quiet e) s (snd (launch e a s))"
  by (cases "rec_rollout e")
    (auto simp: launch_def pass_quiet_def rollout_quiet_def intro: evolves_mono [OF ev_Schedule] evolves_mono [OF ev_ExecuteRollout])

lemma ev_deploy_stage:
  assumes "a < wd_fresh s" "rec_store e = st"
  shows "ev (pass_quiet e) s (snd (deploy_stage e a c s))"
proof -
  obtain err s1 where l: "launch e a s = (err, s1)" by fastforce
  have 1: "ev (pass_quiet e) s s1" using ev_launch [of e s a] l by simp
  have "ev (pass_quiet e) s (snd (postSchedule e a c s1))"
    by (rule evolves_trans [OF 1 ev_postSchedule [OF evolves_fresh [OF 1 assms(1)] assms(2)]])
  then show ?thesis using 1 by (simp add: deploy_stage_def l split: option.split)
qed

lemma ev_admitted_stages:
  assumes "store_ok stored valid s" "a < wd_fresh s" "rec_store e = st"
  shows "ev (pass_quiet e) s (snd (snd (admitted_stages e a r s)))"
proof -
  let ?q = "pass_quiet e"
  have q: "driverless (rec_scheduler e)" if ?q using that by (simp add: pass_quiet_def)
  obtain now s1 where t: "time_Now s = (now, s1)" by fastforce
  have 1: "ev ?q s s1" using ev_steps(1) [of ?q s] t by simp
  note next_stage = evolves_ok [OF _ assms(1)] evolves_fresh [OF _ assms(2)] assms(3)
  have 2: "ev ?q s (circuit_stage e a now s1)"
    by (rule evolves_trans [OF 1 evolves_mono [OF ev_circuit_stage [OF next_stage(1) [OF 1] next_stage(2) [OF 1] assms(3)] q]])
  let ?s2 = "standby_stage e a (circuit_stage e a now s1)"
  have 3: "ev ?q s ?s2" by (rule evolves_trans [OF 2 ev_standby_stage [OF next_stage(1) [OF 2] next_stage(2) [OF 2] assms(3)]])
  obtain r1 s3 where sec: "secrets_stage e a r ?s2 = (r1, s3)" by fastforce
  have 4: "ev ?q s s3" using evolves_trans [OF 3 evolves_mono [OF ev_secrets_stage [OF next_stage(2) [OF 3] assms(3)] q]] sec by (metis snd_conv)
  obtain verdict s4 where cron: "cron_stage e a s3 = (verdict, s4)" by fastforce
  have 5: "ev ?q s s4" using evolves_trans [OF 4 ev_cron_stage [of ?q s3 e a]] cron by simp
  obtain ok s5 where route: "route_stage e a now s4 = (ok, s5)" by fastforce
  have 6: "ev ?q s s5" using evolves_trans [OF 5 ev_route_stage [of ?q s4 e a now]] route by simp
  have 7: "ev ?q s (snd (deploy_stage e a c s5))" for c
    by (rule evolves_trans [OF 6 ev_deploy_stage [OF next_stage(2) [OF 6] assms(3)]])
  show ?thesis
    using 5 6 7 by (simp add: admitted_stages_def t sec cron route Let_def split_beta split: cron_verdict.split bool.split)
qed

lemma ev_reconcileOne:
  assumes "store_ok stored valid s" "a < wd_fresh s" "rec_store e = st" "rec_controllers e = []"
  shows "ev (pass_quiet e) s (snd (snd (reconcileOne e a r s)))"
proof -
  obtain ok s2 where p: "policy_gate e a s = (ok, s2)" by fastforce
  have 2: "ev (pass_quiet e) s s2" using ev_policy_gate [of "pass_quiet e" s e a] p by simp
  note ok2 = evolves_ok [OF 2 assms(1)] evolves_fresh [OF 2 assms(2)]
  obtain ok' where q: "quota_gate e a s2 = (ok', s2)" using ev_quota_gate [OF ok2(1) assms(3), of a] by (metis prod.collapse)
  have "ev (pass_quiet e) s (snd (snd (admitted_stages e a r s2)))"
    by (rule evolves_trans [OF 2 ev_admitted_stages [OF ok2 assms(3)]])
  then show ?thesis
    using 2 assms(4) by (simp add: reconcileOne_def GetControllersForWorkload_def p q split: bool.split)
qed

lemma ev_reconcile_loop:
  assumes "rec_store e = st" "rec_controllers e = []"
  shows "store_ok stored valid s \<Longrightarrow> \<forall>a \<in> set as. a < wd_fresh s \<Longrightarrow> ev (pass_quiet e) s (snd (reconcile_loop e as r s))"
proof (induction as arbitrary: r s)
  case (Cons a as)
  obtain err r1 s1 where o: "reconcileOne e a r s = (err, r1, s1)" using prod_cases3 by blast
  have 1: "ev (pass_quiet e) s s1" using ev_reconcileOne [OF Cons.prems(1) _ assms, of a r] Cons.prems(2) o by simp
  have "\<forall>a \<in> set as. a < wd_fresh s1" using Cons.prems(2) evolves_fresh [OF 1] by simp
  from evolves_trans [OF 1 Cons.IH [OF evolves_ok [OF 1 Cons.prems(1)] this, of r1]] show ?case by (simp add: o)
qed simp

lemma ev_reconcileAll:
  assumes "store_ok stored valid s" "rec_store e = st" "rec_controllers e = []"
  shows "ev (pass_quiet e) s (snd (reconcileAll e r s))"
proof -
  obtain as where l: "store_List st [] s = (Ok as, s)" "\<forall>a \<in> set as. a < wd_fresh s" using listed_fresh [OF assms(1)] by blast
  have "\<forall>a \<in> set (reconcile_order s as). a < wd_fresh s" using l(2) by (simp add: reconcile_order_def)
  from ev_reconcile_loop [OF assms(2,3,1) this] show ?thesis by (simp add: reconcileAll_def assms(2) l(1))
qed

section \<open>Autoscaler and drift detector\<close>

lemma ev_scaleWorkload:
  assumes "a < wd_fresh s"
  shows "ev nd s (snd (scaleWorkload st a n reason s))"
proof -
  obtain now s1 where t: "time_Now s = (now, s1)" by fastforce
  have 1: "ev nd s s1" using ev_steps(1) [of nd s] t by simp
  let ?f = "\<lambda>w. w\<lparr>wl_Spec := (wl_Spec w)\<lparr>sp_Replicas := n\<rparr>, wl_UpdatedAt := now\<rparr>"
  obtain err s3 where u: "store_Update st a (modify a ?f s1) = (err, s3)" by fastforce
  have 3: "ev nd s s3" using ev_modify_Update [OF 1 assms, of ?f] u by simp
  obtain now2 s4 where t4: "time_Now s3 = (now2, s4)" by fastforce
  have 4: "ev nd s s4" using evolves_trans [OF 3 ev_steps(1)] t4 by (metis snd_conv)
  have "ev nd s (modify a (\<lambda>w. w\<lparr>wl_History := h w\<rparr>) s4)" for h by (rule evolves_trans [OF 4]) simp
  then show ?thesis using 3 by (simp add: scaleWorkload_def t u t4 Let_def split: option.split)
qed

lemma ev_evaluateScaling: "a < wd_fresh s \<Longrightarrow> ev nd s (snd (evaluateScaling mp st cfg a s))"
  by (cases rule: evaluateScaling_cases [of mp st cfg a s]) (simp_all add: ev_scaleWorkload)

lemma ev_autoscale_loop: "\<forall>a \<in> set as. a < wd_fresh s \<Longrightarrow> ev nd s (autoscale_loop mp st as s)"
proof (induction as arbitrary: s)
  case (Cons a as)
  let ?s1 = "case sp_AutoScaling (wl_Spec (deref s a)) of None \<Rightarrow> s
    | Some cfg \<Rightarrow> if as_Enabled cfg then snd (evaluateScaling mp st cfg a s) else s"
  have 1: "ev nd s ?s1" using Cons.prems by (simp add: ev_evaluateScaling split: option.split)
  then have "\<forall>a \<in> set as. a < wd_fresh ?s1" using Cons.prems evolves_fresh [OF 1] by simp
  from evolves_trans [OF 1 Cons.IH [OF this]] show ?case by simp
qed simp

lemma ev_checkAllWorkloads:
  assumes "store_ok stored valid s"
  shows "ev nd s (checkAllWorkloads mp st s)"
proof -
  obtain as where "store_List st [] s = (Ok as, s)" "\<forall>a \<in> set as. a < wd_fresh s" using listed_fresh [OF assms] by blast
  then show ?thesis by (simp add: checkAllWorkloads_def ev_autoscale_loop)
qed

lemma ev_only_observed:
  "only_observed s s' \<Longrightarrow> (nd \<Longrightarrow> wd_calls s' = wd_calls s) \<Longrightarrow> trace_grows s s' \<Longrightarrow> ev nd s s'"
  by (rule ev_frame) (auto simp: only_observed_def id_frame_def)

end

lemma detectDrift_observed:
  assumes "detectDrift d a s = Some (res, s')"
  shows "only_observed s s'" "trace_grows s s'"
proof -
  obtain drv where drv: "dc_runtimeDriver d = Some drv" using assms by (auto simp: detectDrift_def split: option.splits)
  obtain answer s1 where q: "driver_GetStatus drv (wl_ID (deref s a)) s = (answer, s1)" by fastforce
  then have 1: "only_observed s s1" "trace_grows s s1"
    by (auto simp: driver_GetStatus_def only_observed_def intro: trace_grows_call)
  then have 2: "only_observed s (snd (time_Now (snd (time_Now s1))))" by (simp add: only_observed_def)
  have "trace_grows s (snd (time_Now (snd (time_Now s1))))" by (rule trace_grows_trans [OF 1(2)]) (simp add: trace_grows_same)
  with 2 show "only_observed s s'" "trace_grows s s'"
    using assms 1 by (cases answer; auto simp: detectDrift_def drv q split_beta Let_def split: option.splits if_splits)+
qed

lemma handleDrift_observed:
  "handleDrift d a n ds s = Some (ds', s') \<Longrightarrow> only_observed s s'"
  "handleDrift d a n ds s = Some (ds', s') \<Longrightarrow> trace_grows s s'"
  by (auto simp: handleDrift_def only_observed_def Let_def split: option.splits if_splits intro: trace_grows_same)

definition checked :: "Detector \<Rightarrow> world \<Rightarrow> world \<Rightarrow> bool" where
  \<comment> \<open>what a drift check may change: it reads, and it asks drivers for a status\<close>
  "checked d s s' = (only_observed s s' \<and> trace_grows s s' \<and> (dc_runtimeDriver d = None \<longrightarrow> s' = s))"

lemma checked_refl: "checked d s s"
  by (simp add: checked_def only_observed_def trace_grows_same)

lemma checked_trans: "checked d s t \<Longrightarrow> checked d t u \<Longrightarrow> checked d s u"
  unfolding checked_def only_observed_def using trace_grows_trans by auto

lemma checkWorkload_observed:
  assumes "checkWorkload d a ds s = Some (ds', s')"
  shows "checked d s s'"
proof (cases "drift_enabled (deref s a)")
  case True
  then obtain res s1 where r: "detectDrift d a s = Some (res, s1)" using assms by (auto simp: checkWorkload_def split: option.splits)
  then have "dc_runtimeDriver d \<noteq> None" by (cases "dc_runtimeDriver d") (simp_all add: detectDrift_def)
  moreover have "only_observed s1 s'" "trace_grows s1 s'"
    using assms True r handleDrift_observed
    by (auto simp: checkWorkload_def only_observed_def split: sum.splits option.splits intro: trace_grows_same)
  ultimately show ?thesis
    using detectDrift_observed [OF r] trace_grows_trans [of s s1 s'] by (auto simp: checked_def only_observed_def)
qed (use assms in \<open>simp add: checkWorkload_def checked_refl\<close>)

lemma checkWorkloads_observed: "checkWorkloads d as ds s = Some (ds', s') \<Longrightarrow> checked d s s'"
proof (induction as arbitrary: ds s)
  case (Cons a as)
  obtain ds1 s1 where 1: "checkWorkload d a ds s = Some (ds1, s1)" "checkWorkloads d as ds1 s1 = Some (ds', s')"
    using Cons.prems by (auto split: option.splits)
  then show ?case using checkWorkload_observed [OF 1(1)] Cons.IH [OF 1(2)] by (rule_tac checked_trans)
qed (simp add: checked_refl)

context audited_store
begin

lemma ev_checked: "checked d s s' \<Longrightarrow> (nd \<Longrightarrow> dc_runtimeDriver d = None) \<Longrightarrow> ev nd s s'"
  by (auto simp: checked_def intro: ev_only_observed)

end

end
