(* ===== verification/Process.thy ===== *)
theory Process
  imports Passes ServerProofs PersistentStores
begin

text \<open>
  \<open>cmd/core/main.go\<close>: the configuration, the objects it wires together, and the life of the
  process as a step relation over the goroutines it starts: the reconciler loop
  (\<open>reconciler.Start\<close>), the autoscaler loop, the drift detector loop, the HTTP server and the
  shutdown signal. One turn of a loop or one request is one step; the steps interleave in any
  order. A panic in any goroutine ends the process.

  Reading the configuration file, YAML decoding and the connections to PostgreSQL and etcd are
  arguments of \<open>main_boot\<close>; the libraries the components use are collected in \<open>Libs\<close>. The running
  process is modelled over the in-memory store.

  The lemmas: every step keeps what \<open>evolves\<close> says (theory \<open>Interleaving\<close> draws the conclusions, for
  finer steps); the drift detector only ever looks at the workloads stored when the reconciler
  started, and its first check of a workload that asks for drift detection panics.
\<close>

section \<open>Configuration\<close>

record Config =
  cfg_ReconcileInterval :: int
  cfg_MaxConcurrentReconciles :: int
  cfg_Backend :: string
  cfg_PostgresDSN :: string
  cfg_EtcdEndpoints :: "string list"
  cfg_DefaultCPULimit :: string
  cfg_DefaultMemoryLimit :: string
  cfg_EnforceNamespaceIsolation :: bool
  cfg_BufferSize :: int
  cfg_DriftEnabled :: bool
  cfg_DriftCheckInterval :: int
  cfg_EventSourcingEnabled :: bool
  cfg_StorageBackend :: string
  cfg_MaxEventAge :: int
  cfg_Compression :: bool
  cfg_HealthGateEnabled :: bool
  cfg_HealthGateTimeout :: int
  cfg_HealthGateCheckInterval :: int
  cfg_HardLimits :: "HardResourceQuota list"
  cfg_RollbackEnabled :: bool
  cfg_RollbackMaxVersions :: int
  cfg_RequireTeam :: bool
  cfg_RequireEnvironment :: bool
  cfg_RequireCostCenter :: bool
  cfg_Circuit :: CircuitConfig
  cfg_Standby :: StandbyConfig
  cfg_SecretRotationEnabled :: bool
  cfg_HTTPEnabled :: bool
  cfg_HTTPAddr :: string

record ('q, 'x) Libs =
  lb_scan :: scan_float
  lb_quantity :: "'q QuantityLib"
  lb_cron :: CronLib
  lb_http :: HttpLib
  lb_notify :: NotifyLib
  lb_json :: "'x Decoders"
  lb_ParseParams :: "string \<Rightarrow> string \<Rightarrow> 'x"
  lb_SlicePage :: "('x, 'x) SlicePage"

datatype Backend = BackendPostgres string | BackendEtcd "string list" | BackendMemory

definition select_backend :: "Config \<Rightarrow> (string, Backend) result" where
  \<comment> \<open>\<open>Inl\<close> is the message of \<open>log.Fatalf\<close>\<close>
  "select_backend cfg =
     (if cfg_Backend cfg = ''postgres''
      then (if cfg_PostgresDSN cfg = [] then Err ''Postgres DSN is required when using postgres backend''
            else Ok (BackendPostgres (cfg_PostgresDSN cfg)))
      else if cfg_Backend cfg = ''etcd''
      then (if cfg_EtcdEndpoints cfg = [] then Err ''Etcd endpoints are required when using etcd backend''
            else Ok (BackendEtcd (cfg_EtcdEndpoints cfg)))
      else Ok BackendMemory)"

definition loadConfig :: "(string \<Rightarrow> (error, string) result) \<Rightarrow> (string \<Rightarrow> (error, Config) result) \<Rightarrow> string \<Rightarrow> (error, Config) result" where
  \<comment> \<open>the arguments are \<open>os.ReadFile\<close> and \<open>yaml.Unmarshal\<close>\<close>
  "loadConfig readFile unmarshal path = (case readFile path of Inl err \<Rightarrow> Err err | Inr data \<Rightarrow> unmarshal data)"

datatype ('k, 'l) OpenStore = PostgresUp "'k PersistentStore" | EtcdUp "'l PersistentStore" | MemoryUp

datatype ('k, 'l) Boot = Fatal gotext | Booted Config "('k, 'l) OpenStore"

definition main_boot ::
  "(error, Config) result \<Rightarrow> (string \<Rightarrow> (error, 'k PersistentStore) result) \<Rightarrow> (string list \<Rightarrow> (error, 'l PersistentStore) result) \<Rightarrow>
   ('k, 'l) Boot" where
  \<comment> \<open>\<open>main\<close> up to the choice of the store: the loaded configuration and the two store constructors\<close>
  "main_boot config newPostgresStore newEtcdStore = (case config of
     Inl loadErr \<Rightarrow> Fatal (Sprintf ''Failed to load config: %v'' [ErrText loadErr])
   | Inr cfg \<Rightarrow>
       (case select_backend cfg of
          Inl msg \<Rightarrow> Fatal (Str msg)
        | Inr (BackendPostgres dsn) \<Rightarrow>
            (case newPostgresStore dsn of
               Inl storeErr \<Rightarrow> Fatal (Sprintf ''Failed to create postgres store: %v'' [ErrText storeErr])
             | Inr st \<Rightarrow> Booted cfg (PostgresUp st))
        | Inr (BackendEtcd endpoints) \<Rightarrow>
            (case newEtcdStore endpoints of
               Inl storeErr \<Rightarrow> Fatal (Sprintf ''Failed to create etcd store: %v'' [ErrText storeErr])
             | Inr st \<Rightarrow> Booted cfg (EtcdUp st))
        | Inr BackendMemory \<Rightarrow> Booted cfg MemoryUp))"

lemma main_boot_memory:
  "main_boot config pg etcd = Booted cfg MemoryUp \<longleftrightarrow> config = Ok cfg \<and> cfg_Backend cfg \<noteq> ''postgres'' \<and> cfg_Backend cfg \<noteq> ''etcd''"
  by (auto simp: main_boot_def select_backend_def split: sum.splits Backend.splits if_splits)

definition rollback_versions :: "Config \<Rightarrow> int option" where
  "rollback_versions cfg = (if cfg_RollbackEnabled cfg
     then Some (if cfg_RollbackMaxVersions cfg \<le> 0 then 10 else cfg_RollbackMaxVersions cfg) else None)"

definition wrap_store :: "Config \<Rightarrow> Store \<Rightarrow> Store" where
  "wrap_store cfg st = (case rollback_versions cfg of None \<Rightarrow> st | Some maxV \<Rightarrow> NewVersionedStore st maxV)"

section \<open>Wiring\<close>

record ('q, 'x) Process =
  pr_interval :: int
  pr_reconciler :: "'q Reconciler"
  pr_metrics :: MetricsProvider
  pr_detector :: "Detector option"
  pr_server :: "('q, 'x) Server option"

definition wired_scheduler :: "('q, 'x) Libs \<Rightarrow> Scheduler" where
  "wired_scheduler lib = scheduler_New DefaultCostProvider DefaultNodeRegistry (lb_scan lib)"

definition wired_rollout :: "Config \<Rightarrow> ('q, 'x) Libs \<Rightarrow> RolloutManager" where
  "wired_rollout cfg lib = rollout_New (wired_scheduler lib)
     (Some (healthgate_New (cfg_HealthGateEnabled cfg) (cfg_HealthGateTimeout cfg) (cfg_HealthGateCheckInterval cfg) (lb_http lib)))"

definition wired_policy :: "Config \<Rightarrow> PolicyConfig" where
  "wired_policy cfg = \<lparr>pc_DefaultCPULimit = cfg_DefaultCPULimit cfg, pc_DefaultMemoryLimit = cfg_DefaultMemoryLimit cfg,
     pc_EnforceNamespaceIsolation = cfg_EnforceNamespaceIsolation cfg, pc_RequireTeamTag = cfg_RequireTeam cfg,
     pc_RequireEnvironmentTag = cfg_RequireEnvironment cfg, pc_RequireCostCenterTag = cfg_RequireCostCenter cfg\<rparr>"

definition wired_detector :: "Config \<Rightarrow> ('q, 'x) Libs \<Rightarrow> Detector option" where
  "wired_detector cfg lib = (if cfg_DriftEnabled cfg
     then Some (drift_New (cfg_DriftEnabled cfg) (cfg_DriftCheckInterval cfg)
       (Some \<lparr>dt_ReplicaVariance = 1, dt_ResourceVariancePct = Fin 10, dt_EnvVarDriftAllowed = False,
          dt_LabelDriftAllowed = True, dt_AnnotationDriftAllowed = False\<rparr>)
       None (lb_notify lib))
     else None)"

definition wired_autoscaler :: "Store \<Rightarrow> Autoscaler" where
  "wired_autoscaler store = autoscaler_New (30 * second) store DefaultMetricsProvider"

definition wired_secrets :: "Config \<Rightarrow> bool \<Rightarrow> SecretEngine" where
  \<comment> \<open>its registry is the fresh one that starts in the state\<close>
  "wired_secrets cfg es = fst (secret_New (cfg_SecretRotationEnabled cfg) (Some secret_NewRegistry) es True)"

definition wired_reconciler :: "Config \<Rightarrow> ('q, 'x) Libs \<Rightarrow> Store \<Rightarrow> bool \<Rightarrow> 'q Reconciler" where
  "wired_reconciler cfg lib store es =
     (let circuit = circuit_New (cfg_Circuit cfg)
      in reconciler_New store (wired_scheduler lib) plugin_NewRegistry (Some (wired_rollout cfg lib)) (lb_quantity lib)
           \<lparr>dep_Policy = Some (wired_policy cfg), dep_Quota = Some (quota_New (cfg_HardLimits cfg)), dep_Cron = lb_cron lib,
            dep_Circuit = Some circuit, dep_Standby = Some (standby_New (cfg_Standby cfg) (Some circuit)),
            dep_Secrets = Some (wired_secrets cfg es)\<rparr>)"

definition wired_server :: "Config \<Rightarrow> ('q, 'x) Libs \<Rightarrow> Store \<Rightarrow> bool \<Rightarrow> ('q, 'x) Server option" where
  "wired_server cfg lib store es = (if cfg_HTTPEnabled cfg
     then Some (server_New store (rollback_versions cfg) es (Some (wired_scheduler lib)) (Some (wired_secrets cfg es))
       (lb_quantity lib) (lb_json lib) (lb_ParseParams lib) (lb_SlicePage lib))
     else None)"

definition http_addr :: "Config \<Rightarrow> string" where
  "http_addr cfg = (if cfg_HTTPAddr cfg = [] then '':8081'' else cfg_HTTPAddr cfg)"

definition main_wire :: "Config \<Rightarrow> ('q, 'x) Libs \<Rightarrow> Store \<Rightarrow> bool \<Rightarrow> ('q, 'x) Process" where
  \<comment> \<open>around the store of the selected backend; \<open>es\<close>: it writes the event log\<close>
  "main_wire cfg lib inner es =
     (let store = wrap_store cfg inner
      in \<lparr>pr_interval = cfg_ReconcileInterval cfg, pr_reconciler = wired_reconciler cfg lib store es,
          pr_metrics = au_metricsProvider (wired_autoscaler store), pr_detector = wired_detector cfg lib, pr_server = wired_server cfg lib store es\<rparr>)"

section \<open>The running process\<close>

record ProcState =
  px_state :: ServerState
  px_alive :: bool
  px_started :: bool
  px_watched :: "addr list option"
  px_drift :: DriftState

abbreviation px_world :: "ProcState \<Rightarrow> world" where
  "px_world x \<equiv> sx_world (px_state x)"

definition set_world :: "world \<Rightarrow> ProcState \<Rightarrow> ProcState" where
  "set_world s x = x\<lparr>px_state := (px_state x)\<lparr>sx_world := s\<rparr>\<rparr>"

definition initial_world :: "Config \<Rightarrow> (nat \<Rightarrow> gotime) \<Rightarrow> (nat \<Rightarrow> string) \<Rightarrow> world" where
  "initial_world cfg clock ids = \<lparr>wd_heap = (\<lambda>_. zero_workload), wd_fresh = 0, wd_clock = clock, wd_ticks = 0, wd_ids = ids,
     wd_drawn = 0, wd_bus = eventbus_New (nat (cfg_BufferSize cfg)),
     wd_log = eventsourcing_New (cfg_EventSourcingEnabled cfg) (cfg_MaxEventAge cfg), wd_mem = NewMemoryStore True, wd_chans = 0,
     wd_calls = []\<rparr>"

definition initial_state :: "Config \<Rightarrow> (nat \<Rightarrow> gotime) \<Rightarrow> (nat \<Rightarrow> string) \<Rightarrow> ProcState" where
  "initial_state cfg clock ids =
     \<lparr>px_state = \<lparr>sx_world = initial_world cfg clock ids, sx_quota = Some (quota_New (cfg_HardLimits cfg)),
        sx_registry = secret_NewRegistry\<rparr>,
      px_alive = True, px_started = False, px_watched = None, px_drift = \<lparr>ds_reports = [], ds_sent = []\<rparr>\<rparr>"

definition drift_Start :: "Detector \<Rightarrow> addr list \<Rightarrow> addr list option" where
  \<comment> \<open>a disabled detector returns at once\<close>
  "drift_Start d workloads = (if dc_Enabled d then Some workloads else None)"

definition drift_tick :: "Detector \<Rightarrow> addr list \<Rightarrow> ProcState \<Rightarrow> ProcState option" where
  \<comment> \<open>\<open>time.NewTicker\<close> panics on a non-positive interval\<close>
  "drift_tick d workloads x =
     (if dc_CheckInterval d \<le> 0 then None
      else case checkWorkloads d workloads (px_drift x) (px_world x) of
             None \<Rightarrow> None
           | Some (ds, s) \<Rightarrow> Some ((set_world s x)\<lparr>px_drift := ds\<rparr>))"

definition reconciler_Start :: "('q, 'x) Process \<Rightarrow> ProcState \<Rightarrow> ProcState option" where
  "reconciler_Start p x =
     (if pr_interval p \<le> 0 then None
      else case pr_detector p of
             None \<Rightarrow> Some (x\<lparr>px_started := True\<rparr>)
           | Some d \<Rightarrow>
               (case store_List (rec_store (pr_reconciler p)) [] (px_world x) of
                  (Inl err, s) \<Rightarrow> Some ((set_world s x)\<lparr>px_started := True\<rparr>)
                | (Inr workloads, s) \<Rightarrow> Some ((set_world s x)\<lparr>px_started := True, px_watched := drift_Start d workloads\<rparr>)))"

definition reconciler_tick :: "('q, 'x) Process \<Rightarrow> ProcState \<Rightarrow> ProcState" where
  \<comment> \<open>the quota engine and the secret registry are shared with the server\<close>
  "reconciler_tick p x =
     (let t = px_state x;
          (r, s) = reconcileAll ((pr_reconciler p)\<lparr>rec_quota := sx_quota t\<rparr>) (sx_registry t) (sx_world t)
      in x\<lparr>px_state := t\<lparr>sx_world := s, sx_registry := r\<rparr>\<rparr>)"

definition autoscaler_tick :: "('q, 'x) Process \<Rightarrow> ProcState \<Rightarrow> ProcState" where
  "autoscaler_tick p x = set_world (checkAllWorkloads (pr_metrics p) (rec_store (pr_reconciler p)) (px_world x)) x"

definition exit_process :: "ProcState \<Rightarrow> ProcState" where
  "exit_process x = x\<lparr>px_alive := False\<rparr>"

inductive process_step :: "('q, 'x) Process \<Rightarrow> ProcState \<Rightarrow> ProcState \<Rightarrow> bool" for p where
  start: "px_alive x \<Longrightarrow> \<not> px_started x \<Longrightarrow> reconciler_Start p x = Some y \<Longrightarrow> process_step p x y"
| start_panic: "px_alive x \<Longrightarrow> \<not> px_started x \<Longrightarrow> reconciler_Start p x = None \<Longrightarrow> process_step p x (exit_process x)"
| reconcile: "px_alive x \<Longrightarrow> px_started x \<Longrightarrow> process_step p x (reconciler_tick p x)"
| autoscale: "px_alive x \<Longrightarrow> px_started x \<Longrightarrow> process_step p x (autoscaler_tick p x)"
| drift: "px_alive x \<Longrightarrow> pr_detector p = Some d \<Longrightarrow> px_watched x = Some as \<Longrightarrow> drift_tick d as x = Some y \<Longrightarrow> process_step p x y"
| drift_panic: "px_alive x \<Longrightarrow> pr_detector p = Some d \<Longrightarrow> px_watched x = Some as \<Longrightarrow> drift_tick d as x = None \<Longrightarrow>
    process_step p x (exit_process x)"
| request: "px_alive x \<Longrightarrow> pr_server p = Some sv \<Longrightarrow> serve sv r path (px_state x) = Some (resp, t) \<Longrightarrow>
    process_step p x (x\<lparr>px_state := t\<rparr>)"
| stop: "px_alive x \<Longrightarrow> process_step p x (exit_process x)"

inductive_cases process_stepE: "process_step p x y"

section \<open>What every step keeps\<close>

definition uses_store :: "('q, 'x) Process \<Rightarrow> Store \<Rightarrow> bool" where
  "uses_store p st = (rec_store (pr_reconciler p) = st \<and> rec_controllers (pr_reconciler p) = [] \<and>
     (case pr_server p of None \<Rightarrow> True | Some sv \<Rightarrow> sv_store sv = st))"

definition process_quiet :: "('q, 'x) Process \<Rightarrow> bool" where
  \<comment> \<open>no component holds a runtime driver\<close>
  "process_quiet p = (pass_quiet (pr_reconciler p) \<and> (case pr_server p of None \<Rightarrow> True | Some sv \<Rightarrow> server_quiet sv) \<and>
     (case pr_detector p of None \<Rightarrow> True | Some d \<Rightarrow> dc_runtimeDriver d = None))"

lemma process_quietD:
  "process_quiet p \<Longrightarrow> pass_quiet (pr_reconciler p)"
  "process_quiet p \<Longrightarrow> pr_server p = Some sv \<Longrightarrow> server_quiet sv"
  "process_quiet p \<Longrightarrow> pr_detector p = Some d \<Longrightarrow> dc_runtimeDriver d = None"
  by (simp_all add: process_quiet_def)

lemma set_world_simps [simp]:
  "px_world (set_world s x) = s" "px_watched (set_world s x) = px_watched x" "px_started (set_world s x) = px_started x"
  "px_alive (set_world s x) = px_alive x" "px_state (exit_process x) = px_state x" "px_watched (exit_process x) = px_watched x"
  "px_started (exit_process x) = px_started x"
  by (simp_all add: set_world_def exit_process_def)

lemma pass_quiet_quota [simp]: "pass_quiet (e\<lparr>rec_quota := q\<rparr>) = pass_quiet e"
  by (simp add: pass_quiet_def)

context audited_store
begin

lemma ev_Start:
  assumes "uses_store p st" "store_ok stored valid (px_world x)" "reconciler_Start p x = Some y"
  shows "px_world y = px_world x"
proof -
  obtain as where "store_List st [] (px_world x) = (Ok as, px_world x)" using listed_fresh [OF assms(2)] by blast
  then show ?thesis
    using assms(1,3) by (auto simp: reconciler_Start_def uses_store_def split: if_splits option.splits)
qed

lemma ev_process_step:
  assumes "uses_store p st" "store_ok stored valid (px_world x)" "process_step p x y"
  shows "ev (process_quiet p) (px_world x) (px_world y)"
  using assms(3)
proof cases
  case start
  then show ?thesis using ev_Start [OF assms(1,2)] by simp
next
  case reconcile
  let ?e = "(pr_reconciler p)\<lparr>rec_quota := sx_quota (px_state x)\<rparr>"
  have "ev (pass_quiet ?e) (px_world x) (snd (reconcileAll ?e (sx_registry (px_state x)) (px_world x)))"
    using assms(1,2) by (intro ev_reconcileAll) (simp_all add: uses_store_def)
  then show ?thesis
    using reconcile by (auto simp: reconciler_tick_def split_beta Let_def intro: evolves_mono process_quietD)
next
  case autoscale
  then show ?thesis using ev_checkAllWorkloads [OF assms(2)] assms(1) by (simp add: autoscaler_tick_def uses_store_def)
next
  case (drift d as)
  obtain ds s where c: "checkWorkloads d as (px_drift x) (px_world x) = Some (ds, s)" "px_world y = s"
    using drift(4) by (auto simp: drift_tick_def split: if_splits option.splits)
  show ?thesis
    using ev_checked [OF checkWorkloads_observed [OF c(1)]] process_quietD(3) [OF _ drift(2)] by (simp add: c(2))
next
  case (request sv r path resp t)
  then have "sv_store sv = st" using assms(1) by (simp add: uses_store_def)
  from ev_serve [OF this assms(2) request(4)] show ?thesis using request(1,3) by (auto intro: evolves_mono process_quietD)
qed simp_all

lemma ev_process_run:
  assumes "uses_store p st" "store_ok stored valid (px_world x)" "(process_step p)\<^sup>*\<^sup>* x y"
  shows "ev (process_quiet p) (px_world x) (px_world y)"
  using assms(3)
proof (induction rule: rtranclp_induct)
  case (step y z)
  show ?case by (rule evolves_trans [OF step.IH ev_process_step [OF assms(1) evolves_ok [OF step.IH assms(2)] step.hyps(2)]])
qed simp

end

interpretation aw: audited_store "wrap_store cfg MemStore" mem_stored mem_valid for cfg
  by (cases "rollback_versions cfg") (simp_all add: wrap_store_def am.audited_store_axioms av.audited_store_axioms)

lemma initial_state_ok:
  "store_ok mem_stored mem_valid (px_world (initial_state cfg clock ids))" "log_inv (wd_log (px_world (initial_state cfg clock ids)))"
  "wd_calls (px_world (initial_state cfg clock ids)) = []"
  by (simp_all add: initial_state_def initial_world_def store_ok_def mem_stored_def mem_valid_def keyed_def NewMemoryStore_def
      wf_map_def eventsourcing_New_inv)

section \<open>As wired\<close>

lemmas wired_defs = wired_reconciler_def wired_server_def wired_detector_def wired_rollout_def wired_scheduler_def wired_secrets_def
  wired_autoscaler_def reconciler_New_def server_New_def drift_New_def rollout_New_def scheduler_New_def autoscaler_New_def
  plugin_NewRegistry_def

lemma main_wire_fields [simp]:
  "uses_store (main_wire cfg lib inner es) (wrap_store cfg inner)" "process_quiet (main_wire cfg lib inner es)"
  "pr_detector (main_wire cfg lib inner es) = wired_detector cfg lib"
  by (simp_all add: main_wire_def uses_store_def process_quiet_def pass_quiet_def rollout_quiet_def server_quiet_def driverless_def
      Let_def wired_defs)

lemma wired_checkWorkloads:
  assumes "dc_runtimeDriver d = None"
  shows "checkWorkloads d as ds s = (if \<exists>a \<in> set as. drift_enabled (deref s a) then None else Some (ds, s))"
  using assms by (induction as) (simp_all add: checkWorkload_def detectDrift_def)

text \<open>
  As wired by \<open>main\<close>, drift detection can only end the process: the detector has no runtime
  driver, so a turn of its loop panics when one of the workloads it was given asks for drift
  detection (or the interval is not positive) and otherwise does nothing at all.
\<close>

theorem wired_drift_turn:
  assumes "pr_detector (main_wire cfg lib inner es) = Some d"
  shows "drift_tick d as x = (if cfg_DriftCheckInterval cfg \<le> 0 \<or> (\<exists>a \<in> set as. drift_enabled (deref (px_world x) a)) then None else Some x)"
proof -
  have d: "dc_runtimeDriver d = None" "dc_CheckInterval d = cfg_DriftCheckInterval cfg"
    using assms by (auto simp: wired_detector_def drift_New_def split: if_splits)
  show ?thesis by (simp add: drift_tick_def wired_checkWorkloads [OF d(1)] d(2) set_world_def)
qed

lemma watched_after_start: "process_step p x y \<Longrightarrow> px_started x \<Longrightarrow> px_watched y = px_watched x \<and> px_started y"
  by (auto elim!: process_stepE simp: reconciler_tick_def autoscaler_tick_def drift_tick_def split_beta Let_def set_world_def
      split: if_splits option.splits)

lemma watched_run: "(process_step p)\<^sup>*\<^sup>* x y \<Longrightarrow> px_started x \<Longrightarrow> px_watched y = px_watched x \<and> px_started y"
  by (induction rule: rtranclp_induct) (auto dest: watched_after_start)

text \<open>
  The drift detector is given the workloads stored when the reconciler starts and never any
  other: a workload created later is not checked for drift, whatever it asks for.
\<close>

theorem drift_watches_startup_workloads_only:
  assumes "store_ok mem_stored mem_valid (px_world x)" "uses_store p (wrap_store cfg MemStore)" "reconciler_Start p x = Some y"
    and "(process_step p)\<^sup>*\<^sup>* y z" "px_watched z = Some as"
  shows "px_watched x = Some as \<or> (\<forall>a \<in> set as. \<exists>i. mem_stored (px_world x) i = Some a)"
proof -
  have valid_list: "\<exists>ids. set ids = {i. \<exists>a. mem_stored (px_world x) i = Some a} \<and>
      store_List (rec_store (pr_reconciler p)) [] (px_world x) = (Ok (map (\<lambda>i. the (mem_stored (px_world x) i)) ids), px_world x)"
    using assms(1,2) aw.List [of "px_world x" "[]" cfg] by (auto simp: uses_store_def store_ok_def)
  have "px_started y" using assms(3) by (auto simp: reconciler_Start_def split: if_splits option.splits prod.splits sum.splits)
  then have "px_watched y = Some as" using watched_run [OF assms(4)] assms(5) by simp
  then show ?thesis
    using assms(3) valid_list by (fastforce simp: reconciler_Start_def drift_Start_def split: if_splits option.splits)
qed

section \<open>Witnesses\<close>

definition demo_config :: Config where
  "demo_config = \<lparr>cfg_ReconcileInterval = 30, cfg_MaxConcurrentReconciles = 1, cfg_Backend = ''memory'', cfg_PostgresDSN = [],
     cfg_EtcdEndpoints = [], cfg_DefaultCPULimit = ''1'', cfg_DefaultMemoryLimit = ''1Gi'', cfg_EnforceNamespaceIsolation = False,
     cfg_BufferSize = 8, cfg_DriftEnabled = True, cfg_DriftCheckInterval = 60, cfg_EventSourcingEnabled = True,
     cfg_StorageBackend = ''memory'', cfg_MaxEventAge = 0, cfg_Compression = False, cfg_HealthGateEnabled = True,
     cfg_HealthGateTimeout = 30, cfg_HealthGateCheckInterval = 30, cfg_HardLimits = [], cfg_RollbackEnabled = True,
     cfg_RollbackMaxVersions = 0, cfg_RequireTeam = False, cfg_RequireEnvironment = False, cfg_RequireCostCenter = False,
     cfg_Circuit = demo_circuit, cfg_Standby = \<lparr>sbc_Enabled = False, sbc_DefaultStandbyReplicas = 0, sbc_DefaultAutoPromote = False\<rparr>,
     cfg_SecretRotationEnabled = True, cfg_HTTPEnabled = True, cfg_HTTPAddr = []\<rparr>"

definition demo_libs :: "(int, string) Libs" where
  "demo_libs = \<lparr>lb_scan = (\<lambda>_. Ok NaN), lb_quantity = int_quantities, lb_cron = every_minute,
     lb_http = \<lparr>ht_NewRequest = (\<lambda>_ _. None), ht_Do = (\<lambda>_ _ _ _. Ok 200)\<rparr>,
     lb_notify = dc_notify (demo_detector 0), lb_json = sv_json demo_server, lb_ParseParams = sv_ParseParams demo_server,
     lb_SlicePage = sv_SlicePage demo_server\<rparr>"

abbreviation demo_process :: "(int, string) Process" where
  "demo_process \<equiv> main_wire demo_config demo_libs MemStore True"

abbreviation demo_init :: ProcState where
  "demo_init \<equiv> initial_state demo_config int (\<lambda>n. replicate n CHR ''i'')"

theorem wired_drift_turn_witness:
  "\<exists>d. pr_detector demo_process = Some d \<and>
     drift_tick d [0] (set_world (demo_world (\<lambda>_. demo_watched) [(''a'', 0)]) demo_init) = None \<and> drift_tick d [] demo_init = Some demo_init"
proof -
  obtain d where d: "pr_detector demo_process = Some d" by (simp add: wired_detector_def demo_config_def)
  have "cfg_DriftCheckInterval demo_config = 60" "drift_enabled demo_watched"
    by (simp_all add: demo_config_def demo_watched_def drift_enabled_def)
  then show ?thesis using d wired_drift_turn [OF d] by (intro exI [of _ d]) simp
qed

end
