(* ===== verification/Prediction.thy ===== *)
theory Prediction
  imports HealthGate Binary64
begin

text \<open>
  \<open>internal/prediction/predictor.go\<close>: failure prediction. Unlike elsewhere the code computes with
  \<open>float64\<close> here, with the rounding operations of theory \<open>Binary64\<close>; products are not fused with
  sums, as on amd64. \<open>math.Exp\<close> is a parameter.

  The lemmas: the heuristic model answers a probability between 0 and 1 for every input and
  grows with each feature; fed with the simulated features it never predicts a failure at the
  default threshold, not even for a failed workload; training keeps the shape of the model and
  panics exactly on samples with too few features.
\<close>

section \<open>Simulated features\<close>

definition simulateCPUUsage :: "Workload \<Rightarrow> float64" where
  "simulateCPUUsage w = (if rr_CPULimit (sp_Resources (wl_Spec w)) = [] then decimal 5 10 else decimal 6 10)"

definition simulateMemoryUsage :: "Workload \<Rightarrow> float64" where
  "simulateMemoryUsage w = (if rr_MemoryLimit (sp_Resources (wl_Spec w)) = [] then decimal 5 10 else decimal 7 10)"

definition simulateRequestRate :: "Workload \<Rightarrow> float64" where
  "simulateRequestRate w = Fin 100"

definition simulateErrorRate :: "Workload \<Rightarrow> float64" where
  "simulateErrorRate w =
     (if phase w = WorkloadPhaseDegraded then Fin 5
      else if phase w = WorkloadPhaseFailed then Fin 10
      else decimal 1 10)"

definition Seconds :: "int \<Rightarrow> float64" where
  \<comment> \<open>\<open>float64(d / Second) + float64(d % Second) / 1e9\<close>, both truncated towards zero\<close>
  "Seconds d = (let sec = sgn d * (\<bar>d\<bar> div second); nsec = sgn d * (\<bar>d\<bar> mod second)
     in f64_add (f64_round (of_int sec)) (f64_round (of_int nsec / 10 ^ 9)))"

definition extractFeatures :: "Workload \<Rightarrow> world \<Rightarrow> (string, float64) gomap \<times> world" where
  "extractFeatures w s =
     (let restarts = Fin (of_int (sint (st_AvailableReplicas (wl_Status w) - st_ReadyReplicas (wl_Status w))));
          (elapsed, s1) = time_Since (st_LastTransition (wl_Status w)) s
      in ([(''cpu_usage'', simulateCPUUsage w), (''memory_usage'', simulateMemoryUsage w),
           (''request_rate'', simulateRequestRate w), (''error_rate'', simulateErrorRate w),
           (''restart_count'', if f64_lt restarts (Fin 0) then Fin 0 else restarts),
           (''time_since_transition'', Seconds elapsed)], s1))"

definition feature :: "(string, float64) gomap \<Rightarrow> string \<Rightarrow> float64" where
  "feature features name = (case map_of features name of Some v \<Rightarrow> v | None \<Rightarrow> Fin 0)"

definition getFeatureValues :: "string list \<Rightarrow> (string, float64) gomap \<Rightarrow> float64 list" where
  "getFeatureValues featureNames features =
     map (feature features)
       (if featureNames = [] then [''cpu_usage'', ''memory_usage'', ''request_rate'', ''error_rate''] else featureNames)"

definition selectMitigationAction :: "string list \<Rightarrow> string" where
  "selectMitigationAction actions = (case actions of [] \<Rightarrow> ''scale_up'' | x # _ \<Rightarrow> x)"

section \<open>Predictor\<close>

type_synonym Predict = "float64 list \<Rightarrow> (error, float64) result"

record PredictionResult =
  pd_WorkloadID :: string
  pd_FailureProb :: float64
  pd_Predicted :: bool
  pd_MitigationAction :: string
  pd_Features :: "(string, float64) gomap"

definition effective_threshold :: "float64 \<Rightarrow> float64" where
  "effective_threshold t = (if t = Fin 0 then decimal 7 10 else t)"

definition PredictFailure :: "Predict \<Rightarrow> Workload \<Rightarrow> world \<Rightarrow> (error, PredictionResult) result \<times> world" where
  "PredictFailure model w s = (case sp_FailurePrediction (wl_Spec w) of
     None \<Rightarrow> (Ok \<lparr>pd_WorkloadID = wl_ID w, pd_FailureProb = Fin 0, pd_Predicted = False, pd_MitigationAction = [], pd_Features = []\<rparr>, s)
   | Some cfg \<Rightarrow>
       if \<not> fp_Enabled cfg
       then (Ok \<lparr>pd_WorkloadID = wl_ID w, pd_FailureProb = Fin 0, pd_Predicted = False, pd_MitigationAction = [], pd_Features = []\<rparr>, s)
       else
         let (features, s1) = extractFeatures w s
         in case model (getFeatureValues (fp_Features cfg) features) of
              Inl err \<Rightarrow> (Err (Wrapf ''prediction failed: %w'' [] err), s1)
            | Inr prob \<Rightarrow>
                let predicted = f64_ge prob (effective_threshold (fp_Threshold cfg))
                in (Ok \<lparr>pd_WorkloadID = wl_ID w, pd_FailureProb = prob, pd_Predicted = predicted,
                     pd_MitigationAction = (if predicted then selectMitigationAction (fp_MitigationActions cfg) else []),
                     pd_Features = features\<rparr>, s1))"

section \<open>The heuristic model\<close>

definition usage_factor :: "float64 \<Rightarrow> float64 \<Rightarrow> float64" where
  \<comment> \<open>the CPU and the memory block\<close>
  "usage_factor usage prob =
     (if f64_lt (decimal 9 10) usage then f64_add prob (decimal 4 10)
      else if f64_lt (decimal 8 10) usage then f64_add prob (decimal 2 10)
      else prob)"

definition rate_factor :: "float64 \<Rightarrow> float64 \<Rightarrow> float64" where
  "rate_factor rate prob = (if f64_lt (Fin 1000) rate then f64_add prob (decimal 1 10) else prob)"

definition error_factor :: "float64 \<Rightarrow> float64 \<Rightarrow> float64" where
  "error_factor rate prob =
     (if f64_lt (Fin 5) rate then f64_add prob (decimal 3 10)
      else if f64_lt (Fin 1) rate then f64_add prob (decimal 1 10)
      else prob)"

definition cap_one :: "float64 \<Rightarrow> float64" where
  "cap_one prob = (if f64_lt (Fin 1) prob then Fin 1 else prob)"

definition SimpleModel_Predict :: Predict where
  "SimpleModel_Predict features =
     (case features of
        cpuUsage # memoryUsage # requestRate # errorRate # _ \<Rightarrow>
          Ok (cap_one (error_factor errorRate (rate_factor requestRate (usage_factor memoryUsage (usage_factor cpuUsage (Fin 0))))))
      | _ \<Rightarrow> Err (Errorf ''need at least 4 features'' []))"

section \<open>Training data and the weighted model\<close>

record TrainingData =
  td_Features :: "float64 list"
  td_Failed :: bool
  td_FailureType :: string
  td_Timestamp :: gotime

definition collector_Collect :: "bool \<Rightarrow> string \<Rightarrow> TrainingData list \<Rightarrow> world \<Rightarrow> TrainingData list \<times> world" where
  "collector_Collect failed failureType data s =
     (let (now, s1) = time_Now s
      in (data @ [\<lparr>td_Features = [decimal 6 10, decimal 7 10, Fin 100, decimal 1 10], td_Failed = failed,
                   td_FailureType = failureType, td_Timestamp = now\<rparr>], s1))"

record MockMLModel =
  mm_weights :: "float64 list"
  mm_bias :: float64

definition NewMockMLModel :: MockMLModel where
  "NewMockMLModel = \<lparr>mm_weights = [decimal 3 10, decimal 3 10, decimal 2 10, decimal 2 10], mm_bias = decimal 1 10\<rparr>"

fun weighted_sum :: "float64 \<Rightarrow> (float64 \<times> float64) list \<Rightarrow> float64" where
  "weighted_sum acc [] = acc"
| "weighted_sum acc ((x, w) # ps) = weighted_sum (f64_add acc (f64_mul x w)) ps"

definition Mock_Predict :: "(float64 \<Rightarrow> float64) \<Rightarrow> MockMLModel \<Rightarrow> Predict" where
  "Mock_Predict exp64 m features =
     (if length features \<noteq> length (mm_weights m) then Err (Errorf ''feature count mismatch'' [])
      else Ok (f64_recip1 (f64_add (Fin 1) (exp64 (f64_neg (weighted_sum (mm_bias m) (zip features (mm_weights m))))))))"

definition learn :: "(float64 \<Rightarrow> float64) \<Rightarrow> TrainingData \<Rightarrow> MockMLModel \<Rightarrow> MockMLModel option" where
  \<comment> \<open>one sample; \<open>None\<close> is the index panic of \<open>d.Features[i]\<close>; a failed prediction counts as 0\<close>
  "learn exp64 d m =
     (let pred = (case Mock_Predict exp64 m (td_Features d) of Inl _ \<Rightarrow> Fin 0 | Inr p \<Rightarrow> p);
          err = f64_add (if td_Failed d then Fin 1 else Fin 0) (f64_neg pred);
          rate = f64_mul (decimal 1 100) err
      in if length (td_Features d) < length (mm_weights m) then None
         else Some \<lparr>mm_weights = map2 (\<lambda>w x. f64_add w (f64_mul rate x)) (mm_weights m) (td_Features d),
                    mm_bias = f64_add (mm_bias m) rate\<rparr>)"

fun learn_all :: "(float64 \<Rightarrow> float64) \<Rightarrow> TrainingData list \<Rightarrow> MockMLModel \<Rightarrow> MockMLModel option" where
  "learn_all exp64 [] m = Some m"
| "learn_all exp64 (d # ds) m = (case learn exp64 d m of None \<Rightarrow> None | Some m1 \<Rightarrow> learn_all exp64 ds m1)"

fun run_epochs :: "nat \<Rightarrow> (float64 \<Rightarrow> float64) \<Rightarrow> TrainingData list \<Rightarrow> MockMLModel \<Rightarrow> MockMLModel option" where
  "run_epochs 0 exp64 data m = Some m"
| "run_epochs (Suc n) exp64 data m = (case learn_all exp64 data m of None \<Rightarrow> None | Some m1 \<Rightarrow> run_epochs n exp64 data m1)"

definition Mock_Train :: "(float64 \<Rightarrow> float64) \<Rightarrow> TrainingData list \<Rightarrow> MockMLModel \<Rightarrow> MockMLModel option" where
  "Mock_Train exp64 data m = run_epochs 10 exp64 data m"

definition SimpleModel_Train :: "TrainingData list \<Rightarrow> error option" where
  "SimpleModel_Train data = None"

definition predictor_Train :: "(TrainingData list \<Rightarrow> error option) \<Rightarrow> TrainingData list \<Rightarrow> error option" where
  "predictor_Train train data = map_option (Wrapf ''failed to train model: %w'' []) (train data)"

section \<open>The heuristic model\<close>

lemma decimal_nonneg [simp]: "0 \<le> n \<Longrightarrow> 0 < d \<Longrightarrow> f64_nonneg (decimal n d)"
  by (simp add: decimal_def f64_round_nonneg)

lemma decimal_mono [simp]: "0 \<le> m \<Longrightarrow> m \<le> n \<Longrightarrow> 0 < d \<Longrightarrow> f64_ge (decimal n d) (decimal m d)"
  by (simp add: decimal_def f64_round_mono divide_right_mono)

lemma f64_ge_refl: "f64_nonneg x \<Longrightarrow> f64_ge x x"
  by (elim f64_nonneg_cases) simp_all

lemma f64_lt_ge_trans: "f64_lt c x \<Longrightarrow> f64_ge x' x \<Longrightarrow> f64_lt c x'"
  by (cases c; cases x; cases x') (auto simp: f64_ge_def)

definition graded :: "float64 \<Rightarrow> float64 \<Rightarrow> float64 \<Rightarrow> float64 \<Rightarrow> float64 \<Rightarrow> float64 \<Rightarrow> float64" where
  \<comment> \<open>the shape of all four blocks: a large weight above one limit, a small one above a lower limit\<close>
  "graded hi lo big small x prob = (if f64_lt hi x then f64_add prob big else if f64_lt lo x then f64_add prob small else prob)"

lemma factors_graded:
  "usage_factor = graded (decimal 9 10) (decimal 8 10) (decimal 4 10) (decimal 2 10)"
  "rate_factor = graded (Fin 1000) (Fin 1000) (decimal 1 10) (decimal 1 10)"
  "error_factor = graded (Fin 5) (Fin 1) (decimal 3 10) (decimal 1 10)"
  by (simp_all add: fun_eq_iff graded_def usage_factor_def rate_factor_def error_factor_def)

definition sum_ok :: "float64 \<Rightarrow> bool" where
  "sum_ok x = (f64_nonneg x \<and> f64_exact x)"

lemma graded_ok: "sum_ok p \<Longrightarrow> f64_nonneg big \<Longrightarrow> f64_nonneg small \<Longrightarrow> sum_ok (graded hi lo big small x p)"
  by (simp add: sum_ok_def graded_def f64_add_nonneg f64_add_exact)

lemma graded_mono:
  assumes "f64_ge x' x" "f64_ge p' p" "sum_ok p" "sum_ok p'" "f64_ge big small" "f64_nonneg small" "f64_ge hi lo"
  shows "f64_ge (graded hi lo big small x' p') (graded hi lo big small x p)"
proof -
  have big: "f64_nonneg big" using assms(5,6) by (rule f64_ge_trans)
  have up: "f64_ge (f64_add p' w) p" if "f64_nonneg w" for w
    using that assms(4) by (intro f64_ge_trans [OF f64_add_increases assms(2)]) (simp_all add: sum_ok_def)
  have add: "f64_ge (f64_add p' w') (f64_add p w)" if "f64_ge w' w" "f64_nonneg w" for w w'
    using that assms(2,3) by (intro f64_add_mono) (simp_all add: sum_ok_def)
  have "f64_lt lo x'" if "f64_lt hi x'"
    using that assms(7) by (cases lo; cases hi; cases x') (auto simp: f64_ge_def)
  then show ?thesis
    using f64_lt_ge_trans [OF _ assms(1)] up [OF big] up [OF assms(6)] add [OF f64_ge_refl [OF big] big] add [OF assms(5,6)]
      add [OF f64_ge_refl [OF assms(6)] assms(6)] assms(2)
    by (auto simp: graded_def)
qed

lemma cap_one_unit: "sum_ok x \<Longrightarrow> \<exists>p. cap_one x = Fin p \<and> 0 \<le> p \<and> p \<le> 1"
  by (auto simp: sum_ok_def cap_one_def elim!: f64_nonneg_cases)

lemma cap_one_mono: "f64_ge y x \<Longrightarrow> sum_ok x \<Longrightarrow> f64_ge (cap_one y) (cap_one x)"
proof -
  assume a: "f64_ge y x" "sum_ok x"
  then have "f64_nonneg x" "f64_nonneg y" using f64_ge_trans [of y x "Fin 0"] by (auto simp: sum_ok_def)
  then show ?thesis using a(1) by (elim f64_nonneg_cases) (simp_all add: cap_one_def)
qed

definition heuristic :: "float64 \<Rightarrow> float64 \<Rightarrow> float64 \<Rightarrow> float64 \<Rightarrow> float64" where
  "heuristic c m r e = error_factor e (rate_factor r (usage_factor m (usage_factor c (Fin 0))))"

lemma sum_ok_zero: "sum_ok (Fin 0)"
  by (simp add: sum_ok_def f64_exact_def f64_round_def)

lemma heuristic_ok: "sum_ok (heuristic c m r e)"
  unfolding heuristic_def factors_graded by (intro graded_ok sum_ok_zero) simp_all

lemma heuristic_mono:
  assumes "f64_ge c' c" "f64_ge m' m" "f64_ge r' r" "f64_ge e' e"
  shows "f64_ge (heuristic c' m' r' e') (heuristic c m r e)"
  unfolding heuristic_def factors_graded using assms by (intro graded_mono graded_ok sum_ok_zero) simp_all

lemma four_features: "4 \<le> length fs \<longleftrightarrow> (\<exists>c m r e xs. fs = c # m # r # e # xs)"
  by (auto simp: Suc_le_length_iff eval_nat_numeral)

lemma SimpleModel_heuristic: "SimpleModel_Predict (c # m # r # e # xs) = Ok (cap_one (heuristic c m r e))"
  by (simp add: SimpleModel_Predict_def heuristic_def)

text \<open>
  C36. The heuristic model is a monotone probability: it refuses exactly the inputs with fewer than
  four features; for all others, whatever the values, infinities and NaN included, it answers a
  number between 0 and 1, and raising CPU usage, memory usage, request rate or error rate never
  lowers it, the rounding of the sums included.
\<close>

theorem heuristic_is_monotone_probability:
  assumes "list_all2 f64_ge gs fs"
  shows "(if length fs < 4 then SimpleModel_Predict fs = Err (Errorf ''need at least 4 features'' [])
     else \<exists>p q. SimpleModel_Predict fs = Ok (Fin p) \<and> SimpleModel_Predict gs = Ok (Fin q) \<and> 0 \<le> p \<and> p \<le> q \<and> q \<le> 1) \<and>
   (if length hs < 4 then SimpleModel_Predict hs = Err (Errorf ''need at least 4 features'' [])
     else \<exists>p. SimpleModel_Predict hs = Ok (Fin p) \<and> 0 \<le> p \<and> p \<le> 1)"
proof -
  have few: "SimpleModel_Predict xs = Err (Errorf ''need at least 4 features'' [])" if "length xs < 4" for xs
    using that by (auto simp: SimpleModel_Predict_def split: list.split)
  have unit: "\<exists>p. SimpleModel_Predict xs = Ok (Fin p) \<and> 0 \<le> p \<and> p \<le> 1" if "4 \<le> length xs" for xs
    using that cap_one_unit [OF heuristic_ok] by (auto simp: four_features SimpleModel_heuristic)
  have "\<exists>p q. SimpleModel_Predict fs = Ok (Fin p) \<and> SimpleModel_Predict gs = Ok (Fin q) \<and> 0 \<le> p \<and> p \<le> q \<and> q \<le> 1" if len: "4 \<le> length fs"
  proof -
    obtain c m r e xs where fs: "fs = c # m # r # e # xs" using four_features [THEN iffD1, OF len] by blast
    obtain c' m' r' e' ys where gs: "gs = c' # m' # r' # e' # ys" and ge: "f64_ge c' c" "f64_ge m' m" "f64_ge r' r" "f64_ge e' e"
      using assms by (auto simp: fs list_all2_Cons2)
    obtain p q where p: "cap_one (heuristic c m r e) = Fin p" "0 \<le> p" "cap_one (heuristic c' m' r' e') = Fin q" "q \<le> 1"
      using cap_one_unit [OF heuristic_ok] by metis
    have "p \<le> q" using cap_one_mono [OF heuristic_mono [OF ge] heuristic_ok] p by simp
    then show ?thesis using p by (simp add: SimpleModel_heuristic fs gs)
  qed
  then show ?thesis using few unit by simp
qed

section \<open>Prediction with the simulated features\<close>

definition simulated_prob :: "WorkloadPhase \<Rightarrow> float64" where
  "simulated_prob ph = (if ph = WorkloadPhaseFailed then decimal 3 10 else if ph = WorkloadPhaseDegraded then decimal 1 10 else Fin 0)"

lemma literals:
  "\<not> f64_lt (decimal 8 10) (decimal 5 10)" "\<not> f64_lt (decimal 8 10) (decimal 6 10)" "\<not> f64_lt (decimal 8 10) (decimal 7 10)"
  "\<not> f64_lt (decimal 9 10) (decimal 5 10)" "\<not> f64_lt (decimal 9 10) (decimal 6 10)" "\<not> f64_lt (decimal 9 10) (decimal 7 10)"
  "\<not> f64_lt (Fin 1) (decimal 1 10)" "\<not> f64_lt (Fin 5) (decimal 1 10)"
  "f64_add (Fin 0) (decimal 3 10) = decimal 3 10" "f64_add (Fin 0) (decimal 1 10) = decimal 1 10"
  "\<not> f64_lt (Fin 1) (decimal 3 10)"
  "\<not> f64_ge (decimal 3 10) (decimal 7 10)" "\<not> f64_ge (decimal 1 10) (decimal 7 10)" "\<not> f64_ge (Fin 0) (decimal 7 10)"
  by code_simp+

lemma usage_quiet: "usage_factor (simulateCPUUsage w) p = p" "usage_factor (simulateMemoryUsage w) p = p"
  by (simp_all add: usage_factor_def simulateCPUUsage_def simulateMemoryUsage_def literals)

lemma simulated_heuristic:
  "cap_one (heuristic (simulateCPUUsage w) (simulateMemoryUsage w) (simulateRequestRate w) (simulateErrorRate w)) = simulated_prob (phase w)"
  by (simp add: heuristic_def usage_quiet rate_factor_def simulateRequestRate_def simulateErrorRate_def error_factor_def cap_one_def
      simulated_prob_def literals)

text \<open>
  With the simulated features and the default feature order, the prediction says nothing but the
  phase: a failed workload gets probability 0.3, a degraded one 0.1 and any other 0, so a failure
  is predicted exactly when the configured threshold is not above that, and never at the
  default threshold of 0.7, not even for a workload that has failed.
\<close>

theorem simulated_prediction_is_the_phase:
  assumes "sp_FailurePrediction (wl_Spec w) = Some cfg" "fp_Enabled cfg" "fp_Features cfg = []"
  shows "\<exists>res s'. PredictFailure SimpleModel_Predict w s = (Ok res, s') \<and> pd_WorkloadID res = wl_ID w \<and>
    pd_FailureProb res = simulated_prob (phase w) \<and>
    pd_Predicted res = (fp_Threshold cfg \<noteq> Fin 0 \<and> f64_ge (simulated_prob (phase w)) (fp_Threshold cfg)) \<and>
    pd_MitigationAction res = (if pd_Predicted res then selectMitigationAction (fp_MitigationActions cfg) else [])"
proof -
  obtain features s1 where f: "extractFeatures w s = (features, s1)" by fastforce
  have v: "getFeatureValues [] features =
      [simulateCPUUsage w, simulateMemoryUsage w, simulateRequestRate w, simulateErrorRate w]"
    using f by (auto simp: extractFeatures_def getFeatureValues_def feature_def split_beta Let_def)
  have d: "\<not> f64_ge (simulated_prob (phase w)) (decimal 7 10)" by (simp add: simulated_prob_def literals)
  have "SimpleModel_Predict (getFeatureValues [] features) = Ok (simulated_prob (phase w))"
    unfolding v SimpleModel_heuristic simulated_heuristic ..
  then show ?thesis
    using assms d by (simp add: PredictFailure_def f effective_threshold_def Let_def)
qed

section \<open>Training\<close>

lemma learn_cases:
  "learn exp64 d m = None \<longleftrightarrow> length (td_Features d) < length (mm_weights m)"
  "learn exp64 d m = Some m' \<Longrightarrow> length (mm_weights m') = length (mm_weights m)"
  by (auto simp: learn_def Let_def split: if_splits)

lemma learn_all_length: "learn_all exp64 data m = Some m' \<Longrightarrow> length (mm_weights m') = length (mm_weights m)"
  by (induction data arbitrary: m) (auto dest: learn_cases(2) split: option.splits)

lemma learn_all_None: "learn_all exp64 data m = None \<longleftrightarrow> (\<exists>d \<in> set data. length (td_Features d) < length (mm_weights m))"
proof (induction data arbitrary: m)
  case (Cons d data)
  then show ?case
    using learn_cases(1) [of exp64 d m] learn_cases(2) [of exp64 d m] by (cases "learn exp64 d m") auto
qed simp

lemma run_epochs_length: "run_epochs n exp64 data m = Some m' \<Longrightarrow> length (mm_weights m') = length (mm_weights m)"
  by (induction n arbitrary: m) (auto dest: learn_all_length split: option.splits)

lemma run_epochs_None:
  "run_epochs n exp64 data m = None \<longleftrightarrow> 0 < n \<and> (\<exists>d \<in> set data. length (td_Features d) < length (mm_weights m))"
proof (induction n arbitrary: m)
  case (Suc n)
  then show ?case
    using learn_all_None [of exp64 data m] learn_all_length [of exp64 data m] by (cases "learn_all exp64 data m") auto
qed simp

text \<open>
  Training panics exactly when a sample has fewer features than the model has weights, and
  otherwise keeps the number of weights; samples with more features are trained on although
  the model refuses to predict them.
\<close>

theorem training_panics_exactly:
  "(Mock_Train exp64 data m = None \<longleftrightarrow> (\<exists>d \<in> set data. length (td_Features d) < length (mm_weights m))) \<and>
   (\<forall>m'. Mock_Train exp64 data m = Some m' \<longrightarrow> length (mm_weights m') = length (mm_weights m))"
  using run_epochs_None [of 10 exp64 data m] run_epochs_length [of 10 exp64 data m] by (auto simp: Mock_Train_def simp del: run_epochs.simps)

section \<open>Witnesses\<close>

definition predicted_workload :: "float64 \<Rightarrow> Workload" where
  "predicted_workload t = zero_workload\<lparr>wl_ID := ''a'', wl_Spec := zero_spec\<lparr>sp_FailurePrediction := Some
     \<lparr>fp_Enabled = True, fp_ModelType = [], fp_PredictionWindow = [], fp_Threshold = t, fp_Features = [], fp_MitigationActions = []\<rparr>\<rparr>,
     wl_Status := zero_status\<lparr>st_Phase := WorkloadPhaseFailed\<rparr>\<rparr>"

theorem simulated_prediction_is_the_phase_witness:
  "\<exists>res s'. PredictFailure SimpleModel_Predict (predicted_workload (Fin 0)) (empty_world (eventsourcing_New True 0)) = (Ok res, s') \<and>
     pd_FailureProb res = decimal 3 10 \<and> \<not> pd_Predicted res"
  using simulated_prediction_is_the_phase [of "predicted_workload (Fin 0)" _ "empty_world (eventsourcing_New True 0)"]
  by (force simp: predicted_workload_def simulated_prob_def)

theorem heuristic_is_monotone_probability_witness:
  "\<exists>p q. SimpleModel_Predict [Fin 0, Fin 0, Fin 0, Fin 2] = Ok (Fin p) \<and>
     SimpleModel_Predict [Fin 1, PosInf, Fin 0, Fin 2] = Ok (Fin q) \<and> 0 \<le> p \<and> p \<le> q \<and> q \<le> 1"
  using heuristic_is_monotone_probability [of "[Fin 1, PosInf, Fin 0, Fin 2]" "[Fin 0, Fin 0, Fin 0, Fin 2]" "[]"] by simp

end
