(* ===== verification/EventBusThreads.thy ===== *)
theory EventBusThreads
  imports EventBus
begin

text \<open>
  \<open>internal/eventbus/eventbus.go\<close> below the level of its mutex. Theory \<open>EventBus\<close> takes every
  method as one step; here a publisher is a goroutine of its own: it copies the slice header of
  its event type under the read lock, releases the lock, and then reads and serves one
  subscriber after the other while other goroutines subscribe, unsubscribe, publish and receive.

  A slice is an array with a length. \<open>append\<close> writes into the array while the capacity lasts and
  copies otherwise (how far a copy grows is the parameter \<open>grow\<close>); \<open>Unsubscribe\<close> moves the tail
  of the array down in place, so a publisher that holds the old header sees the move. A send on
  a closed channel panics and ends the process. \<open>Subscribe\<close> and \<open>Unsubscribe\<close> hold the write
  lock throughout and are one step each.

  The lemmas: on one goroutine the slices behave as the lists of \<open>EventBus\<close>; a publisher offers
  its event once to each channel subscribed when it started, and does not panic, as long as
  nobody unsubscribes from that event type meanwhile; when somebody does, it may skip a
  subscriber, serve one twice, or panic.
\<close>

section \<open>Memory\<close>

record slice =
  sl_arr :: nat
  sl_len :: nat

record bus_mem =
  bm_cells :: "nat \<Rightarrow> nat list"
  bm_cap :: "nat \<Rightarrow> nat"
  bm_arrs :: nat
  bm_subs :: "(EventType, slice) gomap"
  bm_chans :: "nat \<Rightarrow> Event chan"
  bm_closed :: "nat \<Rightarrow> bool"
  bm_next :: nat
  bm_bufferSize :: nat

definition elems :: "bus_mem \<Rightarrow> slice \<Rightarrow> nat list" where
  "elems m sl = take (sl_len sl) (bm_cells m (sl_arr sl))"

definition live :: "bus_mem \<Rightarrow> EventType \<Rightarrow> nat list" where
  "live m t = (case map_of (bm_subs m) t of None \<Rightarrow> [] | Some sl \<Rightarrow> elems m sl)"

definition new_array :: "(nat \<Rightarrow> nat) \<Rightarrow> nat list \<Rightarrow> bus_mem \<Rightarrow> slice \<times> bus_mem" where
  "new_array grow xs m =
     (\<lparr>sl_arr = bm_arrs m, sl_len = length xs\<rparr>,
      m\<lparr>bm_cells := (bm_cells m)(bm_arrs m := xs), bm_cap := (bm_cap m)(bm_arrs m := max (length xs) (grow (length xs))),
        bm_arrs := Suc (bm_arrs m)\<rparr>)"

definition go_append :: "(nat \<Rightarrow> nat) \<Rightarrow> slice option \<Rightarrow> nat \<Rightarrow> bus_mem \<Rightarrow> slice \<times> bus_mem" where
  "go_append grow so c m = (case so of
     None \<Rightarrow> new_array grow [c] m
   | Some sl \<Rightarrow>
       let xs = bm_cells m (sl_arr sl)
       in if sl_len sl < bm_cap m (sl_arr sl)
          then (sl\<lparr>sl_len := Suc (sl_len sl)\<rparr>,
                m\<lparr>bm_cells := (bm_cells m)(sl_arr sl := take (sl_len sl) xs @ c # drop (Suc (sl_len sl)) xs)\<rparr>)
          else new_array grow (elems m sl @ [c]) m)"

fun position :: "nat \<Rightarrow> nat list \<Rightarrow> nat option" where
  "position c [] = None"
| "position c (x # xs) = (if x = c then Some 0 else map_option Suc (position c xs))"

definition cut_in_place :: "nat \<Rightarrow> nat \<Rightarrow> nat list \<Rightarrow> nat list" where
  \<comment> \<open>the array after \<open>append(channels[:i], channels[i+1:]...)\<close> on a slice of length \<open>n\<close>\<close>
  "cut_in_place i n xs = take i xs @ drop (Suc i) (take n xs) @ drop (n - 1) xs"

section \<open>The methods\<close>

definition bus_init :: "nat \<Rightarrow> bus_mem" where
  "bus_init bufferSize = \<lparr>bm_cells = (\<lambda>_. []), bm_cap = (\<lambda>_. 0), bm_arrs = 0, bm_subs = [], bm_chans = (\<lambda>i. make_chan i bufferSize),
     bm_closed = (\<lambda>_. False), bm_next = 0, bm_bufferSize = bufferSize\<rparr>"

definition bus_Subscribe :: "(nat \<Rightarrow> nat) \<Rightarrow> EventType \<Rightarrow> bus_mem \<Rightarrow> nat \<times> bus_mem" where
  "bus_Subscribe grow t m =
     (let c = bm_next m;
          m1 = m\<lparr>bm_chans := (bm_chans m)(c := make_chan c (bm_bufferSize m)), bm_next := Suc c\<rparr>;
          (sl, m2) = go_append grow (map_of (bm_subs m1) t) c m1
      in (c, m2\<lparr>bm_subs := AList.update t sl (bm_subs m2)\<rparr>))"

definition bus_Unsubscribe :: "EventType \<Rightarrow> nat \<Rightarrow> bus_mem \<Rightarrow> bus_mem" where
  "bus_Unsubscribe t c m = (case map_of (bm_subs m) t of
     None \<Rightarrow> m
   | Some sl \<Rightarrow>
       (case position c (elems m sl) of
          None \<Rightarrow> m
        | Some i \<Rightarrow>
            m\<lparr>bm_cells := (bm_cells m)(sl_arr sl := cut_in_place i (sl_len sl) (bm_cells m (sl_arr sl))),
              bm_subs := AList.update t (sl\<lparr>sl_len := sl_len sl - 1\<rparr>) (bm_subs m),
              bm_closed := (bm_closed m)(c := True)\<rparr>))"

section \<open>Publishers\<close>

datatype publisher =
    Ready bool Event
  | Looping bool Event slice "nat list"
  | Sending bool Event slice "nat list" nat
  | Returned Event "nat list" bool
  | Panicked

definition snapshot :: "EventType \<Rightarrow> bus_mem \<Rightarrow> slice" where
  "snapshot t m = (case map_of (bm_subs m) t of None \<Rightarrow> \<lparr>sl_arr = 0, sl_len = 0\<rparr> | Some sl \<Rightarrow> sl)"

text \<open>
  The flag tells \<open>PublishAsync\<close> from \<open>Publish\<close>; the list holds the channels served so far, its
  length is the loop index. \<open>rendezvous\<close> is a send on an unbuffered channel whose receiver waits.
\<close>

inductive publisher_step :: "publisher \<Rightarrow> bus_mem \<Rightarrow> publisher \<Rightarrow> bus_mem \<Rightarrow> bool" where
  take_header: "publisher_step (Ready async ev) m (Looping async ev (snapshot (ev_Type ev) m) []) m"
| read_channel: "length served < sl_len sl \<Longrightarrow>
    publisher_step (Looping async ev sl served) m (Sending async ev sl served (bm_cells m (sl_arr sl) ! length served)) m"
| return_nil: "length served = sl_len sl \<Longrightarrow> publisher_step (Looping async ev sl served) m (Returned ev served True) m"
| send_closed: "bm_closed m c \<Longrightarrow> publisher_step (Sending async ev sl served c) m Panicked m"
| send_buffered: "\<not> bm_closed m c \<Longrightarrow> has_room (bm_chans m c) \<Longrightarrow>
    publisher_step (Sending async ev sl served c) m (Looping async ev sl (served @ [c]))
      (m\<lparr>bm_chans := (bm_chans m)(c := try_send ev (bm_chans m c))\<rparr>)"
| rendezvous: "\<not> bm_closed m c \<Longrightarrow> ch_cap (bm_chans m c) = 0 \<Longrightarrow>
    publisher_step (Sending async ev sl served c) m (Looping async ev sl (served @ [c])) m"
| drop_full: "async \<Longrightarrow> \<not> bm_closed m c \<Longrightarrow> \<not> has_room (bm_chans m c) \<Longrightarrow>
    publisher_step (Sending async ev sl served c) m (Looping async ev sl (served @ [c])) m"
| return_ctx_err: "\<not> async \<Longrightarrow> publisher_step (Sending async ev sl served c) m (Returned ev served False) m"

inductive_cases publisher_stepE: "publisher_step p m p' m'"
inductive_cases ready_stepE [elim!]: "publisher_step (Ready async ev) m p' m'"
inductive_cases looping_stepE [elim!]: "publisher_step (Looping async ev sl served) m p' m'"
inductive_cases sending_stepE [elim!]: "publisher_step (Sending async ev sl served c) m p' m'"
inductive_cases stopped_stepE [elim!]: "publisher_step (Returned ev served ok) m p' m'" "publisher_step Panicked m p' m'"

section \<open>The goroutines together\<close>

record bus_sys =
  bs_mem :: bus_mem
  bs_pubs :: "publisher list"

datatype bus_act = ASubscribe EventType | AUnsubscribe EventType nat | AReceive nat | APublish bool Event | AStep nat

inductive bus_step :: "(nat \<Rightarrow> nat) \<Rightarrow> bus_act \<Rightarrow> bus_sys \<Rightarrow> bus_sys \<Rightarrow> bool" for grow where
  subscribe: "Panicked \<notin> set (bs_pubs S) \<Longrightarrow>
    bus_step grow (ASubscribe t) S (S\<lparr>bs_mem := snd (bus_Subscribe grow t (bs_mem S))\<rparr>)"
| unsubscribe: "Panicked \<notin> set (bs_pubs S) \<Longrightarrow>
    bus_step grow (AUnsubscribe t c) S (S\<lparr>bs_mem := bus_Unsubscribe t c (bs_mem S)\<rparr>)"
| receive: "Panicked \<notin> set (bs_pubs S) \<Longrightarrow> ch_buf (bm_chans (bs_mem S) c) = x # xs \<Longrightarrow>
    bus_step grow (AReceive c) S
      (S\<lparr>bs_mem := (bs_mem S)\<lparr>bm_chans := (bm_chans (bs_mem S))(c := (bm_chans (bs_mem S) c)\<lparr>ch_buf := xs\<rparr>)\<rparr>\<rparr>)"
| publish: "Panicked \<notin> set (bs_pubs S) \<Longrightarrow> bus_step grow (APublish async ev) S (S\<lparr>bs_pubs := bs_pubs S @ [Ready async ev]\<rparr>)"
| publisher: "Panicked \<notin> set (bs_pubs S) \<Longrightarrow> k < length (bs_pubs S) \<Longrightarrow> publisher_step (bs_pubs S ! k) (bs_mem S) p m \<Longrightarrow>
    bus_step grow (AStep k) S (S\<lparr>bs_mem := m, bs_pubs := (bs_pubs S)[k := p]\<rparr>)"

inductive_cases bus_stepE: "bus_step grow act S S'"

inductive bus_run :: "(nat \<Rightarrow> nat) \<Rightarrow> bus_act list \<Rightarrow> bus_sys \<Rightarrow> bus_sys \<Rightarrow> bool" for grow where
  run_nil: "bus_run grow [] S S"
| run_cons: "bus_step grow act S S1 \<Longrightarrow> bus_run grow acts S1 S2 \<Longrightarrow> bus_run grow (act # acts) S S2"

inductive_cases run_consE: "bus_run grow (act # acts) S S2"

section \<open>The memory invariant\<close>

definition mem_inv :: "bus_mem \<Rightarrow> bool" where
  "mem_inv m = (wf_map (bm_subs m) \<and>
     (\<forall>t sl. map_of (bm_subs m) t = Some sl \<longrightarrow> sl_len sl \<le> length (bm_cells m (sl_arr sl)) \<and> sl_arr sl < bm_arrs m) \<and>
     (\<forall>t t' sl sl'. map_of (bm_subs m) t = Some sl \<and> map_of (bm_subs m) t' = Some sl' \<and> sl_arr sl = sl_arr sl' \<longrightarrow> t = t') \<and>
     (\<forall>t. distinct (live m t) \<and> (\<forall>c \<in> set (live m t). c < bm_next m \<and> \<not> bm_closed m c)) \<and>
     (\<forall>t t' c. c \<in> set (live m t) \<and> c \<in> set (live m t') \<longrightarrow> t = t') \<and>
     (\<forall>c. bm_closed m c \<longrightarrow> c < bm_next m) \<and>
     (\<forall>c. chan_ok (bm_chans m c) \<and> ch_id (bm_chans m c) = c \<and> ch_cap (bm_chans m c) = bm_bufferSize m))"


lemma mem_invD:
  assumes "mem_inv m"
  shows "wf_map (bm_subs m)" "map_of (bm_subs m) t = Some sl \<Longrightarrow> sl_len sl \<le> length (bm_cells m (sl_arr sl))"
    "map_of (bm_subs m) t = Some sl \<Longrightarrow> sl_arr sl < bm_arrs m"
    "map_of (bm_subs m) t = Some sl \<Longrightarrow> map_of (bm_subs m) t' = Some sl' \<Longrightarrow> sl_arr sl = sl_arr sl' \<Longrightarrow> t = t'"
    "distinct (live m t)" "c \<in> set (live m t) \<Longrightarrow> c < bm_next m" "c \<in> set (live m t) \<Longrightarrow> \<not> bm_closed m c"
    "c \<in> set (live m t) \<Longrightarrow> c \<in> set (live m t') \<Longrightarrow> t = t'"
    "chan_ok (bm_chans m c)" "ch_id (bm_chans m c) = c" "ch_cap (bm_chans m c) = bm_bufferSize m"
    "bm_closed m c \<Longrightarrow> c < bm_next m"
  using assms unfolding mem_inv_def by blast+

lemma mem_inv_init: "mem_inv (bus_init n)"
  by (simp add: mem_inv_def bus_init_def live_def wf_map_def make_chan_def chan_ok_def)

lemma position_Some: "position c xs = Some i \<Longrightarrow> i < length xs \<and> xs ! i = c \<and> take i xs @ drop (Suc i) xs = remove1 c xs"
  by (induction xs arbitrary: i) (auto split: if_splits)

lemma position_None: "position c xs = None \<longleftrightarrow> c \<notin> set xs"
  by (induction xs) auto

lemma cut_in_place:
  assumes "position c (take n xs) = Some i" "n \<le> length xs"
  shows "take (n - 1) (cut_in_place i n xs) = remove1 c (take n xs)" "n - 1 \<le> length (cut_in_place i n xs)"
proof -
  have n: "i < n" using position_Some [OF assms(1)] assms(2) by simp
  then have "take i (take n xs) = take i xs" by (simp add: min_absorb1)
  then have i: "i < n" "take i xs @ drop (Suc i) (take n xs) = remove1 c (take n xs)"
    using position_Some [OF assms(1)] n by metis+
  have l: "length (take i xs @ drop (Suc i) (take n xs)) = n - 1" using i(1) assms(2) by simp
  have "cut_in_place i n xs = remove1 c (take n xs) @ drop (n - 1) xs"
    unfolding cut_in_place_def i(2) [symmetric] by simp
  moreover have "length (remove1 c (take n xs)) = n - 1" using l i(2) by metis
  ultimately show "take (n - 1) (cut_in_place i n xs) = remove1 c (take n xs)" "n - 1 \<le> length (cut_in_place i n xs)" by simp_all
qed

lemma go_append_frame [simp]:
  "bm_subs (snd (go_append grow so c m)) = bm_subs m" "bm_chans (snd (go_append grow so c m)) = bm_chans m"
  "bm_closed (snd (go_append grow so c m)) = bm_closed m" "bm_next (snd (go_append grow so c m)) = bm_next m"
  "bm_bufferSize (snd (go_append grow so c m)) = bm_bufferSize m"
  by (simp_all add: go_append_def new_array_def Let_def split: option.split)

text \<open>An append keeps what every header at most as long as the slice sees, and moves to a new array or stays.\<close>

lemma go_append:
  assumes "go_append grow so c m = (sl', m')" "\<And>sl. so = Some sl \<Longrightarrow> sl_len sl \<le> length (bm_cells m (sl_arr sl)) \<and> sl_arr sl < bm_arrs m"
  shows "elems m' sl' = (case so of None \<Rightarrow> [] | Some sl \<Rightarrow> elems m sl) @ [c]"
    "sl_len sl' \<le> length (bm_cells m' (sl_arr sl'))" "sl_arr sl' < bm_arrs m'" "bm_arrs m \<le> bm_arrs m'"
    "sl_arr sl' = bm_arrs m \<or> (\<exists>sl. so = Some sl \<and> sl_arr sl' = sl_arr sl \<and> sl_len sl' = Suc (sl_len sl))"
    "\<And>h. sl_arr h < bm_arrs m \<Longrightarrow> (\<And>sl. so = Some sl \<Longrightarrow> sl_arr sl = sl_arr h \<Longrightarrow> sl_len h \<le> sl_len sl) \<Longrightarrow> elems m' h = elems m h"
    "\<And>n. length (bm_cells m n) \<le> length (bm_cells m' n) \<or> n = bm_arrs m"
  using assms by (auto simp: go_append_def new_array_def elems_def Let_def split: option.splits if_splits)

lemma elems_frame [simp]:
  "elems (m\<lparr>bm_subs := x\<rparr>) h = elems m h" "elems (m\<lparr>bm_chans := y\<rparr>) h = elems m h" "elems (m\<lparr>bm_next := n\<rparr>) h = elems m h"
  "elems (m\<lparr>bm_closed := z\<rparr>) h = elems m h"
  by (simp_all add: elems_def)

lemma live_update [simp]:
  "live (m\<lparr>bm_subs := AList.update t sl (bm_subs m)\<rparr>) t' = (if t' = t then elems m sl else live m t')"
  by (simp add: live_def elems_def update_conv' split: option.split)

lemma live_frame [simp]:
  "live (m\<lparr>bm_chans := y\<rparr>) t = live m t" "live (m\<lparr>bm_next := n\<rparr>) t = live m t" "live (m\<lparr>bm_closed := z\<rparr>) t = live m t"
  by (simp_all add: live_def split: option.split)

lemma mem_inv_chans:
  assumes "mem_inv m" "\<And>c. chan_ok (f c) \<and> ch_id (f c) = c \<and> ch_cap (f c) = bm_bufferSize m"
  shows "mem_inv (m\<lparr>bm_chans := f\<rparr>)"
  using assms unfolding mem_inv_def by simp


definition outgrown :: "bus_mem \<Rightarrow> EventType \<Rightarrow> slice \<Rightarrow> bool" where
  \<comment> \<open>no append to the slice of type \<open>t\<close> writes where the header \<open>h\<close> looks\<close>
  "outgrown m t h = (sl_arr h < bm_arrs m \<and> (\<forall>sl. map_of (bm_subs m) t = Some sl \<longrightarrow> sl_arr sl = sl_arr h \<longrightarrow> sl_len h \<le> sl_len sl))"

lemma bus_Subscribe:
  fixes grow t
  assumes "mem_inv m"
  defines "m' \<equiv> snd (bus_Subscribe grow t m)"
  shows "fst (bus_Subscribe grow t m) = bm_next m" "bm_next m' = Suc (bm_next m)" "bm_closed m' = bm_closed m"
    "bm_bufferSize m' = bm_bufferSize m" "bm_chans m' = (bm_chans m)(bm_next m := make_chan (bm_next m) (bm_bufferSize m))"
    "live m' t' = (if t' = t then live m t @ [bm_next m] else live m t')"
    "bm_arrs m \<le> bm_arrs m'" "outgrown m t h \<Longrightarrow> elems m' h = elems m h"
    "\<exists>sl. bm_subs m' = AList.update t sl (bm_subs m) \<and> map_of (bm_subs m') = (map_of (bm_subs m))(t \<mapsto> sl) \<and> sl_len sl \<le> length (bm_cells m' (sl_arr sl)) \<and> sl_arr sl < bm_arrs m' \<and>
       (sl_arr sl = bm_arrs m \<or> (\<exists>sl0. map_of (bm_subs m) t = Some sl0 \<and> sl_arr sl = sl_arr sl0 \<and> sl_len sl = Suc (sl_len sl0)))"
    "wf_map (bm_subs m')" "length (bm_cells m n) \<le> length (bm_cells m' n) \<or> n = bm_arrs m"
proof -
  let ?m1 = "m\<lparr>bm_chans := (bm_chans m)(bm_next m := make_chan (bm_next m) (bm_bufferSize m)), bm_next := Suc (bm_next m)\<rparr>"
  let ?so = "map_of (bm_subs m) t"
  obtain sl m2 where a: "go_append grow ?so (bm_next m) ?m1 = (sl, m2)" by fastforce
  have so: "\<And>sl. ?so = Some sl \<Longrightarrow> sl_len sl \<le> length (bm_cells ?m1 (sl_arr sl)) \<and> sl_arr sl < bm_arrs ?m1"
    using mem_invD(2,3) [OF assms(1)] by simp
  have e: "\<And>h. elems ?m1 h = elems m h" by (simp add: elems_def)
  note g = go_append [OF a so]
  have fr: "bm_subs m2 = bm_subs m" "bm_chans m2 = bm_chans ?m1" "bm_closed m2 = bm_closed m" "bm_next m2 = Suc (bm_next m)"
    "bm_bufferSize m2 = bm_bufferSize m"
    using go_append_frame [of grow ?so "bm_next m" ?m1] a by simp_all
  have m': "m' = m2\<lparr>bm_subs := AList.update t sl (bm_subs m2)\<rparr>" "fst (bus_Subscribe grow t m) = bm_next m"
    using a by (simp_all add: m'_def bus_Subscribe_def Let_def)
  show "fst (bus_Subscribe grow t m) = bm_next m" "bm_next m' = Suc (bm_next m)" "bm_closed m' = bm_closed m"
    "bm_bufferSize m' = bm_bufferSize m" "bm_chans m' = (bm_chans m)(bm_next m := make_chan (bm_next m) (bm_bufferSize m))"
    "bm_arrs m \<le> bm_arrs m'" "length (bm_cells m n) \<le> length (bm_cells m' n) \<or> n = bm_arrs m"
    using m' fr g(4) g(7) [of n] by simp_all
  show h: "elems m' h = elems m h" if "outgrown m t h" for h
    using g(6) [of h] that e by (simp add: m'(1) outgrown_def)
  have other: "elems m2 sl' = elems m sl'" if "map_of (bm_subs m) t' = Some sl'" "t' \<noteq> t" for sl'
  proof -
    have "outgrown m t sl'" using mem_invD(3,4) [OF assms(1)] that unfolding outgrown_def by blast
    then show ?thesis using h [of sl'] by (simp add: m'(1))
  qed
  have "live m2 t' = live m t'" if "t' \<noteq> t" using other that by (simp add: live_def fr(1) split: option.split)
  then show "live m' t' = (if t' = t then live m t @ [bm_next m] else live m t')"
    using g(1) by (simp add: m'(1) live_def [of m t] e cong: option.case_cong)
  show "\<exists>sl. bm_subs m' = AList.update t sl (bm_subs m) \<and> map_of (bm_subs m') = (map_of (bm_subs m))(t \<mapsto> sl) \<and> sl_len sl \<le> length (bm_cells m' (sl_arr sl)) \<and> sl_arr sl < bm_arrs m' \<and>
       (sl_arr sl = bm_arrs m \<or> (\<exists>sl0. map_of (bm_subs m) t = Some sl0 \<and> sl_arr sl = sl_arr sl0 \<and> sl_len sl = Suc (sl_len sl0)))"
    using g(2,3,5) by (intro exI [of _ sl]) (simp add: m'(1) fr(1) update_conv')
  show "wf_map (bm_subs m')" using mem_invD(1) [OF assms(1)] by (simp add: m'(1) fr(1))
qed

lemma mem_inv_Subscribe:
  assumes "mem_inv m"
  shows "mem_inv (snd (bus_Subscribe grow t m))"
proof -
  let ?m = "snd (bus_Subscribe grow t m)"
  note s = bus_Subscribe [OF assms, where grow = grow and t = t]
  obtain sl where sl: "map_of (bm_subs ?m) = (map_of (bm_subs m))(t \<mapsto> sl)" "sl_len sl \<le> length (bm_cells ?m (sl_arr sl))" "sl_arr sl < bm_arrs ?m"
    "sl_arr sl = bm_arrs m \<or> (\<exists>sl0. map_of (bm_subs m) t = Some sl0 \<and> sl_arr sl = sl_arr sl0)" using s(9) by blast
  have old: "sl_len sl' \<le> length (bm_cells ?m (sl_arr sl'))" "sl_arr sl' < bm_arrs ?m" "sl_arr sl' \<noteq> sl_arr sl"
    if "map_of (bm_subs m) t' = Some sl'" "t' \<noteq> t" for t' sl'
    using mem_invD(2,3,4) [OF assms that(1)] s(7) s(11) [of "sl_arr sl'"] sl(4) that(2) by (auto dest: le_trans)
  have new: "bm_next m \<notin> set (live m t')" for t' using mem_invD(6) [OF assms] by blast
  show ?thesis
    unfolding mem_inv_def
  proof (intro conjI allI impI)
    show "wf_map (bm_subs ?m)" by (rule s(10))
  next
    fix t' sl' assume "map_of (bm_subs ?m) t' = Some sl'"
    then show "sl_len sl' \<le> length (bm_cells ?m (sl_arr sl'))" "sl_arr sl' < bm_arrs ?m"
      using sl old by (auto split: if_splits)
  next
    fix t' t'' sl' sl'' assume "map_of (bm_subs ?m) t' = Some sl' \<and> map_of (bm_subs ?m) t'' = Some sl'' \<and> sl_arr sl' = sl_arr sl''"
    then show "t' = t''" using sl(1) old(3) mem_invD(4) [OF assms] by (metis fun_upd_apply option.inject)
  next
    fix t' show "distinct (live ?m t')" using mem_invD(5) [OF assms] new by (simp add: s(6))
    show "\<forall>c\<in>set (live ?m t'). c < bm_next ?m \<and> \<not> bm_closed ?m c"
      using mem_invD(6,7) [OF assms] mem_invD(12) [OF assms, of "bm_next m"] by (auto simp: s(2,3,6) less_SucI)
  next
    fix t' t'' c assume "c \<in> set (live ?m t') \<and> c \<in> set (live ?m t'')"
    then show "t' = t''" using mem_invD(8) [OF assms] new by (auto simp: s(6) split: if_splits)
  next
    fix c assume "bm_closed ?m c"
    then show "c < bm_next ?m" using mem_invD(12) [OF assms] by (simp add: s(2,3) less_SucI)
  next
    fix c show "chan_ok (bm_chans ?m c)" "ch_id (bm_chans ?m c) = c" "ch_cap (bm_chans ?m c) = bm_bufferSize ?m"
      using mem_invD(9-11) [OF assms, of c] by (simp_all add: s(4,5) make_chan_def chan_ok_def)
  qed
qed


lemma bus_Unsubscribe_absent: "c \<notin> set (live m t) \<Longrightarrow> bus_Unsubscribe t c m = m"
  by (auto simp: bus_Unsubscribe_def live_def position_None [THEN iffD2] split: option.split)

lemma bus_Unsubscribe:
  fixes t c
  assumes "mem_inv m" "c \<in> set (live m t)"
  defines "m' \<equiv> bus_Unsubscribe t c m"
  obtains sl i where "map_of (bm_subs m) t = Some sl" "position c (elems m sl) = Some i"
    "bm_subs m' = AList.update t (sl\<lparr>sl_len := sl_len sl - 1\<rparr>) (bm_subs m)" "bm_closed m' = (bm_closed m)(c := True)"
    "bm_cells m' = (bm_cells m)(sl_arr sl := cut_in_place i (sl_len sl) (bm_cells m (sl_arr sl)))"
    "bm_chans m' = bm_chans m" "bm_next m' = bm_next m" "bm_bufferSize m' = bm_bufferSize m" "bm_arrs m' = bm_arrs m"
    "\<forall>t'. live m' t' = (if t' = t then remove1 c (live m t) else live m t')"
    "sl_len sl - 1 \<le> length (bm_cells m' (sl_arr sl))"
proof -
  obtain sl where sl: "map_of (bm_subs m) t = Some sl" "c \<in> set (elems m sl)"
    using assms(2) by (cases "map_of (bm_subs m) t") (auto simp: live_def)
  obtain i where i: "position c (elems m sl) = Some i" using sl(2) position_None [of c "elems m sl"] by auto
  have m': "m' = m\<lparr>bm_cells := (bm_cells m)(sl_arr sl := cut_in_place i (sl_len sl) (bm_cells m (sl_arr sl))),
      bm_subs := AList.update t (sl\<lparr>sl_len := sl_len sl - 1\<rparr>) (bm_subs m), bm_closed := (bm_closed m)(c := True)\<rparr>"
    by (simp add: m'_def bus_Unsubscribe_def sl(1) i)
  note cut = cut_in_place [OF i [unfolded elems_def] mem_invD(2) [OF assms(1) sl(1)]]
  have same: "elems m' sl' = elems m sl'" if "map_of (bm_subs m) t' = Some sl'" "t' \<noteq> t" for t' sl'
    using mem_invD(4) [OF assms(1) that(1) sl(1)] that(2) by (auto simp: m' elems_def)
  have live: "live m' t' = (if t' = t then remove1 c (live m t) else live m t')" for t'
  proof (cases "t' = t")
    case True
    then show ?thesis using cut(1) by (simp add: live_def m' update_conv' sl(1) elems_def)
  next
    case False
    then show ?thesis using same [of t'] by (simp add: live_def m' update_conv' split: option.split)
  qed
  show thesis by (rule that [OF sl(1) i]) (use live cut(2) in \<open>simp_all add: m'\<close>)
qed

lemma mem_inv_Unsubscribe:
  assumes "mem_inv m"
  shows "mem_inv (bus_Unsubscribe t c m)"
proof (cases "c \<in> set (live m t)")
  case True
  let ?m = "bus_Unsubscribe t c m"
  obtain sl i where u: "map_of (bm_subs m) t = Some sl" and "position c (elems m sl) = Some i" and u': "bm_subs ?m = AList.update t (sl\<lparr>sl_len := sl_len sl - 1\<rparr>) (bm_subs m)"
    "bm_closed ?m = (bm_closed m)(c := True)" "bm_cells ?m = (bm_cells m)(sl_arr sl := cut_in_place i (sl_len sl) (bm_cells m (sl_arr sl)))"
    "bm_chans ?m = bm_chans m" "bm_next ?m = bm_next m" "bm_bufferSize ?m = bm_bufferSize m" "bm_arrs ?m = bm_arrs m"
    "\<forall>t'. live ?m t' = (if t' = t then remove1 c (live m t) else live m t')" "sl_len sl - 1 \<le> length (bm_cells ?m (sl_arr sl))"
    by (rule bus_Unsubscribe [OF assms True])
  have arr: "\<exists>sl0. map_of (bm_subs m) t' = Some sl0 \<and> sl_arr sl0 = sl_arr sl' \<and>
      (if t' = t then sl' = sl\<lparr>sl_len := sl_len sl - 1\<rparr> else sl0 = sl' \<and> sl_arr sl' \<noteq> sl_arr sl)"
    if "map_of (bm_subs ?m) t' = Some sl'" for t' sl'
    using that u mem_invD(4) [OF assms, of t' sl' t sl] by (auto simp: u'(1) update_conv' split: if_splits)
  show ?thesis
    unfolding mem_inv_def
  proof (intro conjI allI impI)
    show "wf_map (bm_subs ?m)" using mem_invD(1) [OF assms] by (simp add: u'(1))
  next
    fix t' sl' assume "map_of (bm_subs ?m) t' = Some sl'"
    from arr [OF this] show "sl_len sl' \<le> length (bm_cells ?m (sl_arr sl'))" "sl_arr sl' < bm_arrs ?m"
      using mem_invD(2,3) [OF assms] mem_invD(3) [OF assms u] u'(9) by (auto simp: u'(3,7) split: if_splits)
  next
    fix t' t'' sl' sl'' assume "map_of (bm_subs ?m) t' = Some sl' \<and> map_of (bm_subs ?m) t'' = Some sl'' \<and> sl_arr sl' = sl_arr sl''"
    then show "t' = t''" using arr [of t' sl'] arr [of t'' sl''] mem_invD(4) [OF assms] by metis
  next
    fix t' show "distinct (live ?m t')" using mem_invD(5) [OF assms] by (simp add: u'(8))
    show "\<forall>x\<in>set (live ?m t'). x < bm_next ?m \<and> \<not> bm_closed ?m x"
      using mem_invD(6,7) [OF assms] mem_invD(8) [OF assms True] set_remove1_eq [OF mem_invD(5) [OF assms]]
      by (auto simp: u'(2,5,8) split: if_splits)
  next
    fix t' t'' x assume "x \<in> set (live ?m t') \<and> x \<in> set (live ?m t'')"
    then show "t' = t''" using mem_invD(8) [OF assms] by (auto simp: u'(8) split: if_splits dest: notin_set_remove1)
  next
    fix x assume "bm_closed ?m x"
    then show "x < bm_next ?m" using mem_invD(12) [OF assms] mem_invD(6) [OF assms True] by (auto simp: u'(2,5) split: if_splits)
  next
    fix x show "chan_ok (bm_chans ?m x)" "ch_id (bm_chans ?m x) = x" "ch_cap (bm_chans ?m x) = bm_bufferSize ?m"
      using mem_invD(9-11) [OF assms, of x] by (simp_all add: u'(4,6))
  qed
qed (simp add: bus_Unsubscribe_absent assms)


section \<open>Every interleaving keeps the memory in order\<close>

lemma try_send_fields [simp]: "ch_id (try_send x c) = ch_id c" "ch_cap (try_send x c) = ch_cap c"
  by (simp_all add: try_send_def)

lemma mem_inv_publisher_step: "publisher_step p m p' m' \<Longrightarrow> mem_inv m \<Longrightarrow> mem_inv m'"
  by (induction rule: publisher_step.induct) (auto intro!: mem_inv_chans simp: mem_invD)

lemma mem_inv_step:
  assumes "bus_step grow act S S'" "mem_inv (bs_mem S)"
  shows "mem_inv (bs_mem S')"
  using assms(1)
proof cases
  case (receive c x xs)
  have "chan_ok ((bm_chans (bs_mem S) c)\<lparr>ch_buf := xs\<rparr>)"
    using mem_invD(9) [OF assms(2), of c] receive(4) by (simp add: chan_ok_def)
  then show ?thesis using receive(2) assms(2) by (auto intro!: mem_inv_chans simp: mem_invD)
qed (use assms(2) in \<open>simp_all add: mem_inv_Subscribe mem_inv_Unsubscribe mem_inv_publisher_step\<close>)

lemma mem_inv_run: "bus_run grow acts S S' \<Longrightarrow> mem_inv (bs_mem S) \<Longrightarrow> mem_inv (bs_mem S')"
  by (induction rule: bus_run.induct) (auto dest: mem_inv_step)

section \<open>An undisturbed publisher\<close>

definition watched :: "bus_mem \<Rightarrow> EventType \<Rightarrow> slice \<Rightarrow> nat list \<Rightarrow> bool" where
  \<comment> \<open>the header still shows the channels it showed when it was copied, and they are open\<close>
  "watched m t h cs = (sl_len h = length cs \<and> (cs \<noteq> [] \<longrightarrow> elems m h = cs \<and> outgrown m t h \<and>
     (\<forall>t' sl. t' \<noteq> t \<and> map_of (bm_subs m) t' = Some sl \<longrightarrow> sl_arr sl \<noteq> sl_arr h)) \<and>
     (\<forall>c \<in> set cs. \<not> bm_closed m c \<and> c < bm_next m \<and> (\<forall>t'. t' \<noteq> t \<longrightarrow> c \<notin> set (live m t'))))"

fun on_course :: "bus_mem \<Rightarrow> EventType \<Rightarrow> nat list \<Rightarrow> publisher \<Rightarrow> bool" where
  "on_course m t cs (Ready async ev) = False"
| "on_course m t cs (Looping async ev h served) = (ev_Type ev = t \<and> watched m t h cs \<and> prefix served cs)"
| "on_course m t cs (Sending async ev h served c) = (ev_Type ev = t \<and> watched m t h cs \<and> prefix (served @ [c]) cs)"
| "on_course m t cs (Returned ev served ok) = (ev_Type ev = t \<and> prefix served cs \<and> (ok \<longrightarrow> served = cs))"
| "on_course m t cs Panicked = False"

lemma on_course_mono:
  assumes "on_course m t cs p" "\<And>h. watched m t h cs \<Longrightarrow> watched m' t h cs"
  shows "on_course m' t cs p"
  using assms by (cases p) auto

lemma watched_chans [simp]: "watched (m\<lparr>bm_chans := f\<rparr>) t h cs = watched m t h cs"
  by (simp add: watched_def outgrown_def)

lemma watched_Subscribe:
  assumes "mem_inv m" "watched m t h cs"
  shows "watched (snd (bus_Subscribe grow t' m)) t h cs"
proof -
  let ?m = "snd (bus_Subscribe grow t' m)"
  note s = bus_Subscribe [OF assms(1), where grow = grow and t = t']
  obtain sl where sl: "map_of (bm_subs ?m) = (map_of (bm_subs m))(t' \<mapsto> sl)"
    "sl_arr sl = bm_arrs m \<or> (\<exists>sl0. map_of (bm_subs m) t' = Some sl0 \<and> sl_arr sl = sl_arr sl0 \<and> sl_len sl = Suc (sl_len sl0))" using s(9) by blast
  have c: "\<not> bm_closed ?m c \<and> c < bm_next ?m \<and> (\<forall>t''. t'' \<noteq> t \<longrightarrow> c \<notin> set (live ?m t''))" if "c \<in> set cs" for c
    using assms(2) that by (auto simp: watched_def s(2,3,6) less_SucI)
  have "elems ?m h = cs \<and> outgrown ?m t h \<and> (\<forall>t'' sl. t'' \<noteq> t \<and> map_of (bm_subs ?m) t'' = Some sl \<longrightarrow> sl_arr sl \<noteq> sl_arr h)" if ne: "cs \<noteq> []"
  proof (intro conjI)
    have w: "elems m h = cs" "outgrown m t h" "\<And>t'' sl. t'' \<noteq> t \<Longrightarrow> map_of (bm_subs m) t'' = Some sl \<Longrightarrow> sl_arr sl \<noteq> sl_arr h"
      using assms(2) ne by (auto simp: watched_def)
    have "outgrown m t' h" using w(2,3) by (cases "t' = t") (auto simp: outgrown_def)
    then show "elems ?m h = cs" using s(8) w(1) by simp
    show "outgrown ?m t h" using w(2) s(7) sl by (auto simp: outgrown_def)
    show "\<forall>t'' sl. t'' \<noteq> t \<and> map_of (bm_subs ?m) t'' = Some sl \<longrightarrow> sl_arr sl \<noteq> sl_arr h"
    proof (intro allI impI)
      fix t'' sl' assume a: "t'' \<noteq> t \<and> map_of (bm_subs ?m) t'' = Some sl'"
      show "sl_arr sl' \<noteq> sl_arr h"
      proof (cases "t'' = t'")
        case True
        then have "sl' = sl" "t' \<noteq> t" using a sl(1) by simp_all
        then show ?thesis using sl(2) w(2) w(3) [of t'] by (auto simp: outgrown_def)
      qed (use a sl(1) w(3) in auto)
    qed
  qed
  then show ?thesis using assms(2) c by (auto simp: watched_def)
qed

lemma watched_Unsubscribe:
  assumes "mem_inv m" "watched m t h cs" "t' \<noteq> t"
  shows "watched (bus_Unsubscribe t' c m) t h cs"
proof (cases "c \<in> set (live m t')")
  case True
  let ?m = "bus_Unsubscribe t' c m"
  obtain sl i where u: "map_of (bm_subs m) t' = Some sl" and "position c (elems m sl) = Some i"
    and u': "bm_subs ?m = AList.update t' (sl\<lparr>sl_len := sl_len sl - 1\<rparr>) (bm_subs m)"
    "bm_closed ?m = (bm_closed m)(c := True)" "bm_cells ?m = (bm_cells m)(sl_arr sl := cut_in_place i (sl_len sl) (bm_cells m (sl_arr sl)))"
    "bm_chans ?m = bm_chans m" "bm_next ?m = bm_next m" "bm_bufferSize ?m = bm_bufferSize m" "bm_arrs ?m = bm_arrs m"
    "\<forall>t''. live ?m t'' = (if t'' = t' then remove1 c (live m t') else live m t'')" "sl_len sl - 1 \<le> length (bm_cells ?m (sl_arr sl))"
    by (rule bus_Unsubscribe [OF assms(1) True])
  have other: "c \<notin> set cs" using assms(2,3) True by (auto simp: watched_def)
  have "elems ?m h = elems m h" if "cs \<noteq> []"
  proof -
    have "sl_arr sl \<noteq> sl_arr h" using assms(2,3) that u unfolding watched_def by blast
    then show ?thesis by (simp add: elems_def u'(3))
  qed
  then show ?thesis
    using assms(2,3) other u by (auto simp: watched_def u' outgrown_def update_conv' split: if_splits dest: notin_set_remove1)
qed (simp add: bus_Unsubscribe_absent assms)


lemma watched_snapshot:
  assumes "mem_inv m"
  shows "watched m t (snapshot t m) (live m t)"
proof (cases "map_of (bm_subs m) t")
  case (Some sl)
  then have "sl_len sl = length (live m t)" using mem_invD(2) [OF assms Some] by (simp add: live_def elems_def)
  moreover have "outgrown m t sl" using mem_invD(3) [OF assms Some] Some by (simp add: outgrown_def)
  moreover have "live m t = elems m sl" "snapshot t m = sl" using Some by (simp_all add: live_def snapshot_def)
  moreover have "\<not> bm_closed m c \<and> c < bm_next m \<and> (\<forall>t'. t' \<noteq> t \<longrightarrow> c \<notin> set (live m t'))" if "c \<in> set (live m t)" for c
    using mem_invD(6,7,8) [OF assms that] by blast
  moreover have "sl_arr sl' \<noteq> sl_arr sl" if "t' \<noteq> t" "map_of (bm_subs m) t' = Some sl'" for t' sl'
    using mem_invD(4) [OF assms that(2) Some] that(1) by blast
  ultimately show ?thesis unfolding watched_def by auto
qed (simp add: watched_def snapshot_def live_def)

lemma on_course_own: "publisher_step p m p' m' \<Longrightarrow> on_course m t cs p \<Longrightarrow> on_course m' t cs p'"
proof (induction rule: publisher_step.induct)
  case (read_channel served h async ev m)
  then have l: "length served < length cs" by (simp add: watched_def)
  then have "elems m h = cs" using read_channel.prems by (auto simp: watched_def)
  then have "bm_cells m (sl_arr h) ! length served = cs ! length served" using l by (auto simp: elems_def)
  moreover have "served = take (length served) cs" using read_channel.prems by (auto simp: prefix_def)
  ultimately show ?case using read_channel.prems l take_is_prefix [of "Suc (length served)" cs] by (simp add: take_Suc_conv_app_nth)
next
  case (return_nil served h async ev m)
  then show ?case by (auto simp: watched_def prefix_def)
next
  case (send_closed m c async ev h served)
  then have "c \<in> set cs" by (auto simp: prefix_def)
  then show ?case using send_closed by (auto simp: watched_def)
qed (auto dest: append_prefixD)

lemma on_course_step:
  assumes "bus_step grow act S S'" "mem_inv (bs_mem S)" "k < length (bs_pubs S)" "on_course (bs_mem S) t cs (bs_pubs S ! k)"
    and "\<And>c. act \<noteq> AUnsubscribe t c"
  shows "on_course (bs_mem S') t cs (bs_pubs S' ! k)" "k < length (bs_pubs S')"
proof -
  have "on_course (bs_mem S') t cs (bs_pubs S' ! k) \<and> k < length (bs_pubs S')"
    using assms(1)
  proof cases
    case (subscribe t')
    then show ?thesis using assms(2-4) by (auto intro: on_course_mono watched_Subscribe)
  next
    case (unsubscribe t' c)
    then have "t' \<noteq> t" using assms(5) by auto
    then show ?thesis using unsubscribe assms(2-4) by (auto intro: on_course_mono watched_Unsubscribe)
  next
    case (publisher j p m)
    show ?thesis
    proof (cases "j = k")
      case True
      then show ?thesis using publisher assms(3,4) by (auto intro: on_course_own)
    next
      case False
      have "watched m t h cs" if "watched (bs_mem S) t h cs" for h using publisher(5) that by (cases rule: publisher_step.cases) auto
      then show ?thesis using publisher False assms(3,4) by (auto intro: on_course_mono)
    qed
  qed (use assms(3,4) in \<open>auto simp: nth_append intro: on_course_mono\<close>)
  then show "on_course (bs_mem S') t cs (bs_pubs S' ! k)" "k < length (bs_pubs S')" by simp_all
qed

lemma on_course_run:
  assumes "bus_run grow acts S S'" "mem_inv (bs_mem S)" "k < length (bs_pubs S)" "on_course (bs_mem S) t cs (bs_pubs S ! k)"
    and "\<forall>c. AUnsubscribe t c \<notin> set acts"
  shows "on_course (bs_mem S') t cs (bs_pubs S' ! k)"
  using assms
proof (induction rule: bus_run.induct)
  case (run_cons act S S1 acts S2)
  have "\<And>c. act \<noteq> AUnsubscribe t c" using run_cons.prems(4) by auto
  note s = on_course_step [OF run_cons.hyps(1) run_cons.prems(1-3) this]
  show ?case using run_cons.IH [OF mem_inv_step [OF run_cons.hyps(1) run_cons.prems(1)] s(2,1)] run_cons.prems(4) by simp
qed simp

fun serves :: "nat list \<Rightarrow> publisher \<Rightarrow> bool" where
  \<comment> \<open>the publisher has served a first part of the channels \<open>cs\<close>, and all of them when it returns \<open>nil\<close>\<close>
  "serves cs (Ready async ev) = False"
| "serves cs (Looping async ev h served) = prefix served cs"
| "serves cs (Sending async ev h served c) = prefix (served @ [c]) cs"
| "serves cs (Returned ev served ok) = (prefix served cs \<and> (ok \<longrightarrow> served = cs))"
| "serves cs Panicked = False"

lemma on_course_serves: "on_course m t cs p \<Longrightarrow> serves cs p"
  by (cases p) auto

abbreviation bus_start :: "nat \<Rightarrow> bus_sys" where
  "bus_start n \<equiv> \<lparr>bs_mem = bus_init n, bs_pubs = []\<rparr>"

text \<open>
  C12. Publishing is safe next to everything but an unsubscription: whatever the other goroutines
  do after a publisher copied the slice header of its event type (subscribe, publish, receive,
  unsubscribe from other types), as long as nobody unsubscribes from that type, the publisher
  serves exactly the channels subscribed at that moment, in order, each once, and never sends on
  a closed channel.
\<close>

theorem undisturbed_publisher_serves_all:
  assumes "bus_run grow before (bus_start n) S" "bs_pubs S ! k = Ready async ev" "bus_step grow (AStep k) S S1"
    and "bus_run grow acts S1 S2" "\<forall>c. AUnsubscribe (ev_Type ev) c \<notin> set acts"
  shows "serves (live (bs_mem S) (ev_Type ev)) (bs_pubs S2 ! k)"
proof -
  have inv: "mem_inv (bs_mem S)" using mem_inv_run [OF assms(1)] mem_inv_init by simp
  obtain p m where p: "k < length (bs_pubs S)" "publisher_step (Ready async ev) (bs_mem S) p m" "S1 = S\<lparr>bs_mem := m, bs_pubs := (bs_pubs S)[k := p]\<rparr>"
    using assms(3,2) by (auto elim: bus_stepE)
  then have "k < length (bs_pubs S1)" "on_course (bs_mem S1) (ev_Type ev) (live (bs_mem S) (ev_Type ev)) (bs_pubs S1 ! k)"
    using watched_snapshot [OF inv] by auto
  from on_course_serves [OF on_course_run [OF assms(4) mem_inv_step [OF assms(3) inv] this assms(5)]] show ?thesis .
qed


section \<open>On one goroutine: the bus of lists\<close>

definition abs_bus :: "bus_mem \<Rightarrow> EventBus" where
  "abs_bus m = \<lparr>eb_subscribers = map (\<lambda>(t, sl). (t, map (bm_chans m) (elems m sl))) (bm_subs m), eb_bufferSize = bm_bufferSize m,
     eb_next = bm_next m\<rparr>"

lemma subs_abs_bus: "subs (abs_bus m) t = map (bm_chans m) (live m t)"
  by (simp add: subs_def abs_bus_def live_def map_of_map split: option.split)

lemma map_update:
  assumes "wf_map xs" "\<And>k v. map_of xs k = Some v \<Longrightarrow> k \<noteq> t \<Longrightarrow> g v = f v"
  shows "map (\<lambda>(k, v). (k, g v)) (AList.update t v xs) = AList.update t (g v) (map (\<lambda>(k, v). (k, f v)) xs)"
  using assms
proof (induction xs)
  case (Cons x xs)
  obtain k w where x: "x = (k, w)" by fastforce
  have k: "k \<notin> fst ` set xs" "wf_map xs" using Cons.prems(1) by (simp_all add: wf_map_def x)
  have tail: "g v' = f v'" if "map_of xs k' = Some v'" "k' \<noteq> t" for k' v'
  proof -
    have "k' \<noteq> k" using map_of_SomeD [OF that(1)] k(1) by force
    then show ?thesis using Cons.prems(2) [of k' v'] that by (simp add: x)
  qed
  show ?case
  proof (cases "k = t")
    case True
    have "g v' = f v'" if "(k', v') \<in> set xs" for k' v'
    proof -
      have "k' \<noteq> t" using that k(1) True by force
      then show ?thesis using tail [of k' v'] that k(2) by (simp add: wf_map_map_of)
    qed
    then show ?thesis by (auto simp: x True)
  next
    case False
    then show ?thesis using Cons.IH [OF k(2) tail] Cons.prems(2) [of k w] by (simp add: x)
  qed
qed simp

lemma update_idem: "map_of xs k = Some v \<Longrightarrow> AList.update k v xs = xs"
  by (induction xs) auto

lemma abs_bus_update:
  assumes "wf_map (bm_subs m)" "bm_subs m' = AList.update t sl (bm_subs m)" "bm_bufferSize m' = bm_bufferSize m" "bm_next m' = bm_next m"
    and "\<And>t' sl'. map_of (bm_subs m) t' = Some sl' \<Longrightarrow> t' \<noteq> t \<Longrightarrow> map (bm_chans m') (elems m' sl') = map (bm_chans m) (elems m sl')"
  shows "abs_bus m' = set_subs t (map (bm_chans m') (elems m' sl)) (abs_bus m)"
  using map_update [OF assms(1), of t "\<lambda>sl. map (bm_chans m') (elems m' sl)" "\<lambda>sl. map (bm_chans m) (elems m sl)" sl] assms(2-5)
  by (simp add: abs_bus_def set_subs_def)


lemma abs_bus_Subscribe:
  assumes "mem_inv m"
  shows "abs_bus (snd (bus_Subscribe grow t m)) = snd (Subscribe t (abs_bus m))" "fst (bus_Subscribe grow t m) = fst (Subscribe t (abs_bus m))"
proof -
  let ?m = "snd (bus_Subscribe grow t m)"
  let ?old = "?m\<lparr>bm_next := bm_next m\<rparr>"
  note s = bus_Subscribe [OF assms, where grow = grow and t = t]
  obtain sl where sl: "bm_subs ?m = AList.update t sl (bm_subs m)" "map_of (bm_subs ?m) = (map_of (bm_subs m))(t \<mapsto> sl)" using s(9) by blast
  have new: "bm_next m \<notin> set (live m t')" for t' using mem_invD(6) [OF assms] by blast
  have lives: "map (bm_chans ?m) (live m t') = map (bm_chans m) (live m t')" for t' using new [of t'] by (auto simp: s(5))
  have "map (bm_chans ?m) (elems ?m sl') = map (bm_chans m) (elems m sl')" if "map_of (bm_subs m) t' = Some sl'" "t' \<noteq> t" for t' sl'
    using lives [of t'] s(6) [of t'] that by (simp add: live_def sl(2))
  then have "abs_bus ?old = set_subs t (map (bm_chans ?old) (elems ?old sl)) (abs_bus m)"
    using mem_invD(1) [OF assms] sl(1) s(4) by (intro abs_bus_update) simp_all
  moreover have "elems ?m sl = live m t @ [bm_next m]" using s(6) [of t] by (simp add: live_def [of ?m] sl(2))
  ultimately have "abs_bus ?old = set_subs t (subs (abs_bus m) t @ [make_chan (bm_next m) (bm_bufferSize m)]) (abs_bus m)"
    using new [of t] by (simp add: subs_abs_bus s(5))
  moreover have "abs_bus ?m = (abs_bus ?old)\<lparr>eb_next := Suc (bm_next m)\<rparr>" using s(2) by (simp add: abs_bus_def)
  ultimately show "abs_bus ?m = snd (Subscribe t (abs_bus m))" by (simp add: Subscribe_def Let_def abs_bus_def)
  show "fst (bus_Subscribe grow t m) = fst (Subscribe t (abs_bus m))" using s(1) by (simp add: Subscribe_def abs_bus_def make_chan_def Let_def)
qed

lemma remove_chan_map: "(\<And>c. ch_id (f c) = c) \<Longrightarrow> remove_chan c (map f xs) = map f (remove1 c xs)"
  by (induction xs) auto

lemma abs_bus_Unsubscribe:
  assumes "mem_inv m"
  shows "abs_bus (bus_Unsubscribe t c m) = Unsubscribe t c (abs_bus m)"
proof (cases "c \<in> set (live m t)")
  case True
  let ?m = "bus_Unsubscribe t c m"
  obtain sl i where u: "map_of (bm_subs m) t = Some sl" and "position c (elems m sl) = Some i"
    and u': "bm_subs ?m = AList.update t (sl\<lparr>sl_len := sl_len sl - 1\<rparr>) (bm_subs m)"
    "bm_closed ?m = (bm_closed m)(c := True)" "bm_cells ?m = (bm_cells m)(sl_arr sl := cut_in_place i (sl_len sl) (bm_cells m (sl_arr sl)))"
    "bm_chans ?m = bm_chans m" "bm_next ?m = bm_next m" "bm_bufferSize ?m = bm_bufferSize m" "bm_arrs ?m = bm_arrs m"
    "\<forall>t'. live ?m t' = (if t' = t then remove1 c (live m t) else live m t')" "sl_len sl - 1 \<le> length (bm_cells ?m (sl_arr sl))"
    by (rule bus_Unsubscribe [OF assms True])
  have "elems ?m sl' = elems m sl'" if "map_of (bm_subs m) t' = Some sl'" "t' \<noteq> t" for t' sl'
    using mem_invD(4) [OF assms that(1) u] that(2) by (auto simp: elems_def u'(3))
  then have "abs_bus ?m = set_subs t (map (bm_chans ?m) (elems ?m (sl\<lparr>sl_len := sl_len sl - 1\<rparr>))) (abs_bus m)"
    using mem_invD(1) [OF assms] u' by (intro abs_bus_update) simp_all
  moreover have "elems ?m (sl\<lparr>sl_len := sl_len sl - 1\<rparr>) = remove1 c (live m t)"
    using spec [OF u'(8), of t] by (simp add: live_def [of ?m] u'(1) update_conv')
  moreover have "c \<in> ch_id ` set (subs (abs_bus m) t)" using True by (simp add: subs_abs_bus image_image mem_invD(10) [OF assms])
  ultimately show ?thesis
    using mem_invD(10) [OF assms] by (simp add: Unsubscribe_def subs_abs_bus remove_chan_map u'(4))
next
  case False
  then have "c \<notin> ch_id ` set (subs (abs_bus m) t)" using mem_invD(10) [OF assms] by (auto simp: subs_abs_bus)
  then show ?thesis using False by (simp add: bus_Unsubscribe_absent Unsubscribe_def)
qed

definition deliver :: "Event \<Rightarrow> nat list \<Rightarrow> bus_mem \<Rightarrow> bus_mem" where
  "deliver ev cs m = m\<lparr>bm_chans := (\<lambda>c. if c \<in> set cs then try_send ev (bm_chans m c) else bm_chans m c)\<rparr>"

lemma abs_bus_deliver:
  assumes "mem_inv m"
  shows "abs_bus (deliver ev (live m (ev_Type ev)) m) = PublishAsync ev (abs_bus m)"
proof (cases "map_of (bm_subs m) (ev_Type ev)")
  case (Some sl)
  let ?t = "ev_Type ev"
  let ?m = "deliver ev (live m ?t) m"
  have "AList.update ?t sl (bm_subs m) = bm_subs m" by (rule update_idem [OF Some])
  moreover have "map (bm_chans ?m) (elems ?m sl') = map (bm_chans m) (elems m sl')" if "map_of (bm_subs m) t' = Some sl'" "t' \<noteq> ?t" for t' sl'
    using mem_invD(8) [OF assms, of _ t' ?t] that by (auto simp: deliver_def live_def [of m t'])
  ultimately have "abs_bus ?m = set_subs ?t (map (bm_chans ?m) (elems ?m sl)) (abs_bus m)"
    using mem_invD(1) [OF assms] by (intro abs_bus_update) (simp_all add: deliver_def)
  moreover have "map (bm_chans ?m) (elems ?m sl) = map (try_send ev) (subs (abs_bus m) ?t)"
    using Some by (simp add: subs_abs_bus live_def deliver_def)
  moreover have "set_subs ?t [] (abs_bus m) = abs_bus m" if "live m ?t = []"
  proof -
    have "abs_bus m = set_subs ?t (map (bm_chans m) (elems m sl)) (abs_bus m)"
      using mem_invD(1) [OF assms] \<open>AList.update ?t sl (bm_subs m) = bm_subs m\<close> by (intro abs_bus_update) simp_all
    then show ?thesis using that Some by (simp add: live_def)
  qed
  ultimately show ?thesis by (auto simp: PublishAsync_def subs_abs_bus)
qed (simp add: deliver_def live_def PublishAsync_def subs_abs_bus)


definition solo_step :: "publisher \<times> bus_mem \<Rightarrow> publisher \<times> bus_mem \<Rightarrow> bool" where
  "solo_step x y = publisher_step (fst x) (snd x) (fst y) (snd y)"

lemma deliver_snoc:
  "c \<notin> set served \<Longrightarrow> deliver ev (served @ [c]) m =
     (deliver ev served m)\<lparr>bm_chans := (bm_chans (deliver ev served m))(c := try_send ev (bm_chans (deliver ev served m) c))\<rparr>"
  by (simp add: deliver_def fun_eq_iff)

lemma try_send_full: "\<not> has_room c \<Longrightarrow> try_send x c = c"
  by (simp add: try_send_def has_room_def)

lemma deliver_frame [simp]:
  "bm_cells (deliver ev cs m) = bm_cells m" "bm_closed (deliver ev cs m) = bm_closed m" "bm_subs (deliver ev cs m) = bm_subs m"
  "live (deliver ev cs m) t = live m t" "deliver ev [] m = m"
  by (simp_all add: deliver_def)

text \<open>A publisher left alone: where it is, it has delivered to the channels served so far.\<close>

fun alone :: "Event \<Rightarrow> bus_mem \<Rightarrow> publisher \<times> bus_mem \<Rightarrow> bool" where
  "alone ev m (Ready async ev', m') = (async \<and> ev' = ev \<and> m' = m)"
| "alone ev m (Looping async ev' h served, m') = (async \<and> ev' = ev \<and> h = snapshot (ev_Type ev) m \<and> prefix served (live m (ev_Type ev)) \<and>
     m' = deliver ev served m)"
| "alone ev m (Sending async ev' h served c, m') = (async \<and> ev' = ev \<and> h = snapshot (ev_Type ev) m \<and> prefix (served @ [c]) (live m (ev_Type ev)) \<and>
     m' = deliver ev served m)"
| "alone ev m (Returned ev' served ok, m') = (ok \<and> ev' = ev \<and> served = live m (ev_Type ev) \<and> m' = deliver ev served m)"
| "alone ev m (Panicked, m') = False"

lemma snapshot_cells:
  assumes "mem_inv m" "served = take (length served) (live m t)"
  shows "sl_len (snapshot t m) = length (live m t)"
    "length served < length (live m t) \<Longrightarrow> prefix (served @ [bm_cells m (sl_arr (snapshot t m)) ! length served]) (live m t)"
proof -
  show l: "sl_len (snapshot t m) = length (live m t)"
    using mem_invD(2) [OF assms(1), of t] by (auto simp: snapshot_def live_def elems_def split: option.split)
  assume n: "length served < length (live m t)"
  then have "bm_cells m (sl_arr (snapshot t m)) ! length served = live m t ! length served"
    using l by (auto simp: snapshot_def live_def elems_def split: option.splits)
  then show "prefix (served @ [bm_cells m (sl_arr (snapshot t m)) ! length served]) (live m t)"
    using n assms(2) take_is_prefix [of "Suc (length served)" "live m t"] by (simp add: take_Suc_conv_app_nth)
qed

lemma prefix_take: "prefix xs ys \<Longrightarrow> xs = take (length xs) ys"
  by (auto simp: prefix_def)

lemma alone_step:
  assumes "mem_inv m" "alone ev m x" "solo_step x y"
  shows "alone ev m y"
proof -
  let ?cs = "live m (ev_Type ev)"
  have fresh: "c \<notin> set served" "\<not> bm_closed m c" "ch_cap (bm_chans m c) = 0 \<Longrightarrow> \<not> has_room (bm_chans m c)" if "prefix (served @ [c]) ?cs" for served c
    using that mem_invD(5) [OF assms(1), of "ev_Type ev"] mem_invD(7) [OF assms(1), of c "ev_Type ev"] by (auto simp: prefix_def has_room_def)
  obtain p m' where x: "x = (p, m')" by fastforce
  show ?thesis
  proof (cases p)
    case (Looping async ev' h served)
    then have s: "served = take (length served) ?cs" using assms(2) by (simp add: x prefix_take)
    note c = snapshot_cells [OF assms(1) s]
    show ?thesis using assms(2,3) c s by (cases y) (auto simp: x Looping solo_step_def)
  next
    case (Sending async ev' h served c)
    then have "prefix (served @ [c]) ?cs" using assms(2) by (simp add: x)
    note f = fresh [OF this]
    have "bm_chans (deliver ev served m) c = bm_chans m c" using f(1) by (simp add: deliver_def)
    moreover have "deliver ev (served @ [c]) m = deliver ev served m" if "\<not> has_room (bm_chans m c)"
      using f(1) that by (simp add: deliver_def fun_eq_iff try_send_full)
    ultimately show ?thesis using assms(2,3) f by (cases y) (auto simp: x Sending solo_step_def deliver_snoc)
  qed (use assms(2,3) in \<open>cases y; auto simp: x solo_step_def\<close>)+
qed

lemma alone_run: "solo_step\<^sup>*\<^sup>* x y \<Longrightarrow> mem_inv m \<Longrightarrow> alone ev m x \<Longrightarrow> alone ev m y"
  by (induction rule: rtranclp_induct) (auto dest: alone_step)

lemma alone_progress:
  assumes "mem_inv m" "alone ev m x" "\<And>e served ok. fst x \<noteq> Returned e served ok"
  shows "\<exists>y. solo_step x y"
proof -
  obtain p m' where x: "x = (p, m')" by fastforce
  show ?thesis
  proof (cases p)
    case (Ready async ev')
    show ?thesis unfolding solo_step_def x Ready fst_conv snd_conv by (metis fst_conv snd_conv take_header)
  next
    case (Looping async ev' h served)
    have "length served \<le> sl_len h"
      using assms(2) snapshot_cells(1) [OF assms(1), of "[]" "ev_Type ev"] by (auto simp: x Looping dest: prefix_length_le)
    then show ?thesis unfolding solo_step_def x Looping by (metis fst_conv snd_conv le_eq_less_or_eq read_channel return_nil)
  next
    case (Sending async ev' h served c)
    then have "async" using assms(2) by (simp add: x)
    then show ?thesis unfolding solo_step_def x Sending by (metis fst_conv snd_conv send_closed send_buffered drop_full)
  next
    case (Returned e served ok)
    then show ?thesis using assms(3) [of e served ok] by (simp add: x)
  next
    case Panicked
    then show ?thesis using assms(2) by (simp add: x)
  qed
qed


fun steps_left :: "nat \<Rightarrow> publisher \<Rightarrow> nat" where
  "steps_left n (Ready async ev) = 2 * n + 2"
| "steps_left n (Looping async ev h served) = 2 * (n - length served) + 1"
| "steps_left n (Sending async ev h served c) = 2 * (n - length served)"
| "steps_left n _ = 0"

lemma steps_left_decrease:
  assumes "mem_inv m" "alone ev m x" "solo_step x y"
  shows "steps_left (length (live m (ev_Type ev))) (fst y) < steps_left (length (live m (ev_Type ev))) (fst x)"
proof -
  have s: "sl_len (snapshot (ev_Type ev) m) = length (live m (ev_Type ev))"
    using snapshot_cells(1) [OF assms(1), of "[]"] by simp
  obtain p m' p' m2 where x: "x = (p, m')" "y = (p', m2)" by fastforce
  show ?thesis
    using assms(2,3) s prefix_length_le [where ys = "live m (ev_Type ev)"]
    by (cases p) (fastforce simp: x solo_step_def dest: prefix_length_le)+
qed

lemma alone_returns:
  assumes "mem_inv m" "alone ev m x"
  shows "\<exists>m'. solo_step\<^sup>*\<^sup>* x (Returned ev (live m (ev_Type ev)) True, m') \<and> m' = deliver ev (live m (ev_Type ev)) m"
  using assms(2)
proof (induction "steps_left (length (live m (ev_Type ev))) (fst x)" arbitrary: x rule: less_induct)
  case less
  show ?case
  proof (cases "\<exists>e served ok. fst x = Returned e served ok")
    case True
    then show ?thesis using less.prems by (cases x) auto
  next
    case False
    then obtain y where y: "solo_step x y" using alone_progress [OF assms(1) less.prems] by blast
    from less.hyps [OF steps_left_decrease [OF assms(1) less.prems y] alone_step [OF assms(1) less.prems y]]
    show ?thesis using y by (blast intro: converse_rtranclp_into_rtranclp)
  qed
qed

text \<open>
  C13. The atomic bus is what one goroutine sees: for every state any interleaving can reach,
  \<open>Subscribe\<close> and \<open>Unsubscribe\<close> on slices and shared arrays act on the lists of subscriptions as in
  theory \<open>EventBus\<close>, and a publisher that runs without interference always returns, with the effect
  of the atomic \<open>PublishAsync\<close>, however its steps resolve.
\<close>

theorem slices_refine_event_bus:
  assumes "bus_run grow acts (bus_start n) S"
  shows "abs_bus (snd (bus_Subscribe grow t (bs_mem S))) = snd (Subscribe t (abs_bus (bs_mem S))) \<and>
    abs_bus (bus_Unsubscribe t c (bs_mem S)) = Unsubscribe t c (abs_bus (bs_mem S)) \<and>
    (\<exists>m'. solo_step\<^sup>*\<^sup>* (Ready True ev, bs_mem S) (Returned ev (live (bs_mem S) (ev_Type ev)) True, m')) \<and>
    (\<forall>p m'. solo_step\<^sup>*\<^sup>* (Ready True ev, bs_mem S) (p, m') \<and> (\<nexists>y. solo_step (p, m') y) \<longrightarrow>
       p = Returned ev (live (bs_mem S) (ev_Type ev)) True \<and> abs_bus m' = PublishAsync ev (abs_bus (bs_mem S)))"
proof (intro conjI allI impI)
  let ?m = "bs_mem S"
  have inv: "mem_inv ?m" using mem_inv_run [OF assms] mem_inv_init by simp
  show "abs_bus (snd (bus_Subscribe grow t ?m)) = snd (Subscribe t (abs_bus ?m))" by (rule abs_bus_Subscribe [OF inv])
  show "abs_bus (bus_Unsubscribe t c ?m) = Unsubscribe t c (abs_bus ?m)" by (rule abs_bus_Unsubscribe [OF inv])
  have start: "alone ev ?m (Ready True ev, ?m)" by simp
  show "\<exists>m'. solo_step\<^sup>*\<^sup>* (Ready True ev, ?m) (Returned ev (live ?m (ev_Type ev)) True, m')" using alone_returns [OF inv start] by blast
  fix p m' assume r: "solo_step\<^sup>*\<^sup>* (Ready True ev, ?m) (p, m') \<and> (\<nexists>y. solo_step (p, m') y)"
  then have a: "alone ev ?m (p, m')" using alone_run [OF _ inv start] by blast
  then obtain e served ok where "p = Returned e served ok" using alone_progress [OF inv a] r by fastforce
  then show "p = Returned ev (live ?m (ev_Type ev)) True" "abs_bus m' = PublishAsync ev (abs_bus ?m)"
    using a abs_bus_deliver [OF inv, of ev] by simp_all
qed


section \<open>A disturbed publisher\<close>

definition three_subscribers :: "Event \<Rightarrow> bus_mem" where
  "three_subscribers ev = snd (bus_Subscribe (\<lambda>_. 4) (ev_Type ev) (snd (bus_Subscribe (\<lambda>_. 4) (ev_Type ev)
     (snd (bus_Subscribe (\<lambda>_. 4) (ev_Type ev) (bus_init 4))))))"

lemma three_subscribers:
  "bm_cells (three_subscribers ev) 0 = [0, 1, 2]" "bm_subs (three_subscribers ev) = [(ev_Type ev, \<lparr>sl_arr = 0, sl_len = 3\<rparr>)]"
  "bm_closed (three_subscribers ev) = (\<lambda>_. False)" "ch_buf (bm_chans (three_subscribers ev) c) = []" "ch_cap (bm_chans (three_subscribers ev) c) = 4"
  "bm_chans (three_subscribers ev) c = \<lparr>ch_id = c, ch_cap = 4, ch_buf = []\<rparr>"
  by (simp_all add: three_subscribers_def bus_Subscribe_def bus_init_def go_append_def new_array_def elems_def make_chan_def Let_def)


lemma run_publisher:
  assumes "publisher_step p m p' m'" "p \<noteq> Panicked" "bus_run grow acts \<lparr>bs_mem = m', bs_pubs = [p']\<rparr> S"
  shows "bus_run grow (AStep 0 # acts) \<lparr>bs_mem = m, bs_pubs = [p]\<rparr> S"
  using publisher [of "\<lparr>bs_mem = m, bs_pubs = [p]\<rparr>" 0 p' m' grow] assms by (auto intro: run_cons)

lemma run_unsubscribe:
  assumes "p \<noteq> Panicked" "bus_run grow acts \<lparr>bs_mem = bus_Unsubscribe t c m, bs_pubs = [p]\<rparr> S"
  shows "bus_run grow (AUnsubscribe t c # acts) \<lparr>bs_mem = m, bs_pubs = [p]\<rparr> S"
  using unsubscribe [of "\<lparr>bs_mem = m, bs_pubs = [p]\<rparr>" grow t c] assms by (auto intro: run_cons)

lemma run_three_subscribers:
  assumes "bus_run (\<lambda>_. 4) acts \<lparr>bs_mem = three_subscribers ev, bs_pubs = [Ready True ev]\<rparr> S"
  shows "bus_run (\<lambda>_. 4) (ASubscribe (ev_Type ev) # ASubscribe (ev_Type ev) # ASubscribe (ev_Type ev) # APublish True ev # acts) (bus_start 4) S"
proof -
  have s: "bus_step (\<lambda>_. 4) (ASubscribe t) \<lparr>bs_mem = m, bs_pubs = []\<rparr> \<lparr>bs_mem = snd (bus_Subscribe (\<lambda>_. 4) t m), bs_pubs = []\<rparr>" for t m
    using subscribe [of "\<lparr>bs_mem = m, bs_pubs = []\<rparr>" "\<lambda>_. 4" t] by simp
  have p: "bus_step (\<lambda>_. 4) (APublish True ev) \<lparr>bs_mem = m, bs_pubs = []\<rparr> \<lparr>bs_mem = m, bs_pubs = [Ready True ev]\<rparr>" for m
    using publish [of "\<lparr>bs_mem = m, bs_pubs = []\<rparr>" "\<lambda>_. 4" True ev] by simp
  show ?thesis by (intro run_cons [OF s] run_cons [OF p] assms [unfolded three_subscribers_def])
qed

lemma run_to_first_send:
  assumes "bus_run (\<lambda>_. 4) acts \<lparr>bs_mem = three_subscribers ev, bs_pubs = [Sending True ev \<lparr>sl_arr = 0, sl_len = 3\<rparr> [] 0]\<rparr> S"
  shows "\<exists>acts'. bus_run (\<lambda>_. 4) acts' (bus_start 4) S"
proof -
  let ?m = "three_subscribers ev"
  have snap: "snapshot (ev_Type ev) ?m = \<lparr>sl_arr = 0, sl_len = 3\<rparr>" by (simp add: snapshot_def three_subscribers)
  have 1: "publisher_step (Ready True ev) ?m (Looping True ev \<lparr>sl_arr = 0, sl_len = 3\<rparr> []) ?m" using take_header [of True ev ?m] by (simp add: snap)
  have 2: "publisher_step (Looping True ev \<lparr>sl_arr = 0, sl_len = 3\<rparr> []) ?m (Sending True ev \<lparr>sl_arr = 0, sl_len = 3\<rparr> [] 0) ?m"
    using read_channel [of "[]" "\<lparr>sl_arr = 0, sl_len = 3\<rparr>" True ev ?m] by (simp add: three_subscribers)
  show ?thesis using run_three_subscribers [OF run_publisher [OF 1 _ run_publisher [OF 2 _ assms]]] by blast
qed

lemma moved_array_run:
  fixes ev
  assumes "bm_cells m 0 = [1, 2, 2]" "\<not> bm_closed m 2" "bm_chans m 2 = \<lparr>ch_id = 2, ch_cap = 4, ch_buf = []\<rparr>"
  defines "m' \<equiv> m\<lparr>bm_chans := (bm_chans m)(2 := \<lparr>ch_id = 2, ch_cap = 4, ch_buf = [ev, ev]\<rparr>)\<rparr>"
  shows "bus_run grow [AStep 0, AStep 0, AStep 0, AStep 0, AStep 0] \<lparr>bs_mem = m, bs_pubs = [Looping True ev \<lparr>sl_arr = 0, sl_len = 3\<rparr> [0]]\<rparr>
    \<lparr>bs_mem = m', bs_pubs = [Returned ev [0, 2, 2] True]\<rparr>"
proof -
  let ?sl = "\<lparr>sl_arr = 0, sl_len = 3\<rparr>"
  let ?m = "m\<lparr>bm_chans := (bm_chans m)(2 := \<lparr>ch_id = 2, ch_cap = 4, ch_buf = [ev]\<rparr>)\<rparr>"
  have 1: "publisher_step (Looping True ev ?sl [0]) m (Sending True ev ?sl [0] 2) m"
    using read_channel [of "[0]" ?sl True ev m] by (simp add: assms(1))
  have 2: "publisher_step (Sending True ev ?sl [0] 2) m (Looping True ev ?sl [0, 2]) ?m"
    using send_buffered [of m 2 True ev ?sl "[0]"] by (simp add: assms(2,3) has_room_def try_send_def)
  have 3: "publisher_step (Looping True ev ?sl [0, 2]) ?m (Sending True ev ?sl [0, 2] 2) ?m"
    using read_channel [of "[0, 2]" ?sl True ev ?m] by (simp add: assms(1))
  have 4: "publisher_step (Sending True ev ?sl [0, 2] 2) ?m (Looping True ev ?sl [0, 2, 2]) m'"
    using send_buffered [of ?m 2 True ev ?sl "[0, 2]"] by (simp add: assms(2) has_room_def try_send_def m'_def)
  have 5: "publisher_step (Looping True ev ?sl [0, 2, 2]) m' (Returned ev [0, 2, 2] True) m'" by (rule return_nil) simp
  show ?thesis by (intro run_publisher [OF 1] run_publisher [OF 2] run_publisher [OF 3] run_publisher [OF 4] run_publisher [OF 5] run_nil) simp_all
qed

text \<open>
  With an unsubscription in between, the same publisher goes wrong: of three subscribers the
  first leaves after it was served, the array moves under the publisher, the second subscriber,
  still subscribed and with room, is never served, and the third receives the event twice. When a
  subscriber leaves between the read of its channel and the send, the send panics.
\<close>

theorem unsubscription_disturbs_publisher:
  "(\<exists>acts S. bus_run (\<lambda>_. 4) acts (bus_start 4) S \<and> bs_pubs S = [Returned ev [0, 2, 2] True] \<and>
      live (bs_mem S) (ev_Type ev) = [1, 2] \<and> ch_buf (bm_chans (bs_mem S) 1) = [] \<and> ch_buf (bm_chans (bs_mem S) 2) = [ev, ev]) \<and>
   (\<exists>acts S. bus_run (\<lambda>_. 4) acts (bus_start 4) S \<and> bs_pubs S = [Panicked])"
proof
  let ?t = "ev_Type ev" let ?m = "three_subscribers ev" let ?sl = "\<lparr>sl_arr = 0, sl_len = 3\<rparr>"
  define m1 where "m1 = ?m\<lparr>bm_chans := (bm_chans ?m)(0 := try_send ev (bm_chans ?m 0))\<rparr>"
  define m2 where "m2 = bus_Unsubscribe ?t 0 m1"
  have m2: "bm_cells m2 0 = [1, 2, 2]" "\<not> bm_closed m2 2" "bm_chans m2 2 = \<lparr>ch_id = 2, ch_cap = 4, ch_buf = []\<rparr>"
    "bm_subs m2 = [(?t, \<lparr>sl_arr = 0, sl_len = 2\<rparr>)]" "ch_buf (bm_chans m2 1) = []"
    by (simp_all add: m1_def m2_def bus_Unsubscribe_def three_subscribers elems_def cut_in_place_def)
  have send: "publisher_step (Sending True ev ?sl [] 0) ?m (Looping True ev ?sl [0]) m1"
    using send_buffered [of ?m 0 True ev ?sl "[]"] by (simp add: three_subscribers m1_def has_room_def)
  from run_to_first_send [OF run_publisher [OF send _ run_unsubscribe [OF _ moved_array_run [OF m2(1-3) [unfolded m2_def], of "\<lambda>_. 4" ev]]]]
  show "\<exists>acts S. bus_run (\<lambda>_. 4) acts (bus_start 4) S \<and> bs_pubs S = [Returned ev [0, 2, 2] True] \<and>
      live (bs_mem S) ?t = [1, 2] \<and> ch_buf (bm_chans (bs_mem S) 1) = [] \<and> ch_buf (bm_chans (bs_mem S) 2) = [ev, ev]"
    using m2 by (fastforce simp: m2_def [symmetric] live_def elems_def)
  have "bus_run (\<lambda>_. 4) [AUnsubscribe ?t 0, AStep 0] \<lparr>bs_mem = ?m, bs_pubs = [Sending True ev ?sl [] 0]\<rparr>
      \<lparr>bs_mem = bus_Unsubscribe ?t 0 ?m, bs_pubs = [Panicked]\<rparr>"
    by (rule run_unsubscribe [OF _ run_publisher [OF send_closed _ run_nil]])
      (simp_all add: bus_Unsubscribe_def three_subscribers elems_def)
  from run_to_first_send [OF this] show "\<exists>acts S. bus_run (\<lambda>_. 4) acts (bus_start 4) S \<and> bs_pubs S = [Panicked]" by fastforce
qed

section \<open>Witnesses\<close>

lemma served_run:
  obtains before S S1 where "bus_run (\<lambda>_. 4) before (bus_start 4) S" "bs_pubs S ! 0 = Ready True ev" "bus_step (\<lambda>_. 4) (AStep 0) S S1"
    "live (bs_mem S) (ev_Type ev) = [0, 1, 2]"
proof
  let ?S = "\<lparr>bs_mem = three_subscribers ev, bs_pubs = [Ready True ev]\<rparr>"
  show "bus_run (\<lambda>_. 4) [ASubscribe (ev_Type ev), ASubscribe (ev_Type ev), ASubscribe (ev_Type ev), APublish True ev] (bus_start 4) ?S"
    by (rule run_three_subscribers [OF run_nil])
  show "bus_step (\<lambda>_. 4) (AStep 0) ?S (?S\<lparr>bs_mem := three_subscribers ev,
      bs_pubs := (bs_pubs ?S)[0 := Looping True ev (snapshot (ev_Type ev) (three_subscribers ev)) []]\<rparr>)"
    by (rule publisher) (simp_all add: take_header)
qed (simp_all add: live_def three_subscribers elems_def)

theorem undisturbed_publisher_serves_all_witness:
  "\<exists>S :: bus_sys. serves [0, 1, 2] (bs_pubs S ! 0) \<and> bs_pubs S \<noteq> []"
proof -
  obtain before S S1 where r: "bus_run (\<lambda>_. 4) before (bus_start 4) S" "bs_pubs S ! 0 = Ready True (bus_event WorkloadFailed 1)"
    "bus_step (\<lambda>_. 4) (AStep 0) S S1" "live (bs_mem S) (ev_Type (bus_event WorkloadFailed 1)) = [0, 1, 2]"
    by (rule served_run [of "bus_event WorkloadFailed 1"])
  have "serves [0, 1, 2] (bs_pubs S1 ! 0)" using undisturbed_publisher_serves_all [OF r(1-3) run_nil] r(4) by simp
  moreover have "bs_pubs S1 \<noteq> []" using r(3) by (auto elim: bus_stepE)
  ultimately show ?thesis by blast
qed

theorem slices_refine_event_bus_witness:
  "abs_bus (bus_Unsubscribe WorkloadFailed 1 (three_subscribers (bus_event WorkloadFailed 1))) =
     Unsubscribe WorkloadFailed 1 (abs_bus (three_subscribers (bus_event WorkloadFailed 1))) \<and>
   live (three_subscribers (bus_event WorkloadFailed 1)) WorkloadFailed = [0, 1, 2]"
  using slices_refine_event_bus [OF run_three_subscribers [OF run_nil, of "bus_event WorkloadFailed 1"], of WorkloadFailed 1]
  by (simp add: live_def three_subscribers elems_def bus_event_def)

end
