(* ===== verification/Interleaving.thy ===== *)
theory Interleaving
  imports Process
begin

text \<open>
  The goroutines of the process at a finer grain. Theory \<open>Process\<close> takes a pass of the
  reconciler, of the autoscaler or of the drift detector as one step. Here the reconciler stops
  between the stages of \<open>reconcileOne\<close> (controllers, policy, quota, circuit breaker, standby,
  secrets, cron, route, deployment, status update), and the other two loops stop between two
  workloads, so that requests and the other loops may run in between, on workload objects they
  share without a lock. What a pass carries from stage to stage (the listed workloads, the time,
  the cron verdict) is its program counter. One stage and one request are still one step.

  The lemmas: a pass that is not interrupted is the pass of \<open>Reconciler\<close>, so every run of \<open>Process\<close>
  is a run here; whatever the interleaving, the store stays well formed and the log in order, and
  no driver is ever asked to update or delete anything; and what goes wrong when a request comes
  in the middle of a pass: a redeployed workload is replaced by the object the pass has read
  before, and a deleted one is deployed.
\<close>

section \<open>The reconciler, stage by stage\<close>

datatype rec_pc =
    PcIdle
  | PcNext "addr list"
  | PcPolicy addr "addr list"
  | PcQuota addr "addr list"
  | PcCircuit addr gotime "addr list"
  | PcStandby addr gotime "addr list"
  | PcSecrets addr gotime "addr list"
  | PcCron addr gotime "addr list"
  | PcRoute addr gotime bool "addr list"
  | PcDeploy addr bool "addr list"
  | PcPost addr bool "addr list"

fun rec_step :: "'q Reconciler \<Rightarrow> rec_pc \<times> SecretRegistry \<times> world \<Rightarrow> rec_pc \<times> SecretRegistry \<times> world" where
  "rec_step e (PcIdle, r, s) = (case store_List (rec_store e) [] s of
     (Inl err, s1) \<Rightarrow> (PcIdle, r, s1)
   | (Inr workloads, s1) \<Rightarrow> (PcNext (reconcile_order s1 workloads), r, s1))"
| "rec_step e (PcNext [], r, s) = (PcIdle, r, s)"
| "rec_step e (PcNext (a # as), r, s) =
     (case run_controllers (GetControllersForWorkload (rec_controllers e) (deref s a)) a s of
        (Some err, s1) \<Rightarrow> (PcNext as, r, s1)
      | (None, s1) \<Rightarrow> (PcPolicy a as, r, s1))"
| "rec_step e (PcPolicy a as, r, s) = (case policy_gate e a s of (ok, s1) \<Rightarrow> (if ok then PcQuota a as else PcNext as, r, s1))"
| "rec_step e (PcQuota a as, r, s) = (case quota_gate e a s of
     (False, s1) \<Rightarrow> (PcNext as, r, s1)
   | (True, s1) \<Rightarrow> (case time_Now s1 of (now, s2) \<Rightarrow> (PcCircuit a now as, r, s2)))"
| "rec_step e (PcCircuit a now as, r, s) = (PcStandby a now as, r, circuit_stage e a now s)"
| "rec_step e (PcStandby a now as, r, s) = (PcSecrets a now as, r, standby_stage e a s)"
| "rec_step e (PcSecrets a now as, r, s) = (case secrets_stage e a r s of (r1, s1) \<Rightarrow> (PcCron a now as, r1, s1))"
| "rec_step e (PcCron a now as, r, s) = (case cron_stage e a s of
     (Proceed cronTriggers, s1) \<Rightarrow> (PcRoute a now cronTriggers as, r, s1)
   | (_, s1) \<Rightarrow> (PcNext as, r, s1))"
| "rec_step e (PcRoute a now cronTriggers as, r, s) = (case route_stage e a now s of (ok, s1) \<Rightarrow>
     (if ok then PcDeploy a cronTriggers as else PcNext as, r, s1))"
| "rec_step e (PcDeploy a cronTriggers as, r, s) =
     (if phase (deref s a) \<noteq> WorkloadPhasePending then (PcNext as, r, s)
      else case launch e a s of
             (Some err, s1) \<Rightarrow> (PcNext as, r, s1)
           | (None, s1) \<Rightarrow> (PcPost a cronTriggers as, r, s1))"
| "rec_step e (PcPost a cronTriggers as, r, s) = (case postSchedule e a cronTriggers s of (_, s1) \<Rightarrow> (PcNext as, r, s1))"

definition rec_moves :: "'q Reconciler \<Rightarrow> rec_pc \<times> SecretRegistry \<times> world \<Rightarrow> rec_pc \<times> SecretRegistry \<times> world \<Rightarrow> bool" where
  "rec_moves e x y = (y = rec_step e x)"

lemma rec_move: "(rec_moves e)\<^sup>*\<^sup>* (rec_step e x) y \<Longrightarrow> (rec_moves e)\<^sup>*\<^sup>* x y"
  by (rule converse_rtranclp_into_rtranclp [of "rec_moves e" x "rec_step e x" y]) (simp add: rec_moves_def)

section \<open>An undisturbed pass\<close>

lemma moves_deploy:
  assumes "deploy_stage e a c s = (err, s')"
  shows "(rec_moves e)\<^sup>*\<^sup>* (PcDeploy a c as, r, s) (PcNext as, r, s')"
proof (cases "phase (deref s a) = WorkloadPhasePending")
  case True
  obtain err1 s1 where l: "launch e a s = (err1, s1)" by fastforce
  show ?thesis
    using assms True
    by (cases err1) (auto simp: l deploy_stage_def intro!: rec_move [of e "(PcDeploy a c as, r, s)"] rec_move [of e "(PcPost a c as, r, s1)"])
next
  case False
  then show ?thesis using assms by (intro rec_move [of e "(PcDeploy a c as, r, s)"]) (simp add: deploy_stage_def)
qed

lemma moves_route:
  assumes "route_stage e a now s = (ok, s1)" "s' = (if ok then snd (deploy_stage e a c s1) else s1)"
  shows "(rec_moves e)\<^sup>*\<^sup>* (PcRoute a now c as, r, s) (PcNext as, r, s')"
  using assms moves_deploy [of e a c s1 "fst (deploy_stage e a c s1)" s' as r]
  by (intro rec_move [of e "(PcRoute a now c as, r, s)"]) auto

lemma moves_admitted:
  assumes "admitted_stages e a r s = (err, r', s')" "quota_gate e a s0 = (True, s)"
  shows "(rec_moves e)\<^sup>*\<^sup>* (PcQuota a as, r, s0) (PcNext as, r', s')"
proof -
  obtain now s1 where t: "time_Now s = (now, s1)" by fastforce
  let ?s2 = "circuit_stage e a now s1" let ?s3 = "standby_stage e a ?s2"
  obtain r1 s4 where sec: "secrets_stage e a r ?s3 = (r1, s4)" by fastforce
  obtain v s5 where cron: "cron_stage e a s4 = (v, s5)" by fastforce
  obtain ok s6 where route: "route_stage e a now s5 = (ok, s6)" by fastforce
  have r': "r' = r1" using assms(1) by (auto simp: admitted_stages_def t sec cron route Let_def split_beta split: cron_verdict.splits bool.splits)
  have "(rec_moves e)\<^sup>*\<^sup>* (PcCron a now as, r1, s4) (PcNext as, r1, s')"
  proof (cases v)
    case (Proceed c)
    have "s' = (if ok then snd (deploy_stage e a c s6) else s6)"
      using assms(1) by (auto simp: admitted_stages_def t sec cron route Proceed Let_def split_beta split: if_splits bool.splits)
    from moves_route [OF route this] show ?thesis by (intro rec_move [of e "(PcCron a now as, r1, s4)"]) (simp add: cron Proceed)
  qed (use assms(1) in \<open>intro rec_move [of e "(PcCron a now as, r1, s4)"]; simp add: admitted_stages_def t sec cron Let_def\<close>)+
  then show ?thesis
    unfolding r'
    by (intro rec_move [of e "(PcQuota a as, r, s0)"]) (simp add: assms(2) t rec_move [of e "(PcCircuit a now as, r, s1)"]
        rec_move [of e "(PcStandby a now as, r, circuit_stage e a now s1)"] rec_move [of e "(PcSecrets a now as, r, ?s3)"] sec)
qed

lemma moves_reconcileOne:
  assumes "reconcileOne e a r s = (err, r', s')"
  shows "(rec_moves e)\<^sup>*\<^sup>* (PcNext (a # as), r, s) (PcNext as, r', s')"
proof -
  obtain err1 s1 where c: "run_controllers (GetControllersForWorkload (rec_controllers e) (deref s a)) a s = (err1, s1)" by fastforce
  obtain ok s2 where p: "policy_gate e a s1 = (ok, s2)" by fastforce
  obtain ok' s3 where q: "quota_gate e a s2 = (ok', s3)" by fastforce
  have quota: "(rec_moves e)\<^sup>*\<^sup>* (PcQuota a as, r, s2) (PcNext as, r', s')" if "err1 = None" "ok"
  proof (cases ok')
    case True
    then have "admitted_stages e a r s3 = (err, r', s')" using assms that by (simp add: reconcileOne_def c p q)
    from moves_admitted [OF this] q True show ?thesis by simp
  next
    case False
    then show ?thesis using assms that by (intro rec_move [of e "(PcQuota a as, r, s2)"]) (simp add: reconcileOne_def c p q)
  qed
  have policy: "(rec_moves e)\<^sup>*\<^sup>* (PcPolicy a as, r, s1) (PcNext as, r', s')" if "err1 = None"
    using quota that assms by (intro rec_move [of e "(PcPolicy a as, r, s1)"], cases ok) (simp_all add: reconcileOne_def c p)
  show ?thesis
  proof (rule rec_move, cases err1)
    case None
    then show "(rec_moves e)\<^sup>*\<^sup>* (rec_step e (PcNext (a # as), r, s)) (PcNext as, r', s')" using policy by (simp add: c)
  next
    case (Some err2)
    then show "(rec_moves e)\<^sup>*\<^sup>* (rec_step e (PcNext (a # as), r, s)) (PcNext as, r', s')" using assms by (auto simp: reconcileOne_def c)
  qed
qed

lemma moves_reconcile_loop: "(rec_moves e)\<^sup>*\<^sup>* (PcNext as, r, s) (PcIdle, fst (reconcile_loop e as r s), snd (reconcile_loop e as r s))"
proof (induction as arbitrary: r s)
  case Nil
  show ?case by (rule rec_move) simp
next
  case (Cons a as)
  obtain err r1 s1 where o: "reconcileOne e a r s = (err, r1, s1)" using prod_cases3 by blast
  from rtranclp_trans [OF moves_reconcileOne [OF o] Cons.IH [of r1 s1]] show ?case by (simp add: o)
qed

lemma moves_reconcileAll: "(rec_moves e)\<^sup>*\<^sup>* (PcIdle, r, s) (PcIdle, reconcileAll e r s)"
proof (rule rec_move, cases "store_List (rec_store e) [] s")
  case (Pair res s1)
  then show "(rec_moves e)\<^sup>*\<^sup>* (rec_step e (PcIdle, r, s)) (PcIdle, reconcileAll e r s)"
    using moves_reconcile_loop [of e _ r s1] by (cases res) (simp_all add: reconcileAll_def)
qed


section \<open>The process\<close>

definition autoscale_one :: "MetricsProvider \<Rightarrow> Store \<Rightarrow> addr \<Rightarrow> world \<Rightarrow> world" where
  \<comment> \<open>the body of the loop of \<open>checkAllWorkloads\<close>\<close>
  "autoscale_one mp st a s = (case sp_AutoScaling (wl_Spec (deref s a)) of
     None \<Rightarrow> s
   | Some cfg \<Rightarrow> if as_Enabled cfg then snd (evaluateScaling mp st cfg a s) else s)"

record FineState =
  fx_proc :: ProcState
  fx_rec :: rec_pc
  fx_scale :: "addr list option"
  fx_check :: "addr list option"

abbreviation fx_world :: "FineState \<Rightarrow> world" where
  "fx_world x \<equiv> px_world (fx_proc x)"

definition fine_initial :: "Config \<Rightarrow> (nat \<Rightarrow> gotime) \<Rightarrow> (nat \<Rightarrow> string) \<Rightarrow> FineState" where
  "fine_initial cfg clock ids = \<lparr>fx_proc = initial_state cfg clock ids, fx_rec = PcIdle, fx_scale = None, fx_check = None\<rparr>"

definition set_fine_world :: "world \<Rightarrow> FineState \<Rightarrow> FineState" where
  "set_fine_world s x = x\<lparr>fx_proc := set_world s (fx_proc x)\<rparr>"

definition exit_fine :: "FineState \<Rightarrow> FineState" where
  "exit_fine x = x\<lparr>fx_proc := exit_process (fx_proc x)\<rparr>"

definition reconciler_move :: "('q, 'x) Process \<Rightarrow> FineState \<Rightarrow> FineState" where
  "reconciler_move p x =
     (let t = px_state (fx_proc x);
          (pc, r, s) = rec_step ((pr_reconciler p)\<lparr>rec_quota := sx_quota t\<rparr>) (fx_rec x, sx_registry t, sx_world t)
      in x\<lparr>fx_rec := pc, fx_proc := (fx_proc x)\<lparr>px_state := t\<lparr>sx_world := s, sx_registry := r\<rparr>\<rparr>\<rparr>)"

definition autoscaler_move :: "('q, 'x) Process \<Rightarrow> FineState \<Rightarrow> FineState" where
  "autoscaler_move p x = (case fx_scale x of
     None \<Rightarrow>
       (case store_List (rec_store (pr_reconciler p)) [] (fx_world x) of
          (Inl err, s) \<Rightarrow> set_fine_world s x
        | (Inr workloads, s) \<Rightarrow> (set_fine_world s x)\<lparr>fx_scale := Some workloads\<rparr>)
   | Some [] \<Rightarrow> x\<lparr>fx_scale := None\<rparr>
   | Some (a # as) \<Rightarrow>
       (set_fine_world (autoscale_one (pr_metrics p) (rec_store (pr_reconciler p)) a (fx_world x)) x)\<lparr>fx_scale := Some as\<rparr>)"

definition drift_move :: "Detector \<Rightarrow> addr list \<Rightarrow> FineState \<Rightarrow> FineState option" where
  \<comment> \<open>\<open>None\<close>: a panic\<close>
  "drift_move d watched x =
     (if dc_CheckInterval d \<le> 0 then None
      else case fx_check x of
             None \<Rightarrow> Some (x\<lparr>fx_check := Some watched\<rparr>)
           | Some [] \<Rightarrow> Some (x\<lparr>fx_check := None\<rparr>)
           | Some (a # as) \<Rightarrow>
               (case checkWorkload d a (px_drift (fx_proc x)) (fx_world x) of
                  None \<Rightarrow> None
                | Some (ds, s) \<Rightarrow> Some (x\<lparr>fx_proc := (set_world s (fx_proc x))\<lparr>px_drift := ds\<rparr>, fx_check := Some as\<rparr>)))"

inductive fine_step :: "('q, 'x) Process \<Rightarrow> FineState \<Rightarrow> FineState \<Rightarrow> bool" for p where
  start: "px_alive (fx_proc x) \<Longrightarrow> \<not> px_started (fx_proc x) \<Longrightarrow> reconciler_Start p (fx_proc x) = Some y \<Longrightarrow>
    fine_step p x (x\<lparr>fx_proc := y\<rparr>)"
| start_panic: "px_alive (fx_proc x) \<Longrightarrow> \<not> px_started (fx_proc x) \<Longrightarrow> reconciler_Start p (fx_proc x) = None \<Longrightarrow> fine_step p x (exit_fine x)"
| reconcile: "px_alive (fx_proc x) \<Longrightarrow> px_started (fx_proc x) \<Longrightarrow> fine_step p x (reconciler_move p x)"
| autoscale: "px_alive (fx_proc x) \<Longrightarrow> px_started (fx_proc x) \<Longrightarrow> fine_step p x (autoscaler_move p x)"
| drift: "px_alive (fx_proc x) \<Longrightarrow> pr_detector p = Some d \<Longrightarrow> px_watched (fx_proc x) = Some as \<Longrightarrow> drift_move d as x = Some y \<Longrightarrow> fine_step p x y"
| drift_panic: "px_alive (fx_proc x) \<Longrightarrow> pr_detector p = Some d \<Longrightarrow> px_watched (fx_proc x) = Some as \<Longrightarrow> drift_move d as x = None \<Longrightarrow>
    fine_step p x (exit_fine x)"
| request: "px_alive (fx_proc x) \<Longrightarrow> pr_server p = Some sv \<Longrightarrow> serve sv r path (px_state (fx_proc x)) = Some (resp, t) \<Longrightarrow>
    fine_step p x (x\<lparr>fx_proc := (fx_proc x)\<lparr>px_state := t\<rparr>\<rparr>)"
| stop: "px_alive (fx_proc x) \<Longrightarrow> fine_step p x (exit_fine x)"

inductive_cases fine_stepE: "fine_step p x y"

section \<open>Every coarse run is a fine run\<close>

definition between_passes :: "ProcState \<Rightarrow> FineState" where
  "between_passes x = \<lparr>fx_proc = x, fx_rec = PcIdle, fx_scale = None, fx_check = None\<rparr>"

definition rec_state :: "FineState \<Rightarrow> rec_pc \<times> SecretRegistry \<times> world" where
  "rec_state x = (fx_rec x, sx_registry (px_state (fx_proc x)), fx_world x)"

definition put_rec_state :: "rec_pc \<times> SecretRegistry \<times> world \<Rightarrow> FineState \<Rightarrow> FineState" where
  "put_rec_state y x = (case y of (pc, r, s) \<Rightarrow>
     x\<lparr>fx_rec := pc, fx_proc := (fx_proc x)\<lparr>px_state := (px_state (fx_proc x))\<lparr>sx_world := s, sx_registry := r\<rparr>\<rparr>\<rparr>)"

lemma reconciler_move_eq:
  "reconciler_move p x = put_rec_state (rec_step ((pr_reconciler p)\<lparr>rec_quota := sx_quota (px_state (fx_proc x))\<rparr>) (rec_state x)) x"
  by (simp add: reconciler_move_def put_rec_state_def rec_state_def Let_def split: prod.split)

lemma put_rec_state_simps [simp]:
  "rec_state (put_rec_state y x) = y" "put_rec_state z (put_rec_state y x) = put_rec_state z x" "put_rec_state (rec_state x) x = x"
  "px_alive (fx_proc (put_rec_state y x)) = px_alive (fx_proc x)" "px_started (fx_proc (put_rec_state y x)) = px_started (fx_proc x)"
  "sx_quota (px_state (fx_proc (put_rec_state y x))) = sx_quota (px_state (fx_proc x))"
  by (cases y; cases z; simp add: rec_state_def put_rec_state_def)+

lemma fine_reconciler_run:
  assumes "(rec_moves ((pr_reconciler p)\<lparr>rec_quota := sx_quota (px_state (fx_proc x))\<rparr>))\<^sup>*\<^sup>* (rec_state x) y"
    "px_alive (fx_proc x)" "px_started (fx_proc x)"
  shows "(fine_step p)\<^sup>*\<^sup>* x (put_rec_state y x)"
  using assms(1)
proof (induction rule: rtranclp_induct)
  case (step y z)
  have "fine_step p (put_rec_state y x) (reconciler_move p (put_rec_state y x))" using assms(2,3) by (intro reconcile) simp_all
  then show ?case using step.IH step.hyps(2) by (auto simp: reconciler_move_eq rec_moves_def intro: rtranclp.rtrancl_into_rtrancl)
qed simp

lemma autoscale_loop_Cons: "autoscale_loop mp st (a # as) s = autoscale_loop mp st as (autoscale_one mp st a s)"
  by (simp add: autoscale_one_def)

lemma set_fine_world_simps [simp]:
  "fx_world (set_fine_world s x) = s" "fx_scale (set_fine_world s x) = fx_scale x" "set_fine_world s (set_fine_world s' x) = set_fine_world s x"
  "px_alive (fx_proc (set_fine_world s x)) = px_alive (fx_proc x)" "px_started (fx_proc (set_fine_world s x)) = px_started (fx_proc x)"
  "set_fine_world (fx_world x) x = x" "set_fine_world s (x\<lparr>fx_scale := l\<rparr>) = (set_fine_world s x)\<lparr>fx_scale := l\<rparr>"
  by (simp_all add: set_fine_world_def set_world_def)

lemma fine_autoscaler_run:
  assumes "px_alive (fx_proc x)" "px_started (fx_proc x)" "fx_scale x = Some as"
  shows "(fine_step p)\<^sup>*\<^sup>* x ((set_fine_world (autoscale_loop (pr_metrics p) (rec_store (pr_reconciler p)) as (fx_world x)) x)\<lparr>fx_scale := None\<rparr>)"
  using assms
proof (induction as arbitrary: x)
  case Nil
  have "fine_step p x (autoscaler_move p x)" using Nil(1,2) by (rule autoscale)
  then show ?case using Nil(3) by (simp add: autoscaler_move_def)
next
  case (Cons a as)
  let ?x = "(set_fine_world (autoscale_one (pr_metrics p) (rec_store (pr_reconciler p)) a (fx_world x)) x)\<lparr>fx_scale := Some as\<rparr>"
  have "fine_step p x ?x" using autoscale [OF Cons.prems(1,2), of p] Cons.prems(3) by (simp add: autoscaler_move_def)
  moreover have "(fine_step p)\<^sup>*\<^sup>* ?x ((set_fine_world (autoscale_loop (pr_metrics p) (rec_store (pr_reconciler p)) as (fx_world ?x)) ?x)\<lparr>fx_scale := None\<rparr>)"
    using Cons.prems by (intro Cons.IH) simp_all
  ultimately show ?case by (simp add: autoscale_one_def converse_rtranclp_into_rtranclp)
qed


definition set_drift :: "DriftState \<Rightarrow> world \<Rightarrow> FineState \<Rightarrow> FineState" where
  "set_drift ds s x = x\<lparr>fx_proc := (set_world s (fx_proc x))\<lparr>px_drift := ds\<rparr>\<rparr>"

lemma set_drift_simps [simp]:
  "fx_world (set_drift ds s x) = s" "px_drift (fx_proc (set_drift ds s x)) = ds" "px_alive (fx_proc (set_drift ds s x)) = px_alive (fx_proc x)"
  "px_watched (fx_proc (set_drift ds s x)) = px_watched (fx_proc x)" "fx_check (set_drift ds s x) = fx_check x"
  "set_drift ds' s' (set_drift ds s x) = set_drift ds' s' x" "set_drift (px_drift (fx_proc x)) (fx_world x) x = x"
  "set_drift ds s (x\<lparr>fx_check := l\<rparr>) = (set_drift ds s x)\<lparr>fx_check := l\<rparr>"
  by (simp_all add: set_drift_def set_world_def)

lemma drift_move_Cons:
  assumes "0 < dc_CheckInterval d" "fx_check x = Some (a # as)"
  shows "drift_move d watched x = (case checkWorkload d a (px_drift (fx_proc x)) (fx_world x) of
     None \<Rightarrow> None | Some (ds, s) \<Rightarrow> Some ((set_drift ds s x)\<lparr>fx_check := Some as\<rparr>))"
  using assms by (simp add: drift_move_def set_drift_def split: option.split)

lemma fine_drift_run:
  assumes "px_alive (fx_proc x)" "pr_detector p = Some d" "px_watched (fx_proc x) = Some watched" "0 < dc_CheckInterval d" "fx_check x = Some as"
  shows "case checkWorkloads d as (px_drift (fx_proc x)) (fx_world x) of
     Some (ds, s) \<Rightarrow> (fine_step p)\<^sup>*\<^sup>* x ((set_drift ds s x)\<lparr>fx_check := None\<rparr>)
   | None \<Rightarrow> \<exists>y. (fine_step p)\<^sup>*\<^sup>* x (exit_fine y)"
  using assms
proof (induction as arbitrary: x)
  case Nil
  then have "fine_step p x (x\<lparr>fx_check := None\<rparr>)" by (intro drift [OF Nil(1-3)]) (simp add: drift_move_def)
  then show ?case by simp
next
  case (Cons a as)
  show ?case
  proof (cases "checkWorkload d a (px_drift (fx_proc x)) (fx_world x)")
    case None
    then have "fine_step p x (exit_fine x)" using Cons.prems by (intro drift_panic [OF Cons.prems(1-3)]) (simp add: drift_move_Cons)
    then show ?thesis using None by auto
  next
    case (Some y)
    obtain ds s where y: "y = (ds, s)" by fastforce
    let ?x = "(set_drift ds s x)\<lparr>fx_check := Some as\<rparr>"
    have step: "fine_step p x ?x" using Cons.prems Some y by (intro drift [OF Cons.prems(1-3)]) (simp add: drift_move_Cons)
    have "case checkWorkloads d as (px_drift (fx_proc ?x)) (fx_world ?x) of
       Some (ds, s) \<Rightarrow> (fine_step p)\<^sup>*\<^sup>* ?x ((set_drift ds s ?x)\<lparr>fx_check := None\<rparr>)
     | None \<Rightarrow> \<exists>y. (fine_step p)\<^sup>*\<^sup>* ?x (exit_fine y)" using Cons.prems by (intro Cons.IH) simp_all
    then show ?thesis using step Some y by (auto split: option.splits intro: converse_rtranclp_into_rtranclp)
  qed
qed

lemma between_passes_simps [simp]:
  "fx_proc (between_passes x) = x" "fx_rec (between_passes x) = PcIdle" "fx_scale (between_passes x) = None" "fx_check (between_passes x) = None"
  "(between_passes x)\<lparr>fx_proc := y\<rparr> = between_passes y" "(between_passes x)\<lparr>fx_scale := None\<rparr> = between_passes x"
  "(between_passes x)\<lparr>fx_check := None\<rparr> = between_passes x"
  "set_fine_world s (between_passes x) = between_passes (set_world s x)" "set_drift ds s (between_passes x) = between_passes ((set_world s x)\<lparr>px_drift := ds\<rparr>)"
  by (simp_all add: between_passes_def set_fine_world_def set_drift_def)

lemma fine_reconciler_tick:
  assumes "px_alive x" "px_started x"
  shows "(fine_step p)\<^sup>*\<^sup>* (between_passes x) (between_passes (reconciler_tick p x))"
proof -
  let ?e = "(pr_reconciler p)\<lparr>rec_quota := sx_quota (px_state x)\<rparr>"
  have "(rec_moves ?e)\<^sup>*\<^sup>* (rec_state (between_passes x)) (PcIdle, reconcileAll ?e (sx_registry (px_state x)) (px_world x))"
    using moves_reconcileAll [of ?e] by (simp add: rec_state_def)
  then have "(fine_step p)\<^sup>*\<^sup>* (between_passes x) (put_rec_state (PcIdle, reconcileAll ?e (sx_registry (px_state x)) (px_world x)) (between_passes x))"
    using fine_reconciler_run [where p = p and x = "between_passes x"] assms by simp
  then show ?thesis by (simp add: put_rec_state_def reconciler_tick_def between_passes_def split_beta Let_def)
qed

lemma fine_autoscaler_tick:
  assumes "px_alive x" "px_started x"
  shows "(fine_step p)\<^sup>*\<^sup>* (between_passes x) (between_passes (autoscaler_tick p x))"
proof -
  let ?x = "between_passes x" let ?st = "rec_store (pr_reconciler p)"
  have f: "fine_step p ?x (autoscaler_move p ?x)" using assms by (intro fine_step.autoscale) simp_all
  obtain res s where l: "store_List ?st [] (px_world x) = (res, s)" by fastforce
  show ?thesis
  proof (cases res)
    case (Inl err)
    then show ?thesis using f l by (auto simp: autoscaler_move_def autoscaler_tick_def checkAllWorkloads_def)
  next
    case (Inr as)
    let ?x1 = "(between_passes (set_world s x))\<lparr>fx_scale := Some as\<rparr>"
    have 1: "fine_step p ?x ?x1" using f l Inr by (simp add: autoscaler_move_def)
    have "(fine_step p)\<^sup>*\<^sup>* ?x1 (between_passes (set_world (autoscale_loop (pr_metrics p) ?st as s) x))"
      using fine_autoscaler_run [of ?x1 as p] assms by (simp add: set_world_def)
    with 1 show ?thesis using l Inr by (simp add: autoscaler_tick_def checkAllWorkloads_def converse_rtranclp_into_rtranclp)
  qed
qed

lemma fine_drift_tick:
  assumes "px_alive x" "pr_detector p = Some d" "px_watched x = Some as"
  shows "case drift_tick d as x of Some y \<Rightarrow> (fine_step p)\<^sup>*\<^sup>* (between_passes x) (between_passes y)
    | None \<Rightarrow> \<exists>z. (fine_step p)\<^sup>*\<^sup>* (between_passes x) (exit_fine z)"
proof (cases "0 < dc_CheckInterval d")
  case True
  let ?x = "(between_passes x)\<lparr>fx_check := Some as\<rparr>"
  have 1: "fine_step p (between_passes x) ?x"
    using assms True by (intro fine_step.drift [where d = d]) (simp_all add: drift_move_def)
  have "case checkWorkloads d as (px_drift x) (px_world x) of
     Some (ds, s) \<Rightarrow> (fine_step p)\<^sup>*\<^sup>* ?x (between_passes ((set_world s x)\<lparr>px_drift := ds\<rparr>)) | None \<Rightarrow> \<exists>y. (fine_step p)\<^sup>*\<^sup>* ?x (exit_fine y)"
    using fine_drift_run [of ?x p d as as] assms True by (simp split: option.split_asm option.split)
  then show ?thesis using 1 True by (auto simp: drift_tick_def split: option.splits intro: converse_rtranclp_into_rtranclp)
next
  case False
  then have "fine_step p (between_passes x) (exit_fine (between_passes x))"
    using assms by (intro fine_step.drift_panic [where d = d]) (simp_all add: drift_move_def)
  then show ?thesis using False by (auto simp: drift_tick_def)
qed



section \<open>What every interleaving keeps\<close>

fun pc_addrs :: "rec_pc \<Rightarrow> addr set" where
  "pc_addrs PcIdle = {}"
| "pc_addrs (PcNext as) = set as"
| "pc_addrs (PcPolicy a as) = insert a (set as)"
| "pc_addrs (PcQuota a as) = insert a (set as)"
| "pc_addrs (PcCircuit a now as) = insert a (set as)"
| "pc_addrs (PcStandby a now as) = insert a (set as)"
| "pc_addrs (PcSecrets a now as) = insert a (set as)"
| "pc_addrs (PcCron a now as) = insert a (set as)"
| "pc_addrs (PcRoute a now c as) = insert a (set as)"
| "pc_addrs (PcDeploy a c as) = insert a (set as)"
| "pc_addrs (PcPost a c as) = insert a (set as)"

definition addrs_ok :: "addr set \<Rightarrow> world \<Rightarrow> bool" where
  "addrs_ok as s = (\<forall>a \<in> as. a < wd_fresh s)"

lemma addrs_ok_simps [simp]: "addrs_ok {} s" "addrs_ok (insert a as) s \<longleftrightarrow> a < wd_fresh s \<and> addrs_ok as s"
  by (simp_all add: addrs_ok_def)

lemma addrs_ok_mono: "addrs_ok as s \<Longrightarrow> wd_fresh s \<le> wd_fresh s' \<Longrightarrow> bs \<subseteq> as \<Longrightarrow> addrs_ok bs s'"
  unfolding addrs_ok_def by (meson less_le_trans subsetD)

context audited_store
begin

lemma listed_addrs_ok:
  assumes "store_ok stored valid s" "store_List st ns s = (res, s')"
  shows "s' = s" "res = Ok as \<Longrightarrow> addrs_ok (set as) s"
proof -
  obtain bs where "store_List st ns s = (Ok bs, s)" "\<forall>a \<in> set bs. a < wd_fresh s" using listed_fresh [OF assms(1)] by blast
  then show "s' = s" "res = Ok as \<Longrightarrow> addrs_ok (set as) s" using assms(2) by (auto simp: addrs_ok_def)
qed

lemma rec_step_pc:
  assumes "store_ok stored valid s" "rec_store e = st" "rec_step e (pc, r, s) = (pc', r', s')"
  shows "pc_addrs pc' \<subseteq> pc_addrs pc \<or> (pc = PcIdle \<and> addrs_ok (pc_addrs pc') s)"
proof (cases pc)
  case PcIdle
  obtain res s1 where l: "store_List st [] s = (res, s1)" by fastforce
  then show ?thesis
    using assms listed_addrs_ok [OF assms(1) l]
    by (cases res) (auto simp: PcIdle reconcile_order_def)
next
  case (PcNext as)
  then show ?thesis using assms(3) by (cases as) (auto split: option.splits prod.splits)
qed (use assms(3) in \<open>auto split: if_splits option.splits prod.splits bool.splits cron_verdict.splits\<close>)

lemma ev_rec_step:
  assumes "store_ok stored valid s" "addrs_ok (pc_addrs pc) s" "rec_store e = st" "rec_controllers e = []"
  shows "ev (pass_quiet e) s (snd (snd (rec_step e (pc, r, s))))"
proof -
  let ?q = "pass_quiet e"
  have q: "?q \<Longrightarrow> driverless (rec_scheduler e)" by (simp add: pass_quiet_def)
  show ?thesis
  proof (cases pc)
    case PcIdle
    obtain res s1 where l: "store_List st [] s = (res, s1)" by fastforce
    then show ?thesis using listed_addrs_ok(1) [OF assms(1) l] by (cases res) (simp_all add: PcIdle assms(3))
  next
    case (PcNext as)
    then show ?thesis using assms(4) by (cases as) (simp_all add: GetControllersForWorkload_def)
  next
    case (PcPolicy a as)
    then show ?thesis using ev_policy_gate [of ?q s e a] by (simp add: split_beta)
  next
    case (PcQuota a as)
    obtain ok where "quota_gate e a s = (ok, s)" using ev_quota_gate [OF assms(1,3), of a] by (metis prod.collapse)
    then show ?thesis by (simp add: PcQuota split_beta split: bool.split)
  next
    case (PcCircuit a now as)
    then show ?thesis using evolves_mono [OF ev_circuit_stage [OF assms(1) _ assms(3)] q] assms(2) by simp
  next
    case (PcStandby a now as)
    then show ?thesis using ev_standby_stage [OF assms(1) _ assms(3)] assms(2) by simp
  next
    case (PcSecrets a now as)
    then show ?thesis using evolves_mono [OF ev_secrets_stage [OF _ assms(3)] q] assms(2) by (simp add: split_beta)
  next
    case (PcCron a now as)
    then show ?thesis using ev_cron_stage [of ?q s e a] by (cases "cron_stage e a s") (auto split: cron_verdict.split)
  next
    case (PcRoute a now c as)
    then show ?thesis using ev_route_stage [of ?q s e a now] by (simp add: split_beta)
  next
    case (PcDeploy a c as)
    then show ?thesis using ev_launch [of e s a] by (simp add: split_beta split: option.split)
  next
    case (PcPost a c as)
    then show ?thesis using ev_postSchedule [OF _ assms(3)] assms(2) by (simp add: split_beta)
  qed
qed

lemma ev_autoscale_one: "a < wd_fresh s \<Longrightarrow> ev nd s (autoscale_one mp st a s)"
  by (simp add: autoscale_one_def ev_evaluateScaling split: option.split)

end

definition fine_ok :: "(world \<Rightarrow> string \<Rightarrow> addr option) \<Rightarrow> (world \<Rightarrow> bool) \<Rightarrow> FineState \<Rightarrow> bool" where
  \<comment> \<open>the store is well formed and every object a pass still holds exists\<close>
  "fine_ok stored valid x = (store_ok stored valid (fx_world x) \<and> addrs_ok (pc_addrs (fx_rec x)) (fx_world x) \<and>
     (case fx_scale x of None \<Rightarrow> True | Some as \<Rightarrow> addrs_ok (set as) (fx_world x)))"

lemma fine_okI:
  assumes "fine_ok stored valid x" "evolves stored valid nd (fx_world x) (fx_world y)"
    and "pc_addrs (fx_rec y) \<subseteq> pc_addrs (fx_rec x) \<or> addrs_ok (pc_addrs (fx_rec y)) (fx_world x)"
    and "\<And>as. fx_scale y = Some as \<Longrightarrow> (\<exists>bs. fx_scale x = Some bs \<and> set as \<subseteq> set bs) \<or> addrs_ok (set as) (fx_world x)"
  shows "fine_ok stored valid y"
proof -
  have f: "wd_fresh (fx_world x) \<le> wd_fresh (fx_world y)" "store_ok stored valid (fx_world y)"
    using assms(1,2) by (simp_all add: evolves_def fine_ok_def)
  have "addrs_ok (pc_addrs (fx_rec y)) (fx_world y)"
    using assms(1,3) addrs_ok_mono [OF _ f(1)] unfolding fine_ok_def by blast
  moreover have "addrs_ok (set as) (fx_world y)" if "fx_scale y = Some as" for as
    using assms(1) assms(4) [OF that] addrs_ok_mono [OF _ f(1)] unfolding fine_ok_def by fastforce
  ultimately show ?thesis using f(2) by (simp add: fine_ok_def split: option.split)
qed

context audited_store
begin

lemma ev_reconciler_move:
  assumes "uses_store p st" "fine_ok stored valid x"
  shows "ev (process_quiet p) (fx_world x) (fx_world (reconciler_move p x)) \<and> fine_ok stored valid (reconciler_move p x)"
proof -
  let ?t = "px_state (fx_proc x)" let ?e = "(pr_reconciler p)\<lparr>rec_quota := sx_quota (px_state (fx_proc x))\<rparr>"
  obtain pc r s where m: "rec_step ?e (fx_rec x, sx_registry ?t, sx_world ?t) = (pc, r, s)" using prod_cases3 by blast
  have e: "rec_store ?e = st" "rec_controllers ?e = []" "process_quiet p \<Longrightarrow> pass_quiet ?e"
    using assms(1) by (simp_all add: uses_store_def process_quietD(1))
  have ok: "store_ok stored valid (sx_world ?t)" "addrs_ok (pc_addrs (fx_rec x)) (sx_world ?t)" using assms(2) by (simp_all add: fine_ok_def)
  have 1: "ev (process_quiet p) (sx_world ?t) s"
    using evolves_mono [OF ev_rec_step [OF ok e(1,2), of "sx_registry ?t"] e(3)] m by simp
  have y: "fx_world (reconciler_move p x) = s" "fx_rec (reconciler_move p x) = pc" "fx_scale (reconciler_move p x) = fx_scale x"
    using m by (simp_all add: reconciler_move_def)
  have "fine_ok stored valid (reconciler_move p x)"
    by (rule fine_okI [OF assms(2), where nd = "process_quiet p"]) (use 1 y rec_step_pc [OF ok(1) e(1) m] in auto)
  then show ?thesis using 1 y(1) by simp
qed

lemma ev_autoscaler_move:
  assumes "uses_store p st" "fine_ok stored valid x"
  shows "ev nd (fx_world x) (fx_world (autoscaler_move p x)) \<and> fine_ok stored valid (autoscaler_move p x)"
proof -
  let ?y = "autoscaler_move p x"
  have st: "rec_store (pr_reconciler p) = st" using assms(1) by (simp add: uses_store_def)
  have ok: "store_ok stored valid (fx_world x)" using assms(2) by (simp add: fine_ok_def)
  obtain res s where l: "store_List st [] (fx_world x) = (res, s)" by fastforce
  note la = listed_addrs_ok [OF ok l]
  have r: "fx_rec ?y = fx_rec x" by (simp add: autoscaler_move_def set_fine_world_def split: option.split list.split prod.split sum.split)
  have "ev nd (fx_world x) (fx_world ?y) \<and>
      (\<forall>as. fx_scale ?y = Some as \<longrightarrow> (\<exists>bs. fx_scale x = Some bs \<and> set as \<subseteq> set bs) \<or> addrs_ok (set as) (fx_world x))"
  proof (cases "fx_scale x")
    case None
    then show ?thesis using la by (cases res) (simp_all add: autoscaler_move_def st l)
  next
    case (Some as)
    then show ?thesis
      using assms(2) by (cases as) (auto simp: autoscaler_move_def st fine_ok_def intro: ev_autoscale_one)
  qed
  then show ?thesis using fine_okI [OF assms(2), where nd = nd and y = ?y] r by auto
qed

lemma ev_fine_step:
  assumes "uses_store p st" "fine_ok stored valid x" "fine_step p x y"
  shows "ev (process_quiet p) (fx_world x) (fx_world y) \<and> fine_ok stored valid y"
  using assms(3)
proof cases
  case (start y')
  have "px_world y' = fx_world x" using ev_Start [OF assms(1) _ start(4)] assms(2) by (simp add: fine_ok_def)
  then show ?thesis using start(1) assms(2) by (simp add: fine_ok_def split: option.splits)
next
  case reconcile
  then show ?thesis using ev_reconciler_move [OF assms(1,2)] by simp
next
  case autoscale
  then show ?thesis using ev_autoscaler_move [OF assms(1,2)] by simp
next
  case (drift d as)
  have "ev (process_quiet p) (fx_world x) (fx_world y) \<and> fx_rec y = fx_rec x \<and> fx_scale y = fx_scale x"
    using drift(4) process_quietD(3) [OF _ drift(2)]
    by (auto simp: drift_move_def split: if_splits option.splits list.splits intro!: ev_checked checked_refl dest: checkWorkload_observed)
  then show ?thesis using fine_okI [OF assms(2), where nd = "process_quiet p" and y = y] by auto
next
  case (request sv r path resp t)
  have "sv_store sv = st" "store_ok stored valid (fx_world x)" using assms(1,2) request(3) by (simp_all add: uses_store_def fine_ok_def)
  from evolves_mono [OF ev_serve [OF this request(4)] process_quietD(2) [OF _ request(3)]]
  have "ev (process_quiet p) (fx_world x) (fx_world y)" using request(1) by simp
  then show ?thesis using request(1) by (auto intro: fine_okI [OF assms(2), where nd = "process_quiet p"])
qed (use assms(2) in \<open>simp_all add: exit_fine_def exit_process_def fine_ok_def split: option.splits\<close>)

lemma ev_fine_run:
  assumes "uses_store p st" "fine_ok stored valid x" "(fine_step p)\<^sup>*\<^sup>* x y"
  shows "ev (process_quiet p) (fx_world x) (fx_world y) \<and> fine_ok stored valid y"
  using assms(3)
proof (induction rule: rtranclp_induct)
  case (step y z)
  then show ?case using ev_fine_step [OF assms(1) _ step.hyps(2)] by (blast intro: evolves_trans)
qed (simp add: assms(2))

end

lemma fine_initial_ok: "fine_ok mem_stored mem_valid (fine_initial cfg clock ids)"
  using initial_state_ok(1) by (simp add: fine_ok_def fine_initial_def)

text \<open>
  C3. The whole process keeps its state well formed: from start-up on, after any interleaving of
  requests with the stages of reconciler passes, autoscaler and drift detector turns, with
  whatever drivers, policies and strategies, the in-memory store (with or without rollback
  history) has one entry per id, every workload under its own id and no dangling object, and the
  versions of each aggregate in the event log are strictly increasing.
\<close>

theorem interleaved_state_stays_wellformed:
  assumes "uses_store p (wrap_store cfg MemStore)" "(fine_step p)\<^sup>*\<^sup>* (fine_initial cfg clock ids) x"
  shows "store_ok mem_stored mem_valid (fx_world x) \<and> sorted_wrt (<) (map de_Version (log_of (wd_log (fx_world x)) agg))"
proof -
  have "evolves mem_stored mem_valid (process_quiet p) (fx_world (fine_initial cfg clock ids)) (fx_world x)"
    using aw.ev_fine_run [OF assms(1) fine_initial_ok assms(2)] by blast
  then have "store_ok mem_stored mem_valid (fx_world x)" "log_inv (wd_log (fx_world x))"
    using initial_state_ok [of cfg clock ids] by (simp_all add: evolves_def fine_initial_def)
  then show ?thesis unfolding log_inv_def by blast
qed

text \<open>
  C17. The process only ever starts things: whatever drivers are registered and however requests
  and passes interleave, the calls made to runtime drivers are deployments, restarts and status
  queries. No driver is ever asked to delete or update a workload, so deleting a workload
  through the API leaves what was deployed for it running.
\<close>

theorem runtime_is_never_told_to_delete:
  assumes "uses_store p (wrap_store cfg MemStore)" "(fine_step p)\<^sup>*\<^sup>* (fine_initial cfg clock ids) x"
  shows "list_all (\<lambda>(name, call). (\<exists>w. call = CallDeploy w) \<or> (\<exists>w. call = CallRestart w) \<or> (\<exists>i. call = CallGetStatus i)) (wd_calls (fx_world x))"
proof -
  have "evolves mem_stored mem_valid (process_quiet p) (fx_world (fine_initial cfg clock ids)) (fx_world x)"
    using aw.ev_fine_run [OF assms(1) fine_initial_ok assms(2)] by blast
  then have "list_all (\<lambda>c. \<not> alters_deployed (snd c)) (wd_calls (fx_world x))"
    using initial_state_ok(3) [of cfg clock ids] by (auto simp: evolves_def fine_initial_def trace_grows_def)
  moreover have "\<not> alters_deployed call \<Longrightarrow> (\<exists>w. call = CallDeploy w) \<or> (\<exists>w. call = CallRestart w) \<or> (\<exists>i. call = CallGetStatus i)" for call
    by (cases call) auto
  ultimately show ?thesis by (fastforce simp: list_all_iff)
qed


section \<open>A request in the middle of a pass\<close>

lemma mark_running_fields [simp]:
  "wl_ID (mark_running now c w) = wl_ID w" "wl_Spec (mark_running now c w) = wl_Spec w" "phase (mark_running now c w) = WorkloadPhaseRunning"
  by (simp_all add: mark_running_def Let_def)

context audited_store
begin

lemma postSchedule_writes_back:
  assumes "rec_store e = st" "stored s (wl_ID (deref s a)) = Some b"
  shows "stored (snd (postSchedule e a c s)) = (stored s)(wl_ID (deref s a) \<mapsto> a)"
    "wl_Spec (deref (snd (postSchedule e a c s)) a) = wl_Spec (deref s a)" "phase (deref (snd (postSchedule e a c s)) a) = WorkloadPhaseRunning"
proof -
  obtain now s1 where t: "time_Now s = (now, s1)" by fastforce
  have h: "wd_heap s1 = wd_heap s" "wd_mem s1 = wd_mem s" using time_Now_frame [of s] t by simp_all
  let ?s2 = "modify a (mark_running now c) s1"
  have m: "stored ?s2 = stored s" "stored s1 = stored s" by (rule stored_mem; simp add: h(2))+
  obtain s3 where u: "store_Update st a ?s2 = (None, s3)" "stored s3 = (stored s)(wl_ID (deref s a) \<mapsto> a)" "store_frame ?s2 s3"
    using Update_known [of ?s2 a b] assms(2) by (auto simp: m h(1))
  let ?s' = "snd (postSchedule e a c s)"
  have "wd_heap ?s' = wd_heap s3" "wd_mem ?s' = wd_mem s3" by (simp_all add: postSchedule_def t u(1) assms(1) Let_def)
  then show "stored ?s' = (stored s)(wl_ID (deref s a) \<mapsto> a)" "wl_Spec (deref ?s' a) = wl_Spec (deref s a)" "phase (deref ?s' a) = WorkloadPhaseRunning"
    using stored_mem [of ?s' s3] u(2) store_frame_spec [OF u(3), of a] store_frame_phase [OF u(3), of a] by (simp_all add: h(1))
qed

lemma redeploy_lost:
  assumes "uses_store p st" "store_ok stored valid (fx_world x)" "pr_server p = Some sv" "fx_rec x = PcPost a c as"
    and "stored (fx_world x) i = Some a" "trim_space (bi_ID item) = i" "i \<noteq> []" "deployOne sv item (px_state (fx_proc x)) = (err, t)"
  defines "y \<equiv> reconciler_move p (x\<lparr>fx_proc := (fx_proc x)\<lparr>px_state := t\<rparr>\<rparr>)"
  shows "err = None" "\<exists>b. b \<noteq> a \<and> stored (sx_world t) i = Some b \<and> wl_Spec (deref (sx_world t) b) = bi_Spec item"
    "stored (fx_world y) i = Some a" "wl_Spec (deref (fx_world y) a) = wl_Spec (deref (fx_world x) a)"
    "phase (deref (fx_world y) a) = WorkloadPhaseRunning"
proof -
  let ?s = "fx_world x" let ?b = "wd_fresh ?s"
  have sv: "sv_store sv = st" and e: "rec_store (pr_reconciler p) = st" using assms(1,3) by (simp_all add: uses_store_def)
  have i: "fst (item_id item ?s) = i" using assms(6,7) by (simp add: item_id_def)
  obtain t' where t': "deployOne sv item (px_state (fx_proc x)) = (None, t')" "stored (sx_world t') = (stored ?s)(i \<mapsto> ?b)"
    "store_frame (fresh_pending item ?s) (sx_world t')"
    using deployOne_spec [OF sv, of item "px_state (fx_proc x)"] unfolding i by blast
  then have t: "t = t'" "err = None" using assms(8) by simp_all
  have a: "a < ?b" "wl_ID (deref ?s a) = i" using assms(2,5) by (simp_all add: store_ok_def keyed_def)
  then have "deref (fresh_pending item ?s) a = deref ?s a" by simp
  then have old: "wl_ID (deref (sx_world t) a) = i" "wl_Spec (deref (sx_world t) a) = wl_Spec (deref ?s a)"
    using a(2) store_frame_id [OF t'(3), of a] store_frame_spec [OF t'(3), of a] by (simp_all add: t)
  have new: "wl_Spec (deref (sx_world t) ?b) = bi_Spec item" using store_frame_spec [OF t'(3), of ?b] by (simp add: t)
  show "err = None" by (rule t(2))
  show "\<exists>b. b \<noteq> a \<and> stored (sx_world t) i = Some b \<and> wl_Spec (deref (sx_world t) b) = bi_Spec item"
    using a(1) new t'(2) by (intro exI [of _ ?b]) (simp add: t)
  have "stored (sx_world t) (wl_ID (deref (sx_world t) a)) = Some ?b" using t'(2) old(1) by (simp add: t)
  note w = postSchedule_writes_back [OF _ this, of "(pr_reconciler p)\<lparr>rec_quota := sx_quota t\<rparr>" c]
  have "fx_world y = snd (postSchedule ((pr_reconciler p)\<lparr>rec_quota := sx_quota t\<rparr>) a c (sx_world t))"
    using assms(4) by (simp add: y_def reconciler_move_def split_beta Let_def)
  then show "stored (fx_world y) i = Some a" "wl_Spec (deref (fx_world y) a) = wl_Spec (deref ?s a)" "phase (deref (fx_world y) a) = WorkloadPhaseRunning"
    using w e old by simp_all
qed

end

text \<open>
  C28. A redeployment that arrives while the reconciler finishes the deployment of the same
  workload is lost: the request succeeds and stores a new object with the new spec, and the next
  step of the reconciler, the status update of the object it has read before, puts the old
  object with the old spec back, in phase \<open>Running\<close>.
\<close>

theorem redeploy_during_deployment_is_lost:
  assumes "uses_store p (wrap_store cfg MemStore)" "store_ok mem_stored mem_valid (fx_world x)" "pr_server p = Some sv"
    and "fx_rec x = PcPost a c as" "mem_stored (fx_world x) i = Some a" "trim_space (bi_ID item) = i" "i \<noteq> []"
    and "deployOne sv item (px_state (fx_proc x)) = (err, t)"
  shows "err = None \<and> (\<exists>b. mem_stored (sx_world t) i = Some b \<and> b \<noteq> a \<and> wl_Spec (deref (sx_world t) b) = bi_Spec item) \<and>
    (let y = reconciler_move p (x\<lparr>fx_proc := (fx_proc x)\<lparr>px_state := t\<rparr>\<rparr>)
     in mem_stored (fx_world y) i = Some a \<and> wl_Spec (deref (fx_world y) a) = wl_Spec (deref (fx_world x) a) \<and>
        phase (deref (fx_world y) a) = WorkloadPhaseRunning)"
  using aw.redeploy_lost [OF assms] by (auto simp: Let_def)


text \<open>
  A workload deleted while a pass is about to deploy it is deployed all the same: the pass holds
  the object and does not look at the store again. The status update then fails, so the workload
  stays deleted, but its deployment is left behind.
\<close>

theorem deleted_during_pass_is_deployed:
  assumes "uses_store p (wrap_store cfg MemStore)" "fx_rec x = PcDeploy a c as" "mem_stored (fx_world x) (wl_ID (deref (fx_world x) a)) = None"
    and "phase (deref (fx_world x) a) = WorkloadPhasePending" "rec_rollout (pr_reconciler p) = None" "not_cost_aware (deref (fx_world x) a)"
    and "GetDriver (rec_scheduler (pr_reconciler p)) (sp_Backend (wl_Spec (deref (fx_world x) a))) = Some d"
    and "drv_Deploy d (wd_calls (fx_world x)) (deref (fx_world x) a) = None"
  shows "let y = reconciler_move p (reconciler_move p x)
     in fx_rec y = PcNext as \<and> wd_calls (fx_world y) = wd_calls (fx_world x) @ [(drv_Name d, CallDeploy (deref (fx_world x) a))] \<and>
        mem_stored (fx_world y) = mem_stored (fx_world x)"
proof -
  let ?s = "fx_world x" let ?st = "wrap_store cfg MemStore"
  let ?e = "(pr_reconciler p)\<lparr>rec_quota := sx_quota (px_state (fx_proc x))\<rparr>"
  let ?s1 = "call_driver d (CallDeploy (deref ?s a)) ?s"
  have l: "launch ?e a ?s = (None, ?s1)"
    using Schedule_plain [OF assms(7,6)] assms(5,8) by (simp add: launch_def Let_def)
  obtain now s2 where t: "time_Now ?s1 = (now, s2)" by fastforce
  have h: "wd_heap s2 = wd_heap ?s" "wd_mem s2 = wd_mem ?s" "wd_calls s2 = wd_calls ?s1" using time_Now_frame [of ?s1] t by simp_all
  let ?s3 = "modify a (mark_running now c) s2"
  have m: "mem_stored ?s3 = mem_stored ?s" by (rule mem.stored_mem) (simp add: h)
  obtain s4 where u: "store_Update ?st a ?s3 = (Some ErrWorkloadNotFound, s4)" "mem_stored s4 = mem_stored ?s" "store_frame ?s3 s4"
    using aw.Update_new [of ?s3 a cfg] assms(3) m by (auto simp: h(1))
  have "postSchedule ?e a c ?s1 = (Some ErrWorkloadNotFound, s4)"
    using assms(1) by (simp add: postSchedule_def t u(1) uses_store_def)
  moreover have "wd_calls s4 = wd_calls ?s @ [(drv_Name d, CallDeploy (deref ?s a))]" using u(3) h(3) by (simp add: store_frame_def)
  ultimately show ?thesis
    using u(2) assms(2,4) l by (simp add: Let_def reconciler_move_def)
qed

section \<open>As wired\<close>

lemma wired_fine_step_reports:
  assumes "fine_step (main_wire cfg lib inner es) x y"
  shows "px_drift (fx_proc y) = px_drift (fx_proc x)"
  using assms
proof cases
  case (drift d as)
  have "dc_runtimeDriver d = None" using drift(2) by (auto simp: wired_detector_def drift_New_def split: if_splits)
  then have "checkWorkload d a ds s = Some (ds', s') \<Longrightarrow> ds' = ds" for a ds s ds' s'
    by (auto simp: checkWorkload_def detectDrift_def split: if_splits)
  then show ?thesis using drift(4) by (auto simp: drift_move_def split: if_splits option.splits list.splits)
qed (auto simp: reconciler_move_def autoscaler_move_def reconciler_Start_def exit_fine_def exit_process_def set_fine_world_def set_world_def Let_def
    split: if_splits option.splits prod.splits sum.splits list.splits)

text \<open>
  C16. As wired by \<open>main\<close>, nothing ever reaches a runtime: no driver is registered with the
  scheduler and none is given to the drift detector, so whatever the configuration, the
  requests and the interleaving, the process never makes a driver call (no deployment,
  restart or status query) and never reports drift.
\<close>

theorem wired_process_never_calls_a_driver:
  assumes "(fine_step (main_wire cfg lib MemStore True))\<^sup>*\<^sup>* (fine_initial cfg clock ids) x"
  shows "wd_calls (fx_world x) = [] \<and> ds_reports (px_drift (fx_proc x)) = []"
proof -
  have "evolves mem_stored mem_valid (process_quiet (main_wire cfg lib MemStore True)) (fx_world (fine_initial cfg clock ids)) (fx_world x)"
    using aw.ev_fine_run [OF main_wire_fields(1) fine_initial_ok assms] by blast
  then have "wd_calls (fx_world x) = []" using initial_state_ok(3) [of cfg clock ids] by (simp add: evolves_def fine_initial_def)
  moreover have "px_drift (fx_proc x) = px_drift (fx_proc (fine_initial cfg clock ids))"
    using assms by (induction rule: rtranclp_induct) (auto dest: wired_fine_step_reports)
  ultimately show ?thesis by (simp add: fine_initial_def initial_state_def)
qed

section \<open>Witnesses\<close>

abbreviation demo_fine :: FineState where
  "demo_fine \<equiv> fine_initial demo_config int (\<lambda>n. replicate n CHR ''i'')"

lemma demo_started: "\<exists>y. reconciler_Start demo_process demo_init = Some y \<and> px_alive y \<and> px_started y \<and> px_world y = px_world demo_init"
proof -
  have "store_ok mem_stored mem_valid (px_world demo_init)" by (rule initial_state_ok)
  then obtain bs where "store_List (rec_store (pr_reconciler demo_process)) [] (px_world demo_init) = (Ok bs, px_world demo_init)"
    using aw.listed_fresh [of "px_world demo_init" demo_config "[]"] main_wire_fields(1) [of demo_config demo_libs MemStore True]
    by (auto simp: uses_store_def)
  then show ?thesis
    by (auto simp: reconciler_Start_def demo_config_def main_wire_def wired_detector_def initial_state_def set_world_def Let_def)
qed

lemma demo_init_alive: "px_alive demo_init" "\<not> px_started demo_init"
  by (simp_all add: initial_state_def)

lemma demo_fine_run: "\<exists>x. (fine_step demo_process)\<^sup>*\<^sup>* demo_fine x \<and> px_started (fx_proc x) \<and> fx_rec x \<noteq> PcIdle"
proof -
  have f: "fx_proc demo_fine = demo_init" "fx_rec demo_fine = PcIdle" by (simp_all add: fine_initial_def)
  obtain y where y: "reconciler_Start demo_process demo_init = Some y" "px_alive y" "px_started y" "px_world y = px_world demo_init"
    using demo_started by blast
  have "store_ok mem_stored mem_valid (px_world demo_init)" by (rule initial_state_ok)
  then obtain bs where l: "store_List (rec_store (pr_reconciler demo_process)) [] (px_world demo_init) = (Ok bs, px_world demo_init)"
    using aw.listed_fresh [of "px_world demo_init" demo_config "[]"] main_wire_fields(1) [of demo_config demo_libs MemStore True]
    by (auto simp: uses_store_def)
  let ?x = "demo_fine\<lparr>fx_proc := y\<rparr>"
  have 1: "fine_step demo_process demo_fine ?x" by (rule fine_step.start) (simp_all add: f y(1) demo_init_alive)
  have 2: "fine_step demo_process ?x (reconciler_move demo_process ?x)" by (rule fine_step.reconcile) (simp_all add: y)
  have "fx_rec (reconciler_move demo_process ?x) = PcNext (reconcile_order (px_world demo_init) bs)" "px_started (fx_proc (reconciler_move demo_process ?x))"
    using l y by (simp_all add: reconciler_move_def f)
  then show ?thesis using 1 2 by (intro exI [of _ "reconciler_move demo_process ?x"]) auto
qed


theorem runtime_is_never_told_to_delete_witness:
  "\<exists>x. (fine_step demo_process)\<^sup>*\<^sup>* demo_fine x \<and> fx_rec x \<noteq> PcIdle \<and> list_all (\<lambda>(name, call). (\<exists>w. call = CallDeploy w) \<or>
     (\<exists>w. call = CallRestart w) \<or> (\<exists>i. call = CallGetStatus i)) (wd_calls (fx_world x))"
  using demo_fine_run runtime_is_never_told_to_delete [OF main_wire_fields(1)] by blast

theorem interleaved_state_stays_wellformed_witness:
  "\<exists>x. (fine_step demo_process)\<^sup>*\<^sup>* demo_fine x \<and> fx_rec x \<noteq> PcIdle \<and> store_ok mem_stored mem_valid (fx_world x)"
  using demo_fine_run interleaved_state_stays_wellformed [OF main_wire_fields(1)] by blast

theorem wired_process_never_calls_a_driver_witness:
  "\<exists>x. (fine_step demo_process)\<^sup>*\<^sup>* demo_fine x \<and> fx_rec x \<noteq> PcIdle \<and> wd_calls (fx_world x) = []"
  using demo_fine_run wired_process_never_calls_a_driver by blast

definition demo_midpass :: FineState where
  "demo_midpass = \<lparr>fx_proc = set_world (demo_world (\<lambda>_. demo_workload ''a'' ''v1'') [(''a'', 0)]) demo_init, fx_rec = PcPost 0 False [], fx_scale = None,
     fx_check = None\<rparr>"

theorem redeploy_during_deployment_is_lost_witness:
  "\<exists>sv t. pr_server demo_process = Some sv \<and> deployOne sv demo_item (px_state (fx_proc demo_midpass)) = (None, t) \<and>
     sp_Image (wl_Spec (deref (fx_world (reconciler_move demo_process (demo_midpass\<lparr>fx_proc := (fx_proc demo_midpass)\<lparr>px_state := t\<rparr>\<rparr>))) 0)) = ''v1''"
proof -
  obtain sv where sv: "pr_server demo_process = Some sv" by (simp add: main_wire_def wired_server_def demo_config_def Let_def)
  obtain err t where d: "deployOne sv demo_item (px_state (fx_proc demo_midpass)) = (err, t)" by fastforce
  have w: "fx_world demo_midpass = demo_world (\<lambda>_. demo_workload ''a'' ''v1'') [(''a'', 0)]" by (simp add: demo_midpass_def)
  have "store_ok mem_stored mem_valid (fx_world demo_midpass)" "mem_stored (fx_world demo_midpass) ''a'' = Some 0"
    by (simp_all add: w demo_store demo_world_def demo_workload_def store_ok_def keyed_def mem_valid_def mem_stored_def wf_map_def)
  then show ?thesis
    using redeploy_during_deployment_is_lost [OF main_wire_fields(1) _ sv _ _ _ _ d, of 0 False "[]" "''a''"] sv d
    by (auto simp: demo_midpass_def Let_def trim_a demo_world_def demo_workload_def)
qed

end
