(* ===== verification/PipelineTypes.thy ===== *)
theory PipelineTypes
  imports Types
begin

text \<open>
  The structs of \<open>pkg/types/workload.go\<close> for federation over several clusters and for deployment
  pipelines. They are part of the package's vocabulary; no component reads or writes them yet.
\<close>

section \<open>Federation\<close>

record ClusterTarget =
  clt_Name :: string
  clt_Context :: string
  clt_Weight :: int32
  clt_Replicas :: "int32 option"
  clt_Regions :: "string list"
  clt_Enabled :: bool

record ResourceSelector =
  rsl_LabelSelector :: strmap
  rsl_IncludeTypes :: "string list"
  rsl_ExcludeTypes :: "string list"

record FederationSyncPolicy =
  fsp_SyncInterval :: string
  fsp_AutoSync :: bool
  fsp_ConflictResolution :: string
  fsp_ResourceSelector :: "ResourceSelector option"

record FederationConfig =
  fed_Enabled :: bool
  fed_Clusters :: "ClusterTarget list"
  fed_Strategy :: string
  fed_SyncPolicy :: "FederationSyncPolicy option"

section \<open>Pipelines\<close>

record StageCondition =
  scd_Type :: string
  scd_Stage :: string
  scd_Metric :: string
  scd_Operator :: string
  scd_Value :: string

record PipelineStage =
  pst_Name :: string
  pst_Order :: int32
  pst_Type :: string
  pst_TargetApp :: string
  pst_TargetNamespace :: string
  pst_Config :: strmap
  pst_Conditions :: "StageCondition list"
  pst_OnFailure :: string
  pst_Timeout :: string
  pst_ManualApproval :: bool

record PipelineTrigger =
  ptr_Type :: string
  ptr_Config :: strmap
  ptr_Enabled :: bool

record NotificationChannel =
  nch_Type :: string
  nch_Config :: strmap

record PipelineNotifications =
  pno_Enabled :: bool
  pno_Channels :: "NotificationChannel list"
  pno_Events :: "string list"

record RetryPolicy =
  rpo_MaxRetries :: int32
  rpo_BackoffDuration :: string
  rpo_RetryOn :: "string list"

record PipelineSpec =
  psp_Stages :: "PipelineStage list"
  psp_Triggers :: "PipelineTrigger list"
  psp_Notifications :: "PipelineNotifications option"
  psp_Timeout :: string
  psp_RetryPolicy :: "RetryPolicy option"
  psp_Parallel :: bool

type_synonym PipelinePhase = string

definition pipeline_phases :: "PipelinePhase list" where
  "pipeline_phases = [''Pending'', ''Running'', ''Succeeded'', ''Failed'', ''Paused'']"

type_synonym StagePhase = string

definition stage_phases :: "StagePhase list" where
  "stage_phases = [''Pending'', ''Running'', ''Succeeded'', ''Failed'', ''Skipped'', ''Waiting'']"

record StageStatus =
  sst_Name :: string
  sst_Phase :: StagePhase
  sst_Started :: gotime
  sst_Completed :: gotime
  sst_Message :: string
  sst_RetryCount :: int32

record PipelineStatus =
  pls_Phase :: PipelinePhase
  pls_CurrentStage :: string
  pls_StagesStatus :: "StageStatus list"
  pls_LastExecution :: gotime
  pls_LastCompleted :: gotime
  pls_ExecutionCount :: int32
  pls_Message :: string

end
