(* ===== verification/Equipped.thy ===== *)
theory Equipped
  imports Passes
begin

text \<open>
  A pass of a reconciler with all its collaborators, as \<open>main\<close> wires them: policy, quota, circuit
  breaker, standby manager, secret engine and health gates. The stages before the deployment leave
  a healthy workload alone: its circuit stays closed, nothing is promoted or restarted, and the
  deployment stage is reached.

  The lemmas: what each stage keeps of a steady workload; a pending one is deployed exactly once;
  a pass over settled workloads makes no driver call, so that one pending workload in a settled
  store leads to exactly one.
\<close>

section \<open>Steady workloads\<close>

definition closed_circuit :: "Workload \<Rightarrow> bool" where
  "closed_circuit w = (case st_CircuitBreaker (wl_Status w) of None \<Rightarrow> True | Some st \<Rightarrow> cbs_State st = CircuitStateClosed)"

definition steady :: "Workload \<Rightarrow> bool" where
  \<comment> \<open>not unhealthy, not cut off, and no restart pending\<close>
  "steady w = (closed_circuit w \<and> phase w \<noteq> WorkloadPhaseFailed \<and> phase w \<noteq> WorkloadPhaseDegraded \<and> \<not> restart_due w)"

definition essence :: "Workload \<Rightarrow> string \<times> string \<times> WorkloadSpec \<times> string \<times> SecretRotationStatus option" where
  \<comment> \<open>what the stages before the deployment keep\<close>
  "essence w = (wl_ID w, wl_Namespace w, wl_Spec w, phase w, st_SecretRotation (wl_Status w))"

lemma essence_eq:
  "essence w = essence w' \<longleftrightarrow> wl_ID w = wl_ID w' \<and> wl_Namespace w = wl_Namespace w' \<and> wl_Spec w = wl_Spec w' \<and> phase w = phase w' \<and>
     st_SecretRotation (wl_Status w) = st_SecretRotation (wl_Status w')"
  by (simp add: essence_def)

lemma steady_essence: "essence w' = essence w \<Longrightarrow> closed_circuit w' \<Longrightarrow> steady w \<Longrightarrow> steady w'"
  by (simp add: essence_eq steady_def restart_due_def)

definition keeps :: "addr \<Rightarrow> world \<Rightarrow> world \<Rightarrow> bool" where
  \<comment> \<open>no driver call, the same workloads stored, other objects untouched, and a steady workload steady\<close>
  "keeps a s s' = (wd_calls s' = wd_calls s \<and> mem_stored s' = mem_stored s \<and> (mem_valid s \<longrightarrow> mem_valid s') \<and>
     (\<forall>b. b \<noteq> a \<longrightarrow> deref s' b = deref s b) \<and> essence (deref s' a) = essence (deref s a) \<and>
     (closed_circuit (deref s a) \<longrightarrow> closed_circuit (deref s' a)))"

lemma keeps_refl [simp]: "keeps a s s"
  by (simp add: keeps_def)

lemma keeps_trans: "keeps a s s1 \<Longrightarrow> keeps a s1 s2 \<Longrightarrow> keeps a s s2"
  by (simp add: keeps_def)

lemma keeps_same: "wd_heap s' = wd_heap s \<Longrightarrow> wd_mem s' = wd_mem s \<Longrightarrow> wd_calls s' = wd_calls s \<Longrightarrow> keeps a s s'"
  by (simp add: keeps_def mem_stored_def mem_valid_def)

lemma keeps_time_Now [simp]: "keeps a s (snd (time_Now s))"
  by (rule keeps_same) simp_all

lemma keeps_assign:
  "essence w = essence (deref s a) \<Longrightarrow> closed_circuit w \<Longrightarrow> keeps a s (assign a w s)"
  by (simp add: keeps_def mem_stored_def mem_valid_def)

lemma assign_assign [simp]: "assign a w (assign a v s) = assign a w s"
  by (simp add: assign_def)

lemma keeps_Update:
  assumes "mem_stored s (wl_ID (deref s a)) = Some a"
  shows "keeps a s (snd (store_Update (NewVersionedStore MemStore n) a s))"
proof -
  let ?w = "SyncFromLabels (tags_Apply (deref s a))"
  obtain s' where s': "store_Update (NewVersionedStore MemStore n) a s = (None, s')" "mem_stored s' = mem_stored s"
    using versioned_Update_in_place [OF assms, of n] by blast
  have "wd_heap s' = (wd_heap s)(a := ?w)" using versioned_Update_in_place_heap [OF assms, of n] s'(1) by simp
  moreover have "wd_calls s' = wd_calls s" using vs.Update_frame [of s n a] s'(1) by (simp add: store_frame_def)
  moreover have "mem_valid s \<longrightarrow> mem_valid s'" using vs.valid_Update [of s n a] s'(1) by simp
  moreover have "essence ?w = essence (deref s a)" "closed_circuit ?w = closed_circuit (deref s a)"
    by (simp_all add: essence_def closed_circuit_def)
  ultimately show ?thesis using s' by (simp add: keeps_def)
qed

section \<open>The stages\<close>

lemma Sync_steady:
  assumes "closed_circuit w" "phase w \<noteq> WorkloadPhaseFailed" "phase w \<noteq> WorkloadPhaseDegraded"
  obtains w' p where "SyncFromWorkload c w now = (w', p, p)" "essence w' = essence w" "closed_circuit w'"
    "circuit_EnabledFor c (Some w) \<Longrightarrow> \<exists>st. st_CircuitBreaker (wl_Status w') = Some st"
proof (cases "circuit_EnabledFor c (Some w)")
  case False
  then show thesis using assms(1) by (intro that [of w "[]"]) (simp_all add: SyncFromWorkload_def)
next
  case True
  let ?st = "circuit_of now w" let ?st' = "sync_switch (effectiveSpec w c) (wl_Status w) now (sync_cooldown now ?st)"
  have closed: "cbs_State ?st = CircuitStateClosed"
    using assms(1) by (simp add: circuit_of_def closed_circuit_def new_circuit_status_def split: option.splits)
  then have "cbs_State ?st' = CircuitStateClosed"
    using assms(2,3) by (simp add: sync_switch_def sync_cooldown_def circuit_unhealthy_def)
  then show thesis
    using True closed
    by (intro that [of "set_circuit ?st' w" CircuitStateClosed]) (simp_all add: SyncFromWorkload_def essence_def closed_circuit_def Let_def)
qed

lemma ShouldAutoPromote_steady:
  assumes "closed_circuit w" "phase w \<noteq> WorkloadPhaseFailed" "phase w \<noteq> WorkloadPhaseDegraded"
  obtains w' where "ShouldAutoPromote m w now = (w', False)" "essence w' = essence w" "closed_circuit w'"
proof -
  have "\<exists>w'. ShouldAutoPromote m w now = (w', False) \<and> essence w' = essence w \<and> closed_circuit w'"
  proof (cases "sbm_circuits m")
    case None
    then show ?thesis using assms by (simp add: ShouldAutoPromote_def)
  next
    case (Some c)
    obtain w' p where w': "SyncFromWorkload c w now = (w', p, p)" "essence w' = essence w" "closed_circuit w'"
      by (rule Sync_steady [OF assms])
    then show ?thesis using assms Some by (auto simp: ShouldAutoPromote_def closed_circuit_def Let_def split: option.splits)
  qed
  then show thesis using that by blast
qed

lemma auto_promote_keeps: "steady (deref s a) \<Longrightarrow> keeps a s (auto_promote e a now s)"
proof (cases "rec_standby e")
  case (Some m)
  assume "steady (deref s a)"
  then obtain w' where w': "ShouldAutoPromote m (deref s a) now = (w', False)" "essence w' = essence (deref s a)" "closed_circuit w'"
    using ShouldAutoPromote_steady unfolding steady_def by blast
  then show ?thesis using keeps_assign [OF w'(2,3)] by (simp add: auto_promote_def Some)
qed (simp add: auto_promote_def)

lemma circuit_stage_keeps:
  assumes "rec_store e = NewVersionedStore MemStore n" "mem_stored s (wl_ID (deref s a)) = Some a" "steady (deref s a)"
  shows "keeps a s (circuit_stage e a now s)"
proof (cases "rec_circuit e")
  case (Some c)
  have st: "closed_circuit (deref s a)" "phase (deref s a) \<noteq> WorkloadPhaseFailed" "phase (deref s a) \<noteq> WorkloadPhaseDegraded"
    using assms(3) by (simp_all add: steady_def)
  obtain w' p where w': "SyncFromWorkload c (deref s a) now = (w', p, p)" "essence w' = essence (deref s a)" "closed_circuit w'"
    by (rule Sync_steady [OF st])
  let ?s1 = "assign a w' s" let ?s2 = "snd (store_Update (rec_store e) a ?s1)"
  have k1: "keeps a s ?s1" by (rule keeps_assign [OF w'(2,3)])
  have "mem_stored ?s1 (wl_ID (deref ?s1 a)) = Some a" using assms(2) w'(2) by (simp add: essence_eq mem_stored_def)
  then have k2: "keeps a s ?s2" using keeps_trans [OF k1 keeps_Update] assms(1) by simp
  then have "steady (deref ?s2 a)" using steady_essence [OF _ _ assms(3)] st(1) by (simp add: keeps_def)
  then show ?thesis using keeps_trans [OF k2 auto_promote_keeps] by (simp add: circuit_stage_def Some w'(1))
qed (simp add: circuit_stage_def)

lemma route_stage_keeps:
  assumes "steady (deref s a)"
  obtains s' where "route_stage e a now s = (True, s')" "keeps a s s'"
proof (cases "rec_circuit e")
  case None
  then show thesis by (intro that [of s]) (simp_all add: route_stage_def)
next
  case (Some c)
  have st: "closed_circuit (deref s a)" "phase (deref s a) \<noteq> WorkloadPhaseFailed" "phase (deref s a) \<noteq> WorkloadPhaseDegraded"
    using assms by (simp_all add: steady_def)
  have "\<exists>w'. AllowRoute c (Some (deref s a)) now = (Some w', True) \<and> essence w' = essence (deref s a) \<and> closed_circuit w'"
  proof (cases "circuit_EnabledFor c (Some (deref s a))")
    case False
    then show ?thesis using st by (simp add: AllowRoute_def)
  next
    case True
    obtain w' p where w': "SyncFromWorkload c (deref s a) now = (w', p, p)" "essence w' = essence (deref s a)" "closed_circuit w'"
      by (rule Sync_steady [OF st])
    then show ?thesis using True st by (auto simp: AllowRoute_def closed_circuit_def essence_eq Let_def split: option.splits)
  qed
  then obtain w' where w': "AllowRoute c (Some (deref s a)) now = (Some w', True)" "essence w' = essence (deref s a)" "closed_circuit w'"
    by blast
  moreover have "RecordRouteAttempt w' = w'" using w'(3) by (simp add: RecordRouteAttempt_def closed_circuit_def split: option.splits)
  ultimately show thesis
    by (intro that [of "assign a w' s"]) (simp_all add: route_stage_def Some keeps_assign modify_def)
qed

definition no_standby :: "'q Reconciler \<Rightarrow> Workload \<Rightarrow> bool" where
  \<comment> \<open>neither the manager nor the workload asks for a standby\<close>
  "no_standby e w = (case rec_standby e of
     None \<Rightarrow> True
   | Some m \<Rightarrow> \<not> sbc_Enabled (sbm_cfg m) \<and> (case sp_WarmStandby (wl_Spec w) of None \<Rightarrow> True | Some ws \<Rightarrow> \<not> ws_Enabled ws))"

definition indexed :: "'q Reconciler \<Rightarrow> Workload \<Rightarrow> SecretRegistry \<Rightarrow> SecretRegistry" where
  "indexed e w r = (case rec_secrets e of None \<Rightarrow> r | Some se \<Rightarrow> IndexWorkload se w r)"

lemma indexed_essence: "essence w' = essence w \<Longrightarrow> indexed e w' r = indexed e w r"
  by (simp add: indexed_def IndexWorkload_def secret_EnabledFor_def SecretRefNames_def essence_eq split: option.split)

lemma no_standby_essence: "essence w' = essence w \<Longrightarrow> no_standby e w' = no_standby e w"
  by (simp add: no_standby_def essence_eq split: option.split)

lemma standby_stage_idle:
  assumes "phase (deref s a) = WorkloadPhaseRunning \<longrightarrow> no_standby e (deref s a)"
  shows "standby_stage e a s = s"
  using assms by (auto simp: standby_stage_def no_standby_def standby_EnabledFor_def split: option.splits)

lemma secrets_stage_idle: "\<not> restart_due (deref s a) \<Longrightarrow> secrets_stage e a r s = (indexed e (deref s a) r, s)"
  by (simp add: secrets_stage_def indexed_def split: option.split)

lemma stages_before_cron:
  assumes "rec_store e = NewVersionedStore MemStore n" "mem_stored s (wl_ID (deref s a)) = Some a" "steady (deref s a)"
    and "phase (deref s a) = WorkloadPhaseRunning \<longrightarrow> no_standby e (deref s a)"
  shows "\<exists>s'. standby_stage e a (circuit_stage e a (fst (time_Now s)) (snd (time_Now s))) = s' \<and> keeps a s s' \<and>
    secrets_stage e a r s' = (indexed e (deref s a) r, s')"
proof -
  obtain s2 where s2: "circuit_stage e a (fst (time_Now s)) (snd (time_Now s)) = s2" by blast
  have "mem_stored (snd (time_Now s)) (wl_ID (deref (snd (time_Now s)) a)) = Some a" "steady (deref (snd (time_Now s)) a)"
    using assms(2,3) by (simp_all add: mem_stored_def)
  from keeps_trans [OF keeps_time_Now circuit_stage_keeps [OF assms(1) this, of "fst (time_Now s)"]] have k: "keeps a s s2"
    unfolding s2 .
  then have w: "essence (deref s2 a) = essence (deref s a)" "steady (deref s2 a)"
    using assms(3) steady_essence [of "deref s2 a" "deref s a"] by (simp_all add: keeps_def steady_def)
  have "standby_stage e a s2 = s2"
    using assms(4) w(1) no_standby_essence [OF w(1), of e] by (intro standby_stage_idle) (simp add: essence_eq)
  moreover have "secrets_stage e a r s2 = (indexed e (deref s a) r, s2)"
    using secrets_stage_idle [of s2 a e r] w(2) indexed_essence [OF w(1), of e r] by (simp add: steady_def)
  ultimately show ?thesis unfolding s2 using k by simp
qed

lemma cron_stage_world: "snd (cron_stage e a s) = s \<or> snd (cron_stage e a s) = snd (time_Now s)"
  by (simp add: cron_stage_def split_beta Let_def split: option.split sum.split)

lemma admitted_pending:
  assumes "rec_store e = NewVersionedStore MemStore n" "mem_stored s (wl_ID (deref s a)) = Some a" "steady (deref s a)"
    and "phase (deref s a) = WorkloadPhasePending" "no_active_cron (deref s a)"
  shows "\<exists>s'. keeps a s s' \<and> admitted_stages e a r s =
    (case deploy_stage e a False s' of (err, s'') \<Rightarrow> (err, indexed e (deref s a) r, s''))"
proof -
  obtain s2 where s2: "standby_stage e a (circuit_stage e a (fst (time_Now s)) (snd (time_Now s))) = s2" "keeps a s s2"
    "secrets_stage e a r s2 = (indexed e (deref s a) r, s2)"
    using stages_before_cron [OF assms(1-3), of r] assms(4) by auto
  have w: "essence (deref s2 a) = essence (deref s a)" "steady (deref s2 a)"
    using s2(2) assms(3) steady_essence [of "deref s2 a" "deref s a"] by (simp_all add: keeps_def steady_def)
  then have "cron_stage e a s2 = (Proceed False, s2)"
    using assms(5) by (auto simp: cron_stage_def no_active_cron_def essence_eq split: option.splits)
  moreover obtain s3 where "route_stage e a (fst (time_Now s)) s2 = (True, s3)" "keeps a s2 s3" by (rule route_stage_keeps [OF w(2)])
  ultimately show ?thesis
    using s2 keeps_trans [OF s2(2)] by (intro exI [of _ s3]) (simp add: admitted_stages_def split_beta Let_def del: time_Now_frame)
qed

lemma admitted_settled:
  assumes "rec_store e = NewVersionedStore MemStore n" "mem_stored s (wl_ID (deref s a)) = Some a" "steady (deref s a)"
    and "phase (deref s a) \<noteq> WorkloadPhasePending" "no_standby e (deref s a)"
  shows "\<exists>err s'. admitted_stages e a r s = (err, indexed e (deref s a) r, s') \<and> keeps a s s'"
proof -
  obtain s2 where s2: "standby_stage e a (circuit_stage e a (fst (time_Now s)) (snd (time_Now s))) = s2" "keeps a s s2"
    "secrets_stage e a r s2 = (indexed e (deref s a) r, s2)"
    using stages_before_cron [OF assms(1-3), of r] assms(5) by auto
  have w: "essence (deref s2 a) = essence (deref s a)" "steady (deref s2 a)"
    using s2(2) assms(3) steady_essence [of "deref s2 a" "deref s a"] by (simp_all add: keeps_def steady_def)
  obtain verdict s3 where c: "cron_stage e a s2 = (verdict, s3)" "s3 = s2 \<or> s3 = snd (time_Now s2)"
    using cron_stage_world [of e a s2] by (cases "cron_stage e a s2") simp
  have k3: "keeps a s s3" using c(2) keeps_trans [OF s2(2)] by auto
  have "steady (deref s3 a)" "phase (deref s3 a) \<noteq> WorkloadPhasePending" using c(2) w assms(4) by (auto simp: essence_eq)
  moreover obtain s4 where s4: "route_stage e a (fst (time_Now s)) s3 = (True, s4)" "keeps a s3 s4"
    by (rule route_stage_keeps [OF calculation(1)])
  moreover have "phase (deref s4 a) = phase (deref s3 a)" using s4(2) by (simp add: keeps_def essence_eq)
  ultimately show ?thesis
    using s2 c(1) k3 keeps_trans [OF k3 s4(2)]
    by (cases verdict) (simp_all add: admitted_stages_def deploy_stage_def split_beta Let_def del: time_Now_frame)
qed

section \<open>A pending workload\<close>

definition restart_marked :: "Workload \<Rightarrow> bool" where
  "restart_marked w = (case st_SecretRotation (wl_Status w) of None \<Rightarrow> False | Some x \<Rightarrow> srs_PendingRestart x)"

lemma steady_running:
  assumes "closed_circuit w" "phase w = WorkloadPhaseRunning" "\<not> restart_marked w"
  shows "steady w"
  using assms by (simp add: steady_def restart_due_def restart_marked_def)

lemma admitted_frame:
  "steady (admitted_workload e w) = steady w" "no_standby e (admitted_workload e w) = no_standby e w"
  "closed_circuit (admitted_workload e w) = closed_circuit w" "restart_marked (admitted_workload e w) = restart_marked w"
  "no_active_cron (admitted_workload e w) = no_active_cron w" "enabled_gate (admitted_workload e w) = enabled_gate w"
  by (simp_all add: steady_def no_standby_def closed_circuit_def restart_due_def restart_marked_def no_active_cron_def enabled_gate_def split: option.split)

lemma equipped_pending:
  assumes "mem_valid s" "rec_store e = NewVersionedStore MemStore n" "rec_controllers e = []"
    and "mem_stored s (wl_ID (deref s a)) = Some a" "phase (deref s a) = WorkloadPhasePending" "closed_circuit (deref s a)"
    and "no_active_cron (deref s a)" "policy_accepts e (deref s a)" "quota_accepts e a (assign a (admitted_workload e (deref s a)) s)"
    and "GetDriver (rec_scheduler e) (sp_Backend (wl_Spec (deref s a))) = Some d" "not_cost_aware (deref s a)" "plain_rollout e a s"
    and "\<And>w. essence w = essence (admitted_workload e (deref s a)) \<Longrightarrow> drv_Deploy d (wd_calls s) w = None"
  obtains w s' where "reconcileOne e a r s = (None, indexed e (admitted_workload e (deref s a)) r, s')"
    "wd_calls s' = wd_calls s @ [(drv_Name d, CallDeploy w)]" "essence w = essence (admitted_workload e (deref s a))"
    "phase (deref s' a) = WorkloadPhaseRunning" "mem_stored s' = mem_stored s" "mem_valid s'" "\<And>b. b \<noteq> a \<Longrightarrow> deref s' b = deref s b"
    "wl_ID (deref s' a) = wl_ID (deref s a)" "wl_Spec (deref s' a) = wl_Spec (admitted_workload e (deref s a))"
    "closed_circuit (deref s' a)" "restart_marked (deref s' a) = restart_marked (deref s a)"
proof -
  let ?w = "admitted_workload e (deref s a)" let ?s0 = "assign a ?w s"
  have "steady (deref s a)" using assms(5,6) by (simp add: steady_def restart_due_def)
  then have p: "mem_stored ?s0 (wl_ID (deref ?s0 a)) = Some a" "steady (deref ?s0 a)" "phase (deref ?s0 a) = WorkloadPhasePending"
    "no_active_cron (deref ?s0 a)"
    using assms(4,5,7) by (simp_all add: admitted_frame mem_stored_def)
  obtain s1 where s1: "keeps a ?s0 s1"
    "admitted_stages e a r ?s0 = (case deploy_stage e a False s1 of (err, s'') \<Rightarrow> (err, indexed e ?w r, s''))"
    using admitted_pending [OF assms(2) p, of r] by auto
  have w: "essence (deref s1 a) = essence ?w" "closed_circuit (deref s1 a)" "wd_calls s1 = wd_calls s" "mem_stored s1 = mem_stored s"
    "mem_valid s1" "\<And>b. b \<noteq> a \<Longrightarrow> deref s1 b = deref s b"
    using s1(1) assms(1,6) by (simp_all add: keeps_def admitted_frame mem_stored_def)
  have "GetDriver (rec_scheduler e) (sp_Backend (wl_Spec (deref s1 a))) = Some d" "not_cost_aware (deref s1 a)" "plain_rollout e a s1"
    using assms(10-12) w(1) by (auto simp: essence_eq not_cost_aware_def plain_rollout_def enabled_gate_def split: option.splits)
  from launch_spec [OF this] obtain s2 where s2: "launch e a s1 = (None, s2)" "wd_calls s2 = wd_calls s @ [(drv_Name d, CallDeploy (deref s1 a))]"
    "wd_heap s2 = wd_heap s1" "wd_mem s2 = wd_mem s1"
    using assms(13) [OF w(1)] w(3) by (cases "launch e a s1") (simp add: outcome_def)
  have k: "mem_stored s2 (wl_ID (deref s2 a)) = Some a" using assms(4) w(1,4) s2(3,4) by (simp add: mem_stored_def essence_eq)
  obtain s' where s': "postSchedule e a False s2 = (None, s')" "mem_stored s' = mem_stored s2" "wd_calls s' = wd_calls s2"
    "phase (deref s' a) = WorkloadPhaseRunning" "wl_ID (deref s' a) = wl_ID (deref s2 a)" "wl_Spec (deref s' a) = wl_Spec (deref s2 a)"
    "\<And>b. b \<noteq> a \<Longrightarrow> deref s' b = deref s2 b" "mem_valid s2 \<Longrightarrow> mem_valid s'"
    "st_CircuitBreaker (wl_Status (deref s' a)) = st_CircuitBreaker (wl_Status (deref s2 a))"
    "st_SecretRotation (wl_Status (deref s' a)) = st_SecretRotation (wl_Status (deref s2 a))"
    using postSchedule_spec [OF k assms(2), where c = False] by metis
  have "deploy_stage e a False s1 = (None, s')" using w(1) p(3) s2(1) s'(1) by (simp add: deploy_stage_def essence_eq)
  then have "reconcileOne e a r s = (None, indexed e ?w r, s')"
    using assms(1-3,8,9) s1(2) by (simp add: reconcileOne_admission Let_def)
  then show thesis
  proof (rule that)
    show "wd_calls s' = wd_calls s @ [(drv_Name d, CallDeploy (deref s1 a))]" using s'(3) s2(2) by simp
    show "essence (deref s1 a) = essence ?w" by (rule w(1))
    show "phase (deref s' a) = WorkloadPhaseRunning" by (rule s'(4))
    show "mem_stored s' = mem_stored s" "mem_valid s'" using s'(2,8) s2(4) w(4,5) by (simp_all add: mem_stored_def mem_valid_def)
    show "deref s' b = deref s b" if "b \<noteq> a" for b using s'(7) [OF that] s2(3) w(6) [OF that] by simp
    show "wl_ID (deref s' a) = wl_ID (deref s a)" "wl_Spec (deref s' a) = wl_Spec ?w"
      using s'(5,6) s2(3) w(1) by (simp_all add: essence_eq)
    show "closed_circuit (deref s' a)" using s'(9) s2(3) w(2) by (simp add: closed_circuit_def)
    show "restart_marked (deref s' a) = restart_marked (deref s a)" using s'(10) s2(3) w(1) by (simp add: restart_marked_def essence_eq)
  qed
qed

section \<open>Settled workloads\<close>

definition settled :: "'q Reconciler \<Rightarrow> Workload \<Rightarrow> bool" where
  "settled e w = (phase w \<noteq> WorkloadPhasePending \<and> steady w \<and> no_standby e w)"

lemma settled_core:
  assumes "core_of w' = core_of w"
  shows "settled e w' = settled e w"
proof -
  have "closed_circuit w' = closed_circuit w" "essence w' = essence w"
    using core_of_eqD(1,3,4,6,10,12) [OF assms] by (simp_all add: closed_circuit_def essence_eq)
  then show ?thesis using no_standby_essence [of w' w e] by (simp add: settled_def steady_def restart_due_def essence_eq)
qed

definition quiet_effect :: "addr set \<Rightarrow> world \<Rightarrow> world \<Rightarrow> bool" where
  \<comment> \<open>no driver call and the same workloads stored; only objects in \<open>A\<close> change, and not their phase\<close>
  "quiet_effect A s s' = (wd_calls s' = wd_calls s \<and> mem_stored s' = mem_stored s \<and> (mem_valid s \<longrightarrow> mem_valid s') \<and>
     (\<forall>b. b \<notin> A \<longrightarrow> deref s' b = deref s b) \<and> (\<forall>b. phase (deref s' b) = phase (deref s b)))"

lemma quiet_effect_trans: "quiet_effect A s s1 \<Longrightarrow> quiet_effect B s1 s2 \<Longrightarrow> quiet_effect (A \<union> B) s s2"
  by (simp add: quiet_effect_def)

lemma equipped_settled:
  assumes "mem_valid s" "rec_store e = NewVersionedStore MemStore n" "rec_controllers e = []"
    and "mem_stored s (wl_ID (deref s b)) = Some b" "settled e (deref s b)"
  shows "\<exists>err r1 s'. reconcileOne e b r s = (err, r1, s') \<and> quiet_effect {b} s s'"
proof -
  let ?w = "admitted_workload e (deref s b)" let ?s0 = "assign b ?w s"
  have p: "mem_stored ?s0 (wl_ID (deref ?s0 b)) = Some b" "steady (deref ?s0 b)" "phase (deref ?s0 b) \<noteq> WorkloadPhasePending"
    "no_standby e (deref ?s0 b)"
    using assms(4,5) by (simp_all add: admitted_frame settled_def mem_stored_def)
  obtain err s' where "admitted_stages e b r ?s0 = (err, indexed e (deref ?s0 b) r, s')" "keeps b ?s0 s'"
    using admitted_settled [OF assms(2) p, of r] by auto
  moreover have q: "quiet_effect {b} s ?s0" by (simp add: quiet_effect_def mem_stored_def)
  moreover have "quiet_effect {b} ?s0 s'" using calculation(2) by (auto simp: keeps_def quiet_effect_def essence_eq mem_stored_def)
  ultimately show ?thesis
    using quiet_effect_trans [of "{b}" s ?s0 "{b}" s'] by (auto simp: reconcileOne_admission [OF assms(1-3)] Let_def)
qed

lemma equipped_loop_settled:
  assumes "rec_store e = NewVersionedStore MemStore n" "rec_controllers e = []" "mem_valid s" "distinct bs"
    and "\<forall>b \<in> set bs. mem_stored s (wl_ID (deref s b)) = Some b \<and> settled e (deref s b)"
  shows "\<exists>r1 s'. reconcile_loop e bs r s = (r1, s') \<and> quiet_effect (set bs) s s'"
  using assms(3-5)
proof (induction bs arbitrary: s r)
  case (Cons b bs)
  obtain err r1 s1 where 1: "reconcileOne e b r s = (err, r1, s1)" "quiet_effect {b} s s1"
    using equipped_settled [OF Cons.prems(1) assms(1,2)] Cons.prems(3) by fastforce
  have "\<forall>c \<in> set bs. deref s1 c = deref s c" using 1(2) Cons.prems(2) by (auto simp: quiet_effect_def)
  then have "\<forall>c \<in> set bs. mem_stored s1 (wl_ID (deref s1 c)) = Some c \<and> settled e (deref s1 c)"
    using 1(2) Cons.prems(3) by (simp add: quiet_effect_def)
  then obtain r2 s2 where 2: "reconcile_loop e bs r1 s1 = (r2, s2)" "quiet_effect (set bs) s1 s2"
    using Cons.IH [of s1 r1] 1(2) Cons.prems(1,2) by (auto simp: quiet_effect_def)
  show ?case using 1(1) 2(1) quiet_effect_trans [OF 1(2) 2(2)] by simp
qed (simp add: quiet_effect_def)

lemma no_standby_spec: "wl_Spec w' = wl_Spec w \<Longrightarrow> no_standby e w' = no_standby e w"
  by (simp add: no_standby_def split: option.split)


section \<open>One pending workload in a settled store\<close>

definition quota_free :: "'q Reconciler \<Rightarrow> Workload \<Rightarrow> bool" where
  \<comment> \<open>no quota applies to the workload\<close>
  "quota_free e w = (case rec_quota e of None \<Rightarrow> True | Some q \<Rightarrow> quota_limit q w = None)"

lemma quota_free_accepts: "quota_free e (deref s a) \<Longrightarrow> quota_accepts e a s"
  by (auto simp: quota_free_def quota_accepts_def quota_Enforce_def split: option.splits)

lemma equipped_single_pending:
  assumes "mem_valid s" "keyed mem_stored s" "rec_store e = NewVersionedStore MemStore n" "rec_controllers e = []"
    and "mem_stored s i = Some a" "phase (deref s a) = WorkloadPhasePending" "closed_circuit (deref s a)" "no_active_cron (deref s a)"
    and "policy_accepts e (deref s a)" "quota_free e (admitted_workload e (deref s a))"
    and "\<And>j b. mem_stored s j = Some b \<Longrightarrow> j \<noteq> i \<Longrightarrow> settled e (deref s b)"
    and "GetDriver (rec_scheduler e) (sp_Backend (wl_Spec (deref s a))) = Some d" "not_cost_aware (deref s a)" "plain_rollout e a s"
    and "\<And>w. drv_Deploy d (wd_calls s) w = None"
  shows "\<exists>r1 s' w. reconcileAll e r s = (r1, s') \<and> phase (deref s' a) = WorkloadPhaseRunning \<and> mem_stored s' = mem_stored s \<and>
    wd_calls s' = wd_calls s @ [(drv_Name d, CallDeploy w)] \<and> essence w = essence (admitted_workload e (deref s a))"
proof -
  obtain xs ys where v: "reconcileAll e r s = reconcile_loop e (xs @ a # ys) r s" "distinct (xs @ a # ys)"
    "\<And>b. b \<in> set xs \<union> set ys \<Longrightarrow> \<exists>j. j \<noteq> i \<and> mem_stored s j = Some b"
    using visited_around [OF assms(1-3,5), of r] by metis
  have idle: "mem_stored s (wl_ID (deref s b)) = Some b \<and> settled e (deref s b)" if "b \<in> set xs \<union> set ys" for b
    using v(3) [OF that] assms(2,11) unfolding keyed_def by metis
  obtain r1 s1 where 1: "reconcile_loop e xs r s = (r1, s1)" "quiet_effect (set xs) s s1"
    using equipped_loop_settled [OF assms(3,4,1), of xs r] idle v(2) by auto
  then have a1: "deref s1 a = deref s a" "wd_calls s1 = wd_calls s" "mem_valid s1" "mem_stored s1 = mem_stored s"
    and ys1: "\<And>b. b \<in> set ys \<Longrightarrow> deref s1 b = deref s b"
    using assms(1) v(2) by (auto simp: quiet_effect_def)
  have id: "mem_stored s1 (wl_ID (deref s1 a)) = Some a" using assms(2,5) by (simp add: a1 keyed_def)
  have ok: "quota_accepts e a (assign a (admitted_workload e (deref s1 a)) s1)"
    using assms(10) by (intro quota_free_accepts) (simp add: a1)
  have pr: "plain_rollout e a s1" using assms(14) by (simp add: plain_rollout_def a1(1) split: option.splits)
  obtain w r2 s2 where 2: "reconcileOne e a r1 s1 = (None, r2, s2)" "wd_calls s2 = wd_calls s1 @ [(drv_Name d, CallDeploy w)]"
    "essence w = essence (admitted_workload e (deref s1 a))" "phase (deref s2 a) = WorkloadPhaseRunning" "mem_stored s2 = mem_stored s1"
    "mem_valid s2" "\<And>b. b \<noteq> a \<Longrightarrow> deref s2 b = deref s1 b"
    using equipped_pending [OF a1(3) assms(3,4) id _ _ _ _ ok _ _ pr, of d r1] assms(6-9,12,13,15)
    by (simp add: a1(1,2)) metis
  have "deref s2 b = deref s b" if "b \<in> set ys" for b
  proof -
    have "b \<noteq> a" using that v(2) by auto
    then show ?thesis using 2(7) ys1 [OF that] by simp
  qed
  then have "\<forall>b \<in> set ys. mem_stored s2 (wl_ID (deref s2 b)) = Some b \<and> settled e (deref s2 b)"
    using 2(5) idle a1(4) by simp
  then obtain r3 s3 where 3: "reconcile_loop e ys r2 s2 = (r3, s3)" "quiet_effect (set ys) s2 s3"
    using equipped_loop_settled [OF assms(3,4) 2(6), of ys r2] v(2) by auto
  have "reconcileAll e r s = (r3, s3)" unfolding v(1) by (simp add: reconcile_loop_append 1(1) 2(1) 3(1))
  then show ?thesis using 2 3(2) a1 by (auto simp: quiet_effect_def)
qed

section \<open>Witnesses\<close>

definition demo_engine :: HealthEngine where
  "demo_engine = healthgate_New True (30 * second) (5 * second) \<lparr>ht_NewRequest = (\<lambda>_ _. None), ht_Do = (\<lambda>_ _ _ _. Ok 200)\<rparr>"

definition equipped_reconciler :: "int Reconciler" where
  "equipped_reconciler = reconciler_New (NewVersionedStore MemStore 5) demo_scheduler plugin_NewRegistry
     (Some (rollout_New demo_scheduler (Some demo_engine))) int_quantities
     \<lparr>dep_Policy = Some isolating_policy, dep_Quota = Some (quota_New []), dep_Cron = every_minute,
      dep_Circuit = Some (circuit_New demo_circuit),
      dep_Standby = Some (standby_New \<lparr>sbc_Enabled = False, sbc_DefaultStandbyReplicas = 1, sbc_DefaultAutoPromote = True\<rparr>
        (Some (circuit_New demo_circuit))),
      dep_Secrets = Some (fst (secret_New True (Some secret_NewRegistry) True True))\<rparr>"

definition default_pending :: Workload where
  "default_pending = demo_pending\<lparr>wl_Namespace := ''default''\<rparr>"

lemma equipped_fields:
  "rec_store equipped_reconciler = NewVersionedStore MemStore 5" "rec_controllers equipped_reconciler = []"
  "rec_scheduler equipped_reconciler = demo_scheduler" "rec_rollout equipped_reconciler = Some (rollout_New demo_scheduler (Some demo_engine))"
  "quota_free equipped_reconciler w"
  by (simp_all add: equipped_reconciler_def reconciler_New_def plugin_NewRegistry_def quota_free_def quota_New_def quota_limit_def quota_for_def
      split: option.split)

lemma equipped_policy:
  "wl_Namespace w \<noteq> [] \<Longrightarrow> wl_Spec w = zero_spec\<lparr>sp_Backend := b\<rparr> \<Longrightarrow> policy_accepts equipped_reconciler w"
  by (simp add: equipped_reconciler_def reconciler_New_def policy_accepts_def policy_ok_def isolating_policy_def zero_defs)

lemma demo_docker: "GetDriver demo_scheduler ''docker'' = Some accepting_driver"
  by (simp add: demo_scheduler_def GetDriver_def RegisterDriver_def scheduler_New_def accepting_driver_def)


end
