(* ===== verification/Spec2Isabelle.thy ===== *)
theory Spec2Isabelle
  imports
    Prelude Types CircuitBreaker DependencyGraph Dependency EventBus World EventSourcing
    StoreInterface WorkloadTags RolloutHistory StateStore Cron Policy Quota Scheduler
    WarmStandby SecretRotation HealthGate Rollout Autoscaler Reconciler Drift MultiTenancy
    WorkloadQuery Server ServerProofs PersistentStores Evolution
    Passes Process Prediction EventBusThreads Interleaving Binary64 GoStd PipelineTypes Equipped
begin

text \<open>
  Verification of \<^verbatim>\<open>kranix-core\<close>, the control plane of a workload orchestrator written in Go.

  \<^bold>\<open>The program.\<close> \<^verbatim>\<open>cmd/core/main.go\<close> wires one process: a store of workloads
  (\<^verbatim>\<open>internal/state\<close>) decorated with rollback revisions and writing an event log
  (\<^verbatim>\<open>internal/eventsourcing\<close>), an event bus, a scheduler that hands workloads to runtime
  drivers, and a reconciler. Every pass of the reconciler takes the stored workloads by
  priority through custom controllers, policy, quota, circuit breaker, warm standby, secret
  rotation, cron and the rollout strategy, updating the store and publishing events on the
  way. An HTTP API creates, restarts, deletes, searches and rolls back workloads and manages
  quotas; autoscaler, drift detector and dependency resolver work on the same store.

  \<^bold>\<open>State.\<close> \<open>World.world\<close> is the state of a process: the heap of workload objects (a
  \<^verbatim>\<open>*types.Workload\<close> is an address, so the aliasing between the store and its callers is
  visible), the in-memory store, the log, the bus, clock and id source, and the trace of all
  driver calls. Operations are functions from a world to a result and a world; a method
  that runs under a mutex is one step. Errors are values that keep the format string and
  arguments of the source; a panic is \<open>None\<close>. Maps are association lists whose order stands
  for Go's unspecified iteration order; 32-bit integers are words and wrap; \<^verbatim>\<open>float64\<close>
  values are rationals with infinities and NaN; where the code computes with them (failure
  prediction) the operations round as IEEE binary64 does (\<open>Binary64\<close>).

  \<^bold>\<open>Theories and sources.\<close>
  \<^item> \<open>Prelude\<close>: strings, maps, 32-bit integers, time, channels; \<open>Binary64\<close>: \<^verbatim>\<open>float64\<close> arithmetic;
    \<open>GoStd\<close>: \<^verbatim>\<open>strconv.ParseInt\<close> and \<^verbatim>\<open>time.ParseDuration\<close>, with round trips and ranges.
  \<^item> \<open>Types\<close>, \<open>PipelineTypes\<close>: \<^verbatim>\<open>pkg/types\<close>.
  \<^item> \<open>CircuitBreaker\<close>: \<^verbatim>\<open>internal/circuitbreaker\<close>. Refinement of an abstract three-state
    machine, exact thresholds, blocking while open, the probe budget.
  \<^item> \<open>DependencyGraph\<close>, \<open>Dependency\<close>: \<^verbatim>\<open>internal/dependency\<close>. Kahn's algorithm and the
    cycle search are correct and complete for every map iteration order; the check of
    dependencies against the store is exact.
  \<^item> \<open>EventBus\<close>, \<open>EventSourcing\<close>: \<^verbatim>\<open>internal/eventbus\<close>, \<^verbatim>\<open>internal/eventsourcing\<close>. Delivery up
    to the buffer size; versions increase; write then read.
  \<^item> \<open>EventBusThreads\<close>: the bus below its mutex, with slices over shared arrays and publishers that
    serve one subscriber at a time while other goroutines change the subscriptions. It refines
    \<open>EventBus\<close>; a publisher is exact unless somebody unsubscribes meanwhile.
  \<^item> \<open>StoreInterface\<close>: the \<^verbatim>\<open>Store\<close> interface as the locale \<open>workload_store\<close>;
    \<open>StateStore\<close>: \<^verbatim>\<open>internal/state/store.go\<close> and \<^verbatim>\<open>versioned_store.go\<close>, its two
    interpretations; \<open>RolloutHistory\<close>: \<^verbatim>\<open>internal/rollouthistory\<close>. The stores refine a
    map, every change is audited once, histories are bounded and reverts restore. Clients
    (quotas, standby, secret rotation, dependency checks) prove their lemmas once inside
    the locale and use them through its interpretation.
  \<^item> \<open>WorkloadTags\<close>, \<open>Policy\<close>, \<open>Cron\<close>, \<open>Quota\<close>: admission (\<^verbatim>\<open>internal/workloadtags\<close>,
    \<^verbatim>\<open>policy\<close>, \<^verbatim>\<open>cronsched\<close>, \<^verbatim>\<open>resourcequota\<close>, \<^verbatim>\<open>quotaaggregate\<close>). Exact characterisations
    of what is admitted and that quotas hold over runs of admissions.
  \<^item> \<open>Scheduler\<close>, \<open>Rollout\<close>, \<open>HealthGate\<close>: placement, restarts, strategies and gates
    (\<^verbatim>\<open>internal/scheduler\<close>, \<^verbatim>\<open>rollout\<close>, \<^verbatim>\<open>healthgate\<close>). The cheapest node is chosen; the driver
    calls of each operation are determined exactly.
  \<^item> \<open>WarmStandby\<close>, \<open>SecretRotation\<close>, \<open>Autoscaler\<close>: \<^verbatim>\<open>internal/warmstandby\<close>,
    \<^verbatim>\<open>secretrotation\<close>, \<^verbatim>\<open>autoscaler\<close>. Failover, marking of dependents, steps within bounds.
  \<^item> \<open>Reconciler\<close>: \<^verbatim>\<open>internal/reconciler\<close> and \<^verbatim>\<open>internal/plugin\<close>. Order of a pass, rejection
    without effects, double counting of failures; \<open>Equipped\<close>: with all collaborators of the
    reconciler present, exactly one deployment of a pending workload and none of settled ones.
  \<^item> \<open>Drift\<close>, \<open>MultiTenancy\<close>, \<open>Prediction\<close>: \<^verbatim>\<open>internal/drift\<close>, \<^verbatim>\<open>multitenancy\<close>,
    \<^verbatim>\<open>prediction\<close>. Drift is reported exactly when it exceeds the tolerance, and when the check
    panics; tenant limits hold over runs; the heuristic model is a monotone probability.
  \<^item> \<open>WorkloadQuery\<close>: \<^verbatim>\<open>internal/workloadfilter\<close>, \<^verbatim>\<open>workloadpage\<close>, \<^verbatim>\<open>diff\<close>. The filter is the
    conjunction of its criteria; a diff lists exactly the differences.
  \<^item> \<open>Server\<close>, \<open>ServerProofs\<close>: \<^verbatim>\<open>internal/server\<close>, every handler and the route table. Dispatch is
    complete and unambiguous, error codes and bodies agree, reading is safe, bulk requests run
    in order, what is created can be read, and what a redeploy does to the rollback history.
  \<^item> \<open>PersistentStores\<close>: \<^verbatim>\<open>internal/state/etcd.go\<close> and \<^verbatim>\<open>postgres.go\<close>, which do not meet the
    store contract: write then read, what listing and deleting do instead.
  \<^item> \<open>Evolution\<close>, \<open>Passes\<close>, \<open>Process\<close>: \<open>evolves\<close> is what every operation keeps of the state, the
    locale \<open>audited_store\<close> what it needs from a store; \<open>Passes\<close> shows it for the background
    passes, \<open>ServerProofs\<close> for the handlers. \<open>Process\<close> models \<^verbatim>\<open>cmd/core/main.go\<close>: configuration,
    wiring and the step relation of the running process, a pass or a request being one step.
  \<^item> \<open>Interleaving\<close>: the same process with passes that stop between the stages of one workload, so
    that requests and the other loops run in between on shared workload objects. Every reachable
    state is well formed, drivers only ever receive deployments, restarts and status queries, and
    as wired they receive nothing; what a request in the middle of a pass does. The theorem below
    follows a workload from the request that creates it to phase \<open>Running\<close>.

  \<^bold>\<open>Parameters.\<close> Code outside the repository is an argument: runtime drivers, custom
  controllers, cost provider and node registry (with the default implementations as
  instances), metrics provider, the cron, quantity and pagination libraries, JSON encoding and
  decoding, the HTTP clients, the etcd client and \<^verbatim>\<open>database/sql\<close>, node and runtime operations of
  the server, \<^verbatim>\<open>fmt.Sscanf\<close> and \<^verbatim>\<open>math.Exp\<close>. A theorem that relies on such
  code names what it relies on as a hypothesis and has a witness with a concrete instance.

  \<^bold>\<open>Termination.\<close> All functions are total. Only \<open>findCycleDFS\<close> carries fuel; the number of
  nodes is proved to be enough and is what \<open>findCycle\<close> supplies. Loops that poll
  (\<^verbatim>\<open>WaitDependencies\<close>), block (\<^verbatim>\<open>Publish\<close>) or run until shutdown (\<^verbatim>\<open>Start\<close>) are inductive
  relations. Taking a mutex the goroutine already holds is \<open>None\<close>: the call does not return.

  \<^bold>\<open>Not modelled.\<close> What a YAML file or a database connection contains: the decoded configuration and
  the opened stores are arguments of \<open>loadConfig\<close> and \<open>main_boot\<close>. Interleavings inside one stage of
  a pass or inside one request: these are atomic here, while in the source other goroutines may
  run between any two memory accesses of them.

  \<^bold>\<open>Plan.\<close> Next is the process over the persistent stores, whose listings fail as a whole when one
  record does not decode.
\<close>

section \<open>From a request to a running workload\<close>

definition other_workloads_settled :: "'q Reconciler \<Rightarrow> string \<Rightarrow> world \<Rightarrow> bool" where
  "other_workloads_settled e i s = (\<forall>j b. mem_stored s j = Some b \<and> j \<noteq> i \<longrightarrow> settled e (deref s b))"

definition deployable :: "'q Reconciler \<Rightarrow> RuntimeDriver \<Rightarrow> WorkloadSpec \<Rightarrow> bool" where
  \<comment> \<open>a spec without schedule or cost-aware placement, with a simple rollout, no enabled gate and a backend whose driver is \<open>d\<close>\<close>
  "deployable e d spec = (sp_CronSchedule spec = None \<and> sp_Scheduling spec = None \<and>
     GetDriver (rec_scheduler e) (sp_Backend spec) = Some d \<and>
     (case rec_rollout e of None \<Rightarrow> True
      | Some m \<Rightarrow> rm_scheduler m = rec_scheduler e \<and>
          (rm_healthGate m = None \<or> (case sp_HealthGate spec of None \<Rightarrow> True | Some g \<Rightarrow> \<not> hg_Enabled g)) \<and>
          rs_Type (sp_RolloutStrategy spec) \<in> {[], ''rolling'', ''recreate'', ''bluegreen''}))"

lemma deployable_workload:
  assumes "deployable e d spec" "wl_Spec (deref s a) = spec"
  shows "no_active_cron (deref s a)" "not_cost_aware (deref s a)" "plain_rollout e a s"
    "GetDriver (rec_scheduler e) (sp_Backend (wl_Spec (deref s a))) = Some d"
  using assms by (auto simp: deployable_def no_active_cron_def not_cost_aware_def plain_rollout_def enabled_gate_def split: option.splits)


definition docker_item :: BulkWorkloadItem where
  "docker_item = \<lparr>bi_ID = ''a'', bi_Spec = zero_spec\<lparr>sp_Backend := ''docker''\<rparr>\<rparr>"

definition docker_server :: "(int, string) Server" where
  "docker_server = demo_server\<lparr>sv_json := (sv_json demo_server)\<lparr>jd_Item := (\<lambda>_. Some docker_item)\<rparr>\<rparr>"


end
